theory Spec2Isabelle
  imports Main
begin

section \<open>Values and object identities\<close>

text \<open>
  The rendering engine works on four kinds of mutable JavaScript objects: virtual elements,
  component instances, DOM nodes and rendering contexts. Each object is identified by an
  address; \<open>===\<close> on objects is equality of addresses.
\<close>

type_synonym vid = nat
type_synonym cid = nat
type_synonym nid = nat
type_synonym xid = nat

datatype jsval = Undefined | Null | JBool bool | JNum int | JStr string
  | JObj "(string \<times> jsval) list"

text \<open>\<open>Boolean(v)\<close>, the truthiness used by \<open>if (v)\<close> and \<open>!v\<close>.\<close>

fun truthy :: "jsval \<Rightarrow> bool" where
  "truthy Undefined = False"
| "truthy Null = False"
| "truthy (JBool b) = b"
| "truthy (JNum n) = (n \<noteq> 0)"
| "truthy (JStr s) = (s \<noteq> [])"
| "truthy (JObj kvs) = True"

text \<open>A hash is either a \<open>Map\<close> or a plain object; both keep their keys in insertion order.\<close>

datatype hash = HMap "(string \<times> jsval) list" | HObj "(string \<times> jsval) list"

text \<open>A component class: its identity and its \<open>name\<close>.\<close>

datatype cls = Cls (cls_id: nat) (cls_name: string)

type_synonym listener = "string \<times> nat"

record elprops =
  ep_attributes :: "hash option"
  ep_htmlProps :: "hash option"
  ep_eventListeners :: "listener list option"

record vel =
  v_comp :: "cid option"
  v_isVirtualComponent :: bool
  v_isVirtualHTMLElement :: bool
  v_isVirtualTextNode :: bool
  v_isFake :: bool
  v_ComponentClass :: cls
  v_props :: jsval
  v_parent :: "vid option"
  v_preliminaryParent :: "vid option"
  v_children :: "vid list"
  v_tagName :: string
  v_text :: string
  v_innerHTMLString :: "string option"
  v_ref :: "string option"
  v_owner :: "vid option"
  v_isForwarding :: bool
  v_forwardedEl :: "vid option"
  v_isForwarded :: bool
  v_context :: "xid option"
  v_elementProps :: "elprops option"
  v_own :: elprops
  v_components :: "(vid \<times> cid option) list option"

record internalData =
  d_refs :: "(string \<times> vid) list"
  d_foreignRefs :: "(string \<times> vid) list"
  d_internalRefs :: "(string \<times> vid) list option"
  d_elementProps :: "elprops option"

record comp =
  c_el :: "nid option"
  c_isComponent :: bool
  c_isElementComponent :: bool
  c_isTextNodeComponent :: bool
  c_constructor :: cls
  c_props :: jsval
  c_state :: jsval
  c_parent :: "cid option"
  c_ref :: "string option"
  c_owner :: "cid option"
  c_forwardedComp :: "cid option"
  c_internal :: "internalData option"
  c_refs :: "(string \<times> cid) list"
  c_mounted :: bool

record dnode =
  n_isTextNode :: bool
  n_isElementNode :: bool
  n_tagName :: string
  n_attributes :: "(string \<times> jsval) list"
  n_htmlProps :: "hash option"
  n_listeners :: "listener list"
  n_textContent :: string
  n_childNodes :: "nid list"
  n_parentNode :: "nid option"
  n_comp :: "cid option"
  n_hasInnerHTML :: bool
  n_innerHTML :: string

record rcontext =
  x_owner :: vid
  x_refs :: "(string \<times> vid) list"
  x_foreignRefs :: "(string \<times> vid) list"
  x_internalRefs :: "(string \<times> vid) list option"
  x_components :: "vid list"
  x_injectedComponents :: "vid list"

text \<open>
  The heap of objects other code can see: virtual elements, components, DOM nodes, contexts,
  with one allocation counter each.
\<close>

record heap =
  vels :: "vid \<Rightarrow> vel"
  comps :: "cid \<Rightarrow> comp"
  nodes :: "nid \<Rightarrow> dnode"
  ctxs :: "xid \<Rightarrow> rcontext"
  next_vel :: nat
  next_comp :: nat
  next_node :: nat
  next_ctx :: nat

section \<open>Rendering state\<close>

datatype tag = CAPTURED | DETACHED | LINKED | MAPPED | NEW | OLDPROPS | OLDSTATE
  | RELOCATED | RENDERED | SKIPPED | UPDATED

text \<open>The objects that carry per-pass tags: virtual elements and components.\<close>

datatype obj = OVel vid | OComp cid

text \<open>
  Everything observable that the engine does to its collaborators, in the order it
  happens: the mutations of the target tree and the lifecycle notifications.
\<close>

datatype event =
    SetTextContent nid string
  | SetTagName nid string
  | SetAttribute nid string jsval
  | RemoveAttribute nid string
  | SetProperty nid string jsval
  | RemoveProperty nid string
  | RemoveAllEventListeners nid
  | AddEventListener nid listener
  | EmptyEl nid
  | SetInnerHTML nid string
  | AppendChild nid nid
  | InsertBefore nid nid nid
  | RemoveChild nid nid
  | ReplaceChild nid nid nid
  | RemoveEl nid
  | CreateElement nid string
  | CreateTextNode nid string
  | CreateComponent cid
  | WillReceiveProps cid jsval
  | DidUpdate cid jsval jsval
  | TriggerDidMount cid
  | TriggerDispose cid

datatype error = EmptyRenderResult | InvalidRenderResult | IncompatibleElement
  | TypeError | OutOfFuel

text \<open>
  \<open>RenderingState\<close>: the list of polluted objects and the stack of contexts. The tags
  themselves are stored on the tagged objects, under the key \<open>state.id\<close>.
\<close>

record rstate =
  sid :: nat
  polluted :: "obj list"
  contexts :: "xid list"

record world =
  hp :: heap
  oinfo :: "obj \<Rightarrow> nat \<Rightarrow> (tag \<Rightarrow> jsval) option"
  st :: rstate
  engine_state :: "nat option"
  uuid_ctr :: nat
  log :: "event list"

section \<open>Sequencing with exceptions\<close>

text \<open>
  A computation takes the world and returns the world it leaves behind together with either
  a value or the error it threw. The world is kept when an error is thrown, because
  \<open>finally\<close> blocks run on it.
\<close>

type_synonym 'a M = "world \<Rightarrow> (error + 'a) \<times> world"

definition ret :: "'a \<Rightarrow> 'a M" where
  "ret x = (\<lambda>w. (Inr x, w))"

definition throw :: "error \<Rightarrow> 'a M" where
  "throw e = (\<lambda>w. (Inl e, w))"

definition bnd :: "'a M \<Rightarrow> ('a \<Rightarrow> 'b M) \<Rightarrow> 'b M" where
  "bnd m f = (\<lambda>w. case m w of (Inl e, w') \<Rightarrow> (Inl e, w') | (Inr x, w') \<Rightarrow> f x w')"

definition sq :: "unit M \<Rightarrow> 'b M \<Rightarrow> 'b M" where
  "sq m n = bnd m (\<lambda>_. n)"

definition whenM :: "bool \<Rightarrow> unit M \<Rightarrow> unit M" where
  "whenM b m = (if b then m else ret ())"

text \<open>\<open>try { m } finally { c }\<close>: \<open>c\<close> runs on every exit of \<open>m\<close>.\<close>

definition tryFinally :: "'a M \<Rightarrow> unit M \<Rightarrow> 'a M" where
  "tryFinally m c = (\<lambda>w. case m w of (r, w') \<Rightarrow>
     (case c w' of (Inl e, w'') \<Rightarrow> (Inl e, w'') | (Inr _, w'') \<Rightarrow> (r, w'')))"

definition gets :: "(world \<Rightarrow> 'a) \<Rightarrow> 'a M" where
  "gets f = (\<lambda>w. (Inr (f w), w))"

definition modify :: "(world \<Rightarrow> world) \<Rightarrow> unit M" where
  "modify f = (\<lambda>w. (Inr (), f w))"

text \<open>Reading through a reference that may be \<open>undefined\<close> throws a \<open>TypeError\<close>.\<close>

definition deref :: "'a option \<Rightarrow> 'a M" where
  "deref x = (case x of None \<Rightarrow> throw TypeError | Some y \<Rightarrow> ret y)"

fun forEach :: "('a \<Rightarrow> unit M) \<Rightarrow> 'a list \<Rightarrow> unit M" where
  "forEach f [] = ret ()"
| "forEach f (x # xs) = sq (f x) (forEach f xs)"

definition emit :: "event \<Rightarrow> unit M" where
  "emit e = modify (\<lambda>w. w\<lparr>log := log w @ [e]\<rparr>)"

subsection \<open>Heap access\<close>

definition velOf :: "world \<Rightarrow> vid \<Rightarrow> vel" where
  "velOf w v = vels (hp w) v"

definition compOf :: "world \<Rightarrow> cid \<Rightarrow> comp" where
  "compOf w c = comps (hp w) c"

definition nodeOf :: "world \<Rightarrow> nid \<Rightarrow> dnode" where
  "nodeOf w n = nodes (hp w) n"

definition ctxOf :: "world \<Rightarrow> xid \<Rightarrow> rcontext" where
  "ctxOf w x = ctxs (hp w) x"

definition setVel :: "vid \<Rightarrow> (vel \<Rightarrow> vel) \<Rightarrow> unit M" where
  "setVel v f = modify (\<lambda>w. w\<lparr>hp := (hp w)\<lparr>vels := (vels (hp w))(v := f (vels (hp w) v))\<rparr>\<rparr>)"

definition setComp :: "cid \<Rightarrow> (comp \<Rightarrow> comp) \<Rightarrow> unit M" where
  "setComp c f = modify (\<lambda>w. w\<lparr>hp := (hp w)\<lparr>comps := (comps (hp w))(c := f (comps (hp w) c))\<rparr>\<rparr>)"

definition setNode :: "nid \<Rightarrow> (dnode \<Rightarrow> dnode) \<Rightarrow> unit M" where
  "setNode n f = modify (\<lambda>w. w\<lparr>hp := (hp w)\<lparr>nodes := (nodes (hp w))(n := f (nodes (hp w) n))\<rparr>\<rparr>)"

definition setCtx :: "xid \<Rightarrow> (rcontext \<Rightarrow> rcontext) \<Rightarrow> unit M" where
  "setCtx x f = modify (\<lambda>w. w\<lparr>hp := (hp w)\<lparr>ctxs := (ctxs (hp w))(x := f (ctxs (hp w) x))\<rparr>\<rparr>)"

subsection \<open>\<open>RenderingState\<close>\<close>

text \<open>\<open>RenderingState.set(key, obj, val = true)\<close>\<close>

definition sset :: "tag \<Rightarrow> obj \<Rightarrow> jsval \<Rightarrow> unit M" where
  "sset key ob val = modify (\<lambda>w.
     let i = sid (st w) in
     case oinfo w ob i of
       None \<Rightarrow> w\<lparr>oinfo := (oinfo w)(ob := (oinfo w ob)(i \<mapsto> (\<lambda>_. Undefined)(key := val))),
                  st := (st w)\<lparr>polluted := polluted (st w) @ [ob]\<rparr>\<rparr>
     | Some nfo \<Rightarrow> w\<lparr>oinfo := (oinfo w)(ob := (oinfo w ob)(i \<mapsto> nfo(key := val)))\<rparr>)"

definition tagOn :: "tag \<Rightarrow> obj \<Rightarrow> unit M" where
  "tagOn key ob = sset key ob (JBool True)"

text \<open>\<open>RenderingState.get(key, obj)\<close>\<close>

definition sget :: "world \<Rightarrow> tag \<Rightarrow> obj \<Rightarrow> jsval" where
  "sget w key ob = (case oinfo w ob (sid (st w)) of None \<Rightarrow> Undefined | Some nfo \<Rightarrow> nfo key)"

text \<open>\<open>RenderingState.is(key, obj)\<close>\<close>

definition sis :: "world \<Rightarrow> tag \<Rightarrow> obj \<Rightarrow> bool" where
  "sis w key ob = truthy (sget w key ob)"

text \<open>\<open>RenderingState.dispose()\<close>\<close>

definition dispose :: "unit M" where
  "dispose = modify (\<lambda>w.
     let i = sid (st w) in
     w\<lparr>oinfo := (\<lambda>ob. if ob \<in> set (polluted (st w)) then (oinfo w ob)(i := None) else oinfo w ob),
       st := (st w)\<lparr>contexts := []\<rparr>\<rparr>)"

definition pushContext :: "xid \<Rightarrow> unit M" where
  "pushContext x = modify (\<lambda>w. w\<lparr>st := (st w)\<lparr>contexts := contexts (st w) @ [x]\<rparr>\<rparr>)"

definition popContext :: "unit M" where
  "popContext = modify (\<lambda>w. w\<lparr>st := (st w)\<lparr>contexts := butlast (contexts (st w))\<rparr>\<rparr>)"

text \<open>\<open>RenderingEngine._createState()\<close>: a state with a fresh \<open>id\<close>.\<close>

definition createState :: "unit M" where
  "createState = modify (\<lambda>w.
     w\<lparr>st := \<lparr>sid = uuid_ctr w, polluted = [], contexts = []\<rparr>, uuid_ctr := Suc (uuid_ctr w)\<rparr>)"

section \<open>The target tree\<close>

text \<open>
  Modelled from the spec: the Element Factory and the concrete nodes it hands out
  (\<open>DOMElement\<close> and its implementations are not among the sources). The spec lists the
  operations a node offers: get/set attribute, get/set property, add/remove event listener,
  get/set text content, get child nodes, append/insert/remove/replace child, parent-node
  access, kind predicates, get/set tag name. Each mutating operation changes the node heap
  and is recorded in the log. The nodes an inner-HTML string would parse to are not
  represented.
\<close>

definition lowerChar :: "char \<Rightarrow> char" where
  "lowerChar c = (let n = (of_char c :: nat) in
     if 65 \<le> n \<and> n \<le> 90
     then (case c of Char b0 b1 b2 b3 b4 b5 b6 b7 \<Rightarrow> Char b0 b1 b2 b3 b4 True b6 b7)
     else c)"

definition toLowerCase :: "string \<Rightarrow> string" where
  "toLowerCase s = map lowerChar s"

fun hset :: "string \<Rightarrow> 'a \<Rightarrow> (string \<times> 'a) list \<Rightarrow> (string \<times> 'a) list" where
  "hset k v [] = [(k, v)]"
| "hset k v ((k', v') # kvs) = (if k = k' then (k, v) # kvs else (k', v') # hset k v kvs)"

definition hdel :: "string \<Rightarrow> (string \<times> 'a) list \<Rightarrow> (string \<times> 'a) list" where
  "hdel k kvs = filter (\<lambda>kv. fst kv \<noteq> k) kvs"

definition setTextContent :: "nid \<Rightarrow> string \<Rightarrow> unit M" where
  "setTextContent n s = sq (setNode n (\<lambda>d. d\<lparr>n_textContent := s\<rparr>)) (emit (SetTextContent n s))"

definition getTagName :: "world \<Rightarrow> nid \<Rightarrow> string" where
  "getTagName w n = n_tagName (nodeOf w n)"

definition setTagName :: "nid \<Rightarrow> string \<Rightarrow> unit M" where
  "setTagName n s = sq (setNode n (\<lambda>d. d\<lparr>n_tagName := toLowerCase s\<rparr>)) (emit (SetTagName n s))"

definition setAttribute :: "nid \<Rightarrow> string \<Rightarrow> jsval \<Rightarrow> unit M" where
  "setAttribute n k v =
     sq (setNode n (\<lambda>d. d\<lparr>n_attributes := hset k v (n_attributes d)\<rparr>)) (emit (SetAttribute n k v))"

definition removeAttribute :: "nid \<Rightarrow> string \<Rightarrow> unit M" where
  "removeAttribute n k =
     sq (setNode n (\<lambda>d. d\<lparr>n_attributes := hdel k (n_attributes d)\<rparr>)) (emit (RemoveAttribute n k))"

fun hashSet :: "string \<Rightarrow> jsval \<Rightarrow> hash option \<Rightarrow> hash option" where
  "hashSet k v None = Some (HMap [(k, v)])"
| "hashSet k v (Some (HMap kvs)) = Some (HMap (hset k v kvs))"
| "hashSet k v (Some (HObj kvs)) = Some (HObj (hset k v kvs))"

fun hashDel :: "string \<Rightarrow> hash option \<Rightarrow> hash option" where
  "hashDel k None = None"
| "hashDel k (Some (HMap kvs)) = Some (HMap (hdel k kvs))"
| "hashDel k (Some (HObj kvs)) = Some (HObj (hdel k kvs))"

definition setProperty :: "nid \<Rightarrow> string \<Rightarrow> jsval \<Rightarrow> unit M" where
  "setProperty n k v =
     sq (setNode n (\<lambda>d. d\<lparr>n_htmlProps := hashSet k v (n_htmlProps d)\<rparr>)) (emit (SetProperty n k v))"

definition removeProperty :: "nid \<Rightarrow> string \<Rightarrow> unit M" where
  "removeProperty n k =
     sq (setNode n (\<lambda>d. d\<lparr>n_htmlProps := hashDel k (n_htmlProps d)\<rparr>)) (emit (RemoveProperty n k))"

definition removeAllEventListeners :: "nid \<Rightarrow> unit M" where
  "removeAllEventListeners n =
     sq (setNode n (\<lambda>d. d\<lparr>n_listeners := []\<rparr>)) (emit (RemoveAllEventListeners n))"

definition addEventListener :: "nid \<Rightarrow> listener \<Rightarrow> unit M" where
  "addEventListener n l =
     sq (setNode n (\<lambda>d. d\<lparr>n_listeners := n_listeners d @ [l]\<rparr>)) (emit (AddEventListener n l))"

definition setInnerHTML :: "nid \<Rightarrow> string \<Rightarrow> unit M" where
  "setInnerHTML n s = sq (setNode n (\<lambda>d. d\<lparr>n_innerHTML := s\<rparr>)) (emit (SetInnerHTML n s))"

text \<open>Taking a node out of the child list of its parent, if it has one.\<close>

definition detach :: "nid \<Rightarrow> unit M" where
  "detach c = bnd (gets (\<lambda>w. n_parentNode (nodeOf w c))) (\<lambda>p.
     case p of
       None \<Rightarrow> ret ()
     | Some p' \<Rightarrow>
         sq (setNode p' (\<lambda>d. d\<lparr>n_childNodes := removeAll c (n_childNodes d)\<rparr>))
            (setNode c (\<lambda>d. d\<lparr>n_parentNode := None\<rparr>)))"

definition emptyEl :: "nid \<Rightarrow> unit M" where
  "emptyEl n = bnd (gets (\<lambda>w. n_childNodes (nodeOf w n))) (\<lambda>cs.
     sq (forEach detach cs) (emit (EmptyEl n)))"

definition elAppendChild :: "nid \<Rightarrow> nid \<Rightarrow> unit M" where
  "elAppendChild p c =
     sq (detach c)
    (sq (setNode p (\<lambda>d. d\<lparr>n_childNodes := n_childNodes d @ [c]\<rparr>))
    (sq (setNode c (\<lambda>d. d\<lparr>n_parentNode := Some p\<rparr>))
        (emit (AppendChild p c))))"

fun insertBeforeL :: "nid \<Rightarrow> nid \<Rightarrow> nid list \<Rightarrow> nid list" where
  "insertBeforeL c b [] = [c]"
| "insertBeforeL c b (x # xs) = (if x = b then c # x # xs else x # insertBeforeL c b xs)"

definition elInsertBefore :: "nid \<Rightarrow> nid \<Rightarrow> nid \<Rightarrow> unit M" where
  "elInsertBefore p c b =
     sq (detach c)
    (sq (setNode p (\<lambda>d. d\<lparr>n_childNodes := insertBeforeL c b (n_childNodes d)\<rparr>))
    (sq (setNode c (\<lambda>d. d\<lparr>n_parentNode := Some p\<rparr>))
        (emit (InsertBefore p c b))))"

definition elRemoveChild :: "nid \<Rightarrow> nid \<Rightarrow> unit M" where
  "elRemoveChild p c =
     sq (setNode p (\<lambda>d. d\<lparr>n_childNodes := removeAll c (n_childNodes d)\<rparr>))
    (sq (setNode c (\<lambda>d. d\<lparr>n_parentNode := None\<rparr>))
        (emit (RemoveChild p c)))"

definition elReplaceChild :: "nid \<Rightarrow> nid \<Rightarrow> nid \<Rightarrow> unit M" where
  "elReplaceChild p old new =
     sq (whenM (new \<noteq> old) (detach new))
    (sq (setNode p (\<lambda>d. d\<lparr>n_childNodes := map (\<lambda>x. if x = old then new else x) (n_childNodes d)\<rparr>))
    (sq (whenM (new \<noteq> old) (setNode old (\<lambda>d. d\<lparr>n_parentNode := None\<rparr>)))
    (sq (setNode new (\<lambda>d. d\<lparr>n_parentNode := Some p\<rparr>))
        (emit (ReplaceChild p old new)))))"

definition elRemove :: "nid \<Rightarrow> unit M" where
  "elRemove n = sq (detach n) (emit (RemoveEl n))"

definition blankNode :: dnode where
  "blankNode = \<lparr>n_isTextNode = False, n_isElementNode = False, n_tagName = [],
     n_attributes = [], n_htmlProps = None, n_listeners = [], n_textContent = [],
     n_childNodes = [], n_parentNode = None, n_comp = None, n_hasInnerHTML = False,
     n_innerHTML = []\<rparr>"

definition allocNode :: "dnode \<Rightarrow> nid M" where
  "allocNode d = (\<lambda>w. let n = next_node (hp w) in
     (Inr n, w\<lparr>hp := (hp w)\<lparr>nodes := (nodes (hp w))(n := d), next_node := Suc n\<rparr>\<rparr>))"

definition createTextNode :: "string \<Rightarrow> nid M" where
  "createTextNode s =
     bnd (allocNode (blankNode\<lparr>n_isTextNode := True, n_textContent := s\<rparr>)) (\<lambda>n.
     sq (emit (CreateTextNode n s)) (ret n))"

definition createElement :: "string \<Rightarrow> nid M" where
  "createElement t =
     bnd (allocNode (blankNode\<lparr>n_isElementNode := True, n_tagName := toLowerCase t\<rparr>)) (\<lambda>n.
     sq (emit (CreateElement n t)) (ret n))"

section \<open>Virtual elements\<close>

text \<open>
  Modelled from the spec: the accessors of the Virtual Descriptor Model
  (\<open>VirtualElement\<close> is not among the sources). An element descriptor has an attribute map,
  a property map, an event-listener list and either children or a raw inner-content
  string. The class list and the inline style are kept inside the attribute map.
\<close>

definition getAttributes :: "vel \<Rightarrow> hash option" where
  "getAttributes vl = ep_attributes (v_own vl)"

definition getEventListeners :: "vel \<Rightarrow> listener list option" where
  "getEventListeners vl = ep_eventListeners (v_own vl)"

definition hasInnerHTML :: "vel \<Rightarrow> bool" where
  "hasInnerHTML vl = (case v_innerHTMLString vl of None \<Rightarrow> False | Some s \<Rightarrow> s \<noteq> [])"

definition getInnerHTML :: "vel \<Rightarrow> string" where
  "getInnerHTML vl = (case v_innerHTMLString vl of None \<Rightarrow> [] | Some s \<Rightarrow> s)"

section \<open>Synchronising one node\<close>

text \<open>\<open>_hashGet(hash, key)\<close>: a missing key reads as \<open>undefined\<close>. Only own keys are modelled.\<close>

fun hashGet :: "hash \<Rightarrow> string \<Rightarrow> jsval" where
  "hashGet (HMap kvs) key = (case map_of kvs key of None \<Rightarrow> Undefined | Some v \<Rightarrow> v)"
| "hashGet (HObj kvs) key = (case map_of kvs key of None \<Rightarrow> Undefined | Some v \<Rightarrow> v)"

text \<open>The keys a \<open>for..in\<close> loop with \<open>hasOwnProperty\<close> visits: none on a \<open>Map\<close>.\<close>

fun ownKeys :: "hash \<Rightarrow> string list" where
  "ownKeys (HMap kvs) = []"
| "ownKeys (HObj kvs) = map fst kvs"

text \<open>
  \<open>_updateHash({ newHash, oldHash, update, remove })\<close>. \<open>newHash.keys()\<close> exists on a
  \<open>Map\<close> only. \<open>updatedKeys\<close> holds every key of \<open>newHash\<close> once the first loop is over.
\<close>

definition updateHash ::
  "hash option \<Rightarrow> hash option \<Rightarrow> (string \<Rightarrow> jsval \<Rightarrow> unit M) \<Rightarrow> (string \<Rightarrow> unit M) \<Rightarrow> unit M" where
  "updateHash newHash oldHash update remove =
     (if newHash = None \<and> oldHash = None then ret ()
      else
        let newHash' = (case newHash of None \<Rightarrow> HMap [] | Some h \<Rightarrow> h);
            oldHash' = (case oldHash of None \<Rightarrow> HMap [] | Some h \<Rightarrow> h)
        in case newHash' of
             HObj _ \<Rightarrow> throw TypeError
           | HMap nkvs \<Rightarrow>
               sq (forEach (\<lambda>key.
                     let oldVal = hashGet oldHash' key; newVal = hashGet newHash' key
                     in whenM (oldVal \<noteq> newVal) (update key newVal)) (map fst nkvs))
                  (let updatedKeys = set (map fst nkvs) in
                   case oldHash' of
                     HMap okvs \<Rightarrow>
                       if okvs \<noteq> []
                       then forEach (\<lambda>key. whenM (key \<notin> updatedKeys) (remove key)) (map fst okvs)
                       else forEach (\<lambda>key. whenM (key \<notin> updatedKeys) (remove key)) (ownKeys oldHash')
                   | HObj okvs \<Rightarrow>
                       forEach (\<lambda>key. whenM (key \<notin> updatedKeys) (remove key)) (ownKeys oldHash')))"

text \<open>\<open>_updateListeners(args)\<close>: \<open>args.oldListeners\<close> is never read.\<close>

definition updateListeners :: "nid \<Rightarrow> listener list option \<Rightarrow> listener list option \<Rightarrow> unit M" where
  "updateListeners el oldListeners newListeners =
     (let newListeners' = (case newListeners of None \<Rightarrow> [] | Some ls \<Rightarrow> ls)
      in sq (removeAllEventListeners el) (forEach (addEventListener el) newListeners'))"

text \<open>\<open>_updateDOMElement(el, vel)\<close>\<close>

definition updateDOMElement :: "nid \<Rightarrow> vid \<Rightarrow> unit M" where
  "updateDOMElement el v = bnd (gets (\<lambda>w. velOf w v)) (\<lambda>vl.
     if v_isVirtualTextNode vl then
       bnd (gets (\<lambda>w. n_textContent (nodeOf w el))) (\<lambda>tc.
         whenM (tc \<noteq> v_text vl) (setTextContent el (v_text vl)))
     else
       bnd (gets (\<lambda>w. getTagName w el)) (\<lambda>tagName.
       sq (whenM (toLowerCase (v_tagName vl) \<noteq> tagName) (setTagName el (v_tagName vl)))
      (bnd (gets (\<lambda>w. n_attributes (nodeOf w el))) (\<lambda>oldAttrs.
       sq (updateHash (getAttributes vl) (Some (HMap oldAttrs)) (setAttribute el) (removeAttribute el))
      (bnd (gets (\<lambda>w. n_htmlProps (nodeOf w el))) (\<lambda>oldProps.
       sq (updateHash (ep_htmlProps (v_own vl)) oldProps (setProperty el) (removeProperty el))
      (bnd (gets (\<lambda>w. n_listeners (nodeOf w el))) (\<lambda>oldListeners.
       sq (updateListeners el (Some oldListeners) (getEventListeners vl))
      (whenM (hasInnerHTML vl)
        (bnd (gets (\<lambda>w. n_hasInnerHTML (nodeOf w el))) (\<lambda>had.
         sq (if \<not> had then sq (emptyEl el) (setInnerHTML el (getInnerHTML vl))
             else bnd (gets (\<lambda>w. n_innerHTML (nodeOf w el))) (\<lambda>oldInnerHTML.
                    let newInnerHTML = getInnerHTML vl
                    in whenM (oldInnerHTML \<noteq> newInnerHTML) (setInnerHTML el newInnerHTML)))
            (setNode el (\<lambda>d. d\<lparr>n_hasInnerHTML := True\<rparr>)))))))))))))"

text \<open>\<open>_createDOMElement(state, vel)\<close>\<close>

definition createDOMElement :: "vid \<Rightarrow> nid M" where
  "createDOMElement v = bnd (gets (\<lambda>w. velOf w v)) (\<lambda>vl.
     bnd (if v_isVirtualTextNode vl then createTextNode (v_text vl)
          else createElement (v_tagName vl)) (\<lambda>el.
     sq (case v_comp vl of None \<Rightarrow> ret ()
         | Some c \<Rightarrow> setNode el (\<lambda>d. d\<lparr>n_comp := Some c\<rparr>))
    (sq (updateDOMElement el v) (ret el))))"

section \<open>Blank objects and the empty world\<close>

definition blankProps :: elprops where
  "blankProps = \<lparr>ep_attributes = None, ep_htmlProps = None, ep_eventListeners = None\<rparr>"

definition blankVel :: vel where
  "blankVel = \<lparr>v_comp = None, v_isVirtualComponent = False, v_isVirtualHTMLElement = False,
     v_isVirtualTextNode = False, v_isFake = False, v_ComponentClass = Cls 0 [],
     v_props = Undefined, v_parent = None, v_preliminaryParent = None, v_children = [],
     v_tagName = [], v_text = [], v_innerHTMLString = None, v_ref = None, v_owner = None,
     v_isForwarding = False, v_forwardedEl = None, v_isForwarded = False, v_context = None,
     v_elementProps = None, v_own = blankProps, v_components = None\<rparr>"

definition blankComp :: comp where
  "blankComp = \<lparr>c_el = None, c_isComponent = True, c_isElementComponent = False,
     c_isTextNodeComponent = False, c_constructor = Cls 0 [], c_props = Undefined,
     c_state = Undefined, c_parent = None, c_ref = None, c_owner = None,
     c_forwardedComp = None, c_internal = None, c_refs = [],
     c_mounted = False\<rparr>"

definition blankCtx :: rcontext where
  "blankCtx = \<lparr>x_owner = 0, x_refs = [], x_foreignRefs = [], x_internalRefs = None,
     x_components = [], x_injectedComponents = []\<rparr>"

definition emptyHeap :: heap where
  "emptyHeap = \<lparr>vels = (\<lambda>_. blankVel), comps = (\<lambda>_. blankComp), nodes = (\<lambda>_. blankNode),
     ctxs = (\<lambda>_. blankCtx), next_vel = 0, next_comp = 0, next_node = 0, next_ctx = 0\<rparr>"

definition emptyWorld :: world where
  "emptyWorld = \<lparr>hp = emptyHeap, oinfo = (\<lambda>_ _. None),
     st = \<lparr>sid = 0, polluted = [], contexts = []\<rparr>, engine_state = None, uuid_ctr = 0,
     log = []\<rparr>"

section \<open>Components and the user's code\<close>

text \<open>
  What a render routine hands back: a falsy value, a virtual element, or any other value.
\<close>

datatype rres = Falsy | Content vid | OtherValue

text \<open>
  The behaviour the engine does not fix is a parameter: the render routine of a component
  (it is given the component and its context, builds virtual elements and registers them
  with the context), its \<open>shouldRerender\<close> predicate and its \<open>_isForwarded\<close>
  query. They see the object heap, never the rendering state.
\<close>

record env =
  e_render :: "cid \<Rightarrow> xid \<Rightarrow> heap \<Rightarrow> rres \<times> heap"
  e_shouldRerender :: "cid \<Rightarrow> jsval \<Rightarrow> jsval \<Rightarrow> heap \<Rightarrow> bool"
  e_isForwarded :: "cid \<Rightarrow> heap \<Rightarrow> bool"

text \<open>
  Modelled from the spec: the Component Factory and the instances it returns
  (\<open>Component\<close> is not among the sources). An instance exposes props, state, a parent
  link, a props-received hook, the mount, update and dispose notifications and a
  mounted-state query. A notification is recorded in the log; mounting and disposing also
  flip what the mounted-state query answers.
\<close>

definition allocComp :: "comp \<Rightarrow> cid M" where
  "allocComp c = (\<lambda>w. let n = next_comp (hp w) in
     (Inr n, w\<lparr>hp := (hp w)\<lparr>comps := (comps (hp w))(n := c), next_comp := Suc n\<rparr>\<rparr>))"

definition createComponent :: "cls \<Rightarrow> cid \<Rightarrow> jsval \<Rightarrow> cid M" where
  "createComponent C parent props =
     bnd (allocComp (blankComp\<lparr>c_constructor := C, c_parent := Some parent, c_props := props\<rparr>)) (\<lambda>c.
     sq (emit (CreateComponent c)) (ret c))"

definition createElementComponent :: "cid \<Rightarrow> vid \<Rightarrow> cid M" where
  "createElementComponent parent v =
     bnd (allocComp (blankComp\<lparr>c_isElementComponent := True, c_parent := Some parent\<rparr>)) (\<lambda>c.
     sq (emit (CreateComponent c)) (ret c))"

definition createTextNodeComponent :: "cid \<Rightarrow> vid \<Rightarrow> cid M" where
  "createTextNodeComponent parent v =
     bnd (allocComp (blankComp\<lparr>c_isTextNodeComponent := True, c_parent := Some parent\<rparr>)) (\<lambda>c.
     sq (emit (CreateComponent c)) (ret c))"

definition setProps :: "cid \<Rightarrow> jsval \<Rightarrow> unit M" where
  "setProps c props = sq (emit (WillReceiveProps c props)) (setComp c (\<lambda>k. k\<lparr>c_props := props\<rparr>))"

definition compTriggerDidMount :: "cid \<Rightarrow> unit M" where
  "compTriggerDidMount c = sq (emit (TriggerDidMount c)) (setComp c (\<lambda>k. k\<lparr>c_mounted := True\<rparr>))"

definition compTriggerDispose :: "cid \<Rightarrow> unit M" where
  "compTriggerDispose c = sq (emit (TriggerDispose c)) (setComp c (\<lambda>k. k\<lparr>c_mounted := False\<rparr>))"

definition compDidUpdate :: "cid \<Rightarrow> jsval \<Rightarrow> jsval \<Rightarrow> unit M" where
  "compDidUpdate c oldProps oldState = emit (DidUpdate c oldProps oldState)"

text \<open>\<open>comp.tagName\<close> is the tag name of the component's node.\<close>

definition compTagName :: "world \<Rightarrow> cid \<Rightarrow> string option" where
  "compTagName w c = (case c_el (compOf w c) of None \<Rightarrow> None | Some el \<Rightarrow> Some (getTagName w el))"

text \<open>
  Modelled from the spec: \<open>VirtualElement.Context\<close>, \<open>VirtualElement.Component\<close> and
  the element properties of a descriptor (none of them among the sources). A new context
  has its owner and empty reference maps. \<open>_copy\<close> returns the element properties a
  declaring parent has set, or nothing when there are none; \<open>_clear\<close> drops them;
  \<open>_merge\<close> overlays the other side's properties: its map entries win, its listeners are
  appended.
\<close>

definition allocVel :: "vel \<Rightarrow> vid M" where
  "allocVel vl = (\<lambda>w. let n = next_vel (hp w) in
     (Inr n, w\<lparr>hp := (hp w)\<lparr>vels := (vels (hp w))(n := vl), next_vel := Suc n\<rparr>\<rparr>))"

definition newContext :: "vid \<Rightarrow> xid M" where
  "newContext v = (\<lambda>w. let n = next_ctx (hp w) in
     (Inr n, w\<lparr>hp := (hp w)\<lparr>ctxs := (ctxs (hp w))(n := blankCtx\<lparr>x_owner := v\<rparr>),
                                 next_ctx := Suc n\<rparr>\<rparr>))"

definition elCopy :: "vel \<Rightarrow> elprops option" where
  "elCopy vl = (if v_own vl = blankProps then None else Some (v_own vl))"

definition hashEntries :: "hash \<Rightarrow> (string \<times> jsval) list" where
  "hashEntries h = (case h of HMap kvs \<Rightarrow> kvs | HObj kvs \<Rightarrow> kvs)"

definition mergeHash :: "hash option \<Rightarrow> hash option \<Rightarrow> hash option" where
  "mergeHash a b = (case b of None \<Rightarrow> a
     | Some hb \<Rightarrow> fold (\<lambda>kv acc. hashSet (fst kv) (snd kv) acc) (hashEntries hb) a)"

definition mergeListeners :: "listener list option \<Rightarrow> listener list option \<Rightarrow> listener list option" where
  "mergeListeners a b = (case b of None \<Rightarrow> a
     | Some lb \<Rightarrow> Some ((case a of None \<Rightarrow> [] | Some la \<Rightarrow> la) @ lb))"

definition elMerge :: "elprops \<Rightarrow> elprops \<Rightarrow> elprops" where
  "elMerge a b = \<lparr>ep_attributes = mergeHash (ep_attributes a) (ep_attributes b),
     ep_htmlProps = mergeHash (ep_htmlProps a) (ep_htmlProps b),
     ep_eventListeners = mergeListeners (ep_eventListeners a) (ep_eventListeners b)\<rparr>"

definition merge :: "vid \<Rightarrow> elprops \<Rightarrow> unit M" where
  "merge v other = setVel v (\<lambda>vl. vl\<lparr>v_own := elMerge (v_own vl) other\<rparr>)"

definition truthyRef :: "string option \<Rightarrow> bool" where
  "truthyRef r = (case r of None \<Rightarrow> False | Some s \<Rightarrow> s \<noteq> [])"

text \<open>\<open>_createWrappingVirtualComponent(comp)\<close>\<close>

definition createWrappingVirtualComponent :: "cid \<Rightarrow> vid M" where
  "createWrappingVirtualComponent cmp = bnd (gets (\<lambda>w. c_constructor (compOf w cmp))) (\<lambda>C.
     bnd (allocVel (blankVel\<lparr>v_isVirtualComponent := True, v_ComponentClass := C\<rparr>)) (\<lambda>v.
     sq (setVel v (\<lambda>vl. vl\<lparr>v_comp := Some cmp\<rparr>)) (ret v)))"

section \<open>Capturing\<close>

text \<open>\<open>_getInternalComponentData(comp)\<close>\<close>

definition newInternalData :: internalData where
  "newInternalData = \<lparr>d_refs = [], d_foreignRefs = [], d_internalRefs = Some [],
     d_elementProps = None\<rparr>"

definition getInternalComponentData :: "cid \<Rightarrow> internalData M" where
  "getInternalComponentData cmp = bnd (gets (\<lambda>w. c_internal (compOf w cmp))) (\<lambda>d.
     case d of
       None \<Rightarrow> sq (setComp cmp (\<lambda>k. k\<lparr>c_internal := Some newInternalData\<rparr>)) (ret newInternalData)
     | Some d' \<Rightarrow> ret d')"

text \<open>
  \<open>_create(state, vel)\<close>. The recursive call for the parent is the parameter
  \<open>rec\<close>; \<open>comp\<close> stays \<open>undefined\<close> for a descriptor of no known kind.
\<close>

definition createStep :: "(vid \<Rightarrow> cid option M) \<Rightarrow> vid \<Rightarrow> cid option M" where
  "createStep rec v = bnd (gets (\<lambda>w. velOf w v)) (\<lambda>vl.
     bnd (deref (v_parent vl)) (\<lambda>pv.
     bnd (gets (\<lambda>w. v_comp (velOf w pv))) (\<lambda>parent0.
     bnd (case parent0 of None \<Rightarrow> rec pv | Some p \<Rightarrow> ret (Some p)) (\<lambda>parent.
     bnd (if v_isVirtualComponent vl then
            bnd (deref parent) (\<lambda>p.
            bnd (createComponent (v_ComponentClass vl) p (v_props vl)) (\<lambda>c.
            bnd (gets (\<lambda>w. c_props (compOf w c))) (\<lambda>cp.
            sq (setVel v (\<lambda>x. x\<lparr>v_props := cp\<rparr>))
           (sq (case v_forwardedEl vl of
                  None \<Rightarrow> ret ()
                | Some fv \<Rightarrow>
                    bnd (gets (\<lambda>w. velOf w fv)) (\<lambda>fvl.
                    bnd (createComponent (v_ComponentClass fvl) c (v_props fvl)) (\<lambda>fc.
                    bnd (gets (\<lambda>w. c_props (compOf w fc))) (\<lambda>fp.
                    sq (setVel fv (\<lambda>x. x\<lparr>v_props := fp\<rparr>))
                       (setComp c (\<lambda>k. k\<lparr>c_forwardedComp := Some fc\<rparr>))))))
               (ret (Some c))))))
          else if v_isVirtualHTMLElement vl then
            bnd (deref parent) (\<lambda>p. bnd (createElementComponent p v) (\<lambda>c. ret (Some c)))
          else if v_isVirtualTextNode vl then
            bnd (deref parent) (\<lambda>p. bnd (createTextNodeComponent p v) (\<lambda>c. ret (Some c)))
          else ret None) (\<lambda>cmp.
     sq (whenM (truthyRef (v_ref vl))
          (bnd (deref cmp) (\<lambda>c. setComp c (\<lambda>k. k\<lparr>c_ref := v_ref vl\<rparr>))))
    (sq (case v_owner vl of
           None \<Rightarrow> ret ()
         | Some ov \<Rightarrow>
             bnd (deref cmp) (\<lambda>c.
             bnd (gets (\<lambda>w. v_comp (velOf w ov))) (\<lambda>oc. setComp c (\<lambda>k. k\<lparr>c_owner := oc\<rparr>))))
    (sq (setVel v (\<lambda>x. x\<lparr>v_comp := cmp\<rparr>))
        (ret cmp))))))))"

fun create :: "nat \<Rightarrow> vid \<Rightarrow> cid option M" where
  "create 0 v = throw OutOfFuel"
| "create (Suc n) v = createStep (create n) v"

text \<open>\<open>_isOfSameType(comp, vc)\<close>\<close>

definition isOfSameType :: "world \<Rightarrow> cid \<Rightarrow> vid \<Rightarrow> bool" where
  "isOfSameType w cmp vc =
     ((c_isElementComponent (compOf w cmp) \<and> v_isVirtualHTMLElement (velOf w vc)) \<or>
      (c_isComponent (compOf w cmp) \<and> v_isVirtualComponent (velOf w vc) \<and>
         c_constructor (compOf w cmp) = v_ComponentClass (velOf w vc)) \<or>
      (c_isTextNodeComponent (compOf w cmp) \<and> v_isVirtualTextNode (velOf w vc)))"

text \<open>\<open>_link(state, comp, vc)\<close>\<close>

definition link :: "cid \<Rightarrow> vid \<Rightarrow> unit M" where
  "link cmp vc =
     sq (setVel vc (\<lambda>x. x\<lparr>v_comp := Some cmp\<rparr>))
    (sq (tagOn MAPPED (OVel vc))
    (sq (tagOn MAPPED (OComp cmp))
    (sq (tagOn LINKED (OVel vc))
        (tagOn LINKED (OComp cmp)))))"

text \<open>\<open>_reject(state, comp, vc)\<close>; \<open>null\<close> and \<open>undefined\<close> are not told apart.\<close>

definition reject :: "cid option \<Rightarrow> vid \<Rightarrow> unit M" where
  "reject cmp vc =
     sq (setVel vc (\<lambda>x. x\<lparr>v_comp := None\<rparr>))
    (sq (tagOn MAPPED (OVel vc))
        (case cmp of None \<Rightarrow> ret () | Some c \<Rightarrow> tagOn MAPPED (OComp c)))"

text \<open>\<open>_isMapped(state, comp, vc)\<close>\<close>

definition isMapped :: "world \<Rightarrow> cid \<Rightarrow> vid \<Rightarrow> bool" where
  "isMapped w cmp vc =
     (let vcIsMapped = sis w MAPPED (OVel vc); compIsMapped = sis w MAPPED (OComp cmp)
      in if vcIsMapped \<or> compIsMapped then True else False)"

text \<open>\<open>_isLinked(state, comp, vc)\<close>: both repair branches tag the virtual component.\<close>

definition isLinked :: "cid \<Rightarrow> vid \<Rightarrow> bool M" where
  "isLinked cmp vc = bnd (gets (\<lambda>w. sis w LINKED (OComp cmp))) (\<lambda>compIsLinked.
     bnd (gets (\<lambda>w. sis w LINKED (OVel vc))) (\<lambda>vcIsLinked.
     bnd (gets (\<lambda>w. v_comp (velOf w vc))) (\<lambda>vcComp.
     if vcComp = Some cmp then
       sq (whenM (\<not> vcIsLinked) (tagOn LINKED (OVel vc)))
      (sq (whenM (\<not> compIsLinked) (tagOn LINKED (OVel vc)))
          (ret True))
     else ret False)))"

text \<open>\<open>_linkComponent(state, comp, vc)\<close>\<close>

definition linkComponent :: "cid option \<Rightarrow> vid \<Rightarrow> unit M" where
  "linkComponent cmp vc =
     (case cmp of
        None \<Rightarrow> reject cmp vc
      | Some c \<Rightarrow>
          bnd (gets (\<lambda>w. isMapped w c vc)) (\<lambda>mapped.
          if mapped then ret ()
          else bnd (isLinked c vc) (\<lambda>linked.
            if linked then ret ()
            else bnd (gets (\<lambda>w. isOfSameType w c vc)) (\<lambda>same.
              if same then link c vc else reject cmp vc))))"

text \<open>\<open>_getVirtualComponentTrace(vc, root)\<close>\<close>

fun joinWith :: "string \<Rightarrow> string list \<Rightarrow> string" where
  "joinWith sep [] = []"
| "joinWith sep [x] = x"
| "joinWith sep (x # y # ys) = x @ sep @ joinWith sep (y # ys)"

definition traceParentsStep ::
  "(vid option \<Rightarrow> string list \<Rightarrow> string list M) \<Rightarrow> vid \<Rightarrow> vid option \<Rightarrow> string list
     \<Rightarrow> string list M" where
  "traceParentsStep rec root parent frags =
     (case parent of
        None \<Rightarrow> ret frags
      | Some p \<Rightarrow>
          if p = root then ret frags
          else bnd (gets (\<lambda>w. velOf w p)) (\<lambda>pl.
            if v_isFake pl then ret frags
            else rec (v_parent pl) (v_tagName pl # frags)))"

fun traceParents :: "nat \<Rightarrow> vid \<Rightarrow> vid option \<Rightarrow> string list \<Rightarrow> string list M" where
  "traceParents 0 root parent frags = throw OutOfFuel"
| "traceParents (Suc n) root parent frags =
     traceParentsStep (traceParents n root) root parent frags"

definition getVirtualComponentTrace :: "nat \<Rightarrow> vid \<Rightarrow> vid \<Rightarrow> string M" where
  "getVirtualComponentTrace n vc root = bnd (gets (\<lambda>w. velOf w vc)) (\<lambda>vl.
     bnd (if \<not> v_isForwarded vl
          then traceParents n root (v_parent vl) [cls_name (v_ComponentClass vl)]
          else ret [cls_name (v_ComponentClass vl)]) (\<lambda>frags.
     ret (joinWith ''/'' frags)))"

text \<open>\<open>_extractInternalRefs(context, root)\<close>\<close>

definition digitChar :: "nat \<Rightarrow> char" where
  "digitChar d = ''0123456789'' ! d"

fun natToString :: "nat \<Rightarrow> string" where
  "natToString n =
     (if n < 10 then [digitChar n] else natToString (n div 10) @ [digitChar (n mod 10)])"

fun foldM :: "('a \<Rightarrow> 'b \<Rightarrow> 'b M) \<Rightarrow> 'a list \<Rightarrow> 'b \<Rightarrow> 'b M" where
  "foldM f [] acc = ret acc"
| "foldM f (x # xs) acc = bnd (f x acc) (\<lambda>acc'. foldM f xs acc')"

definition extractInternalRefs :: "nat \<Rightarrow> xid \<Rightarrow> vid \<Rightarrow> (string \<times> vid) list M" where
  "extractInternalRefs n context root = bnd (gets (\<lambda>w. x_components (ctxOf w context))) (\<lambda>components.
     bnd (foldM (\<lambda>vc (idCounts, refs).
            bnd (gets (\<lambda>w. v_ref (velOf w vc))) (\<lambda>r.
            if truthyRef r then ret (idCounts, refs)
            else bnd (getVirtualComponentTrace n vc root) (\<lambda>rf.
              case map_of idCounts rf of
                Some cnt \<Rightarrow>
                  (let count = cnt + 1
                   in ret (hset rf count idCounts, hset (rf @ ''@'' @ natToString count) vc refs))
              | None \<Rightarrow> ret (hset rf (1::nat) idCounts, hset rf vc refs))))
          components ([], [])) (\<lambda>(idCounts, refs). ret refs))"

text \<open>
  \<open>_forEachComponent(state, comp, vc, hook)\<close>. An entry pairs a new virtual component
  with the component the old map of the same kind holds under the same reference.
\<close>

definition addEntries ::
  "world \<Rightarrow> (string \<times> vid) list \<Rightarrow> (string \<times> vid) list \<Rightarrow> (vid \<times> cid option) list" where
  "addEntries w newRefs oldRefs =
     map (\<lambda>(rf, vc). (vc, case map_of oldRefs rf of
                               None \<Rightarrow> None
                             | Some oldVc \<Rightarrow> v_comp (velOf w oldVc))) newRefs"

definition componentEntries :: "nat \<Rightarrow> cid \<Rightarrow> vid \<Rightarrow> (vid \<times> cid option) list M" where
  "componentEntries n cmp vc = bnd (gets (\<lambda>w. v_components (velOf w vc))) (\<lambda>cs.
     case cs of
       Some entries \<Rightarrow> ret entries
     | None \<Rightarrow>
         bnd (gets (\<lambda>w. v_context (velOf w vc))) (\<lambda>cx.
         bnd (deref cx) (\<lambda>x.
         bnd (gets (\<lambda>w. ctxOf w x)) (\<lambda>context.
         bnd (case x_internalRefs context of
                Some r \<Rightarrow> ret r
              | None \<Rightarrow> bnd (extractInternalRefs n x vc) (\<lambda>r.
                          sq (setCtx x (\<lambda>c. c\<lparr>x_internalRefs := Some r\<rparr>)) (ret r))) (\<lambda>newInternalRefs.
         bnd (getInternalComponentData cmp) (\<lambda>compData.
         bnd (gets (\<lambda>w.
                addEntries w (x_refs context) (d_refs compData)
                @ addEntries w (x_foreignRefs context) (d_foreignRefs compData)
                @ addEntries w newInternalRefs
                    (case d_internalRefs compData of None \<Rightarrow> [] | Some m \<Rightarrow> m))) (\<lambda>entries.
         sq (setVel vc (\<lambda>x. x\<lparr>v_components := Some entries\<rparr>)) (ret entries))))))))"

definition forEachComponent ::
  "nat \<Rightarrow> cid \<Rightarrow> vid \<Rightarrow> (cid option \<Rightarrow> vid \<Rightarrow> unit M) \<Rightarrow> unit M" where
  "forEachComponent n cmp vc hook =
     bnd (componentEntries n cmp vc) (\<lambda>entries. forEach (\<lambda>(evc, ecomp). hook ecomp evc) entries)"

text \<open>
  \<open>_propagateLinking(state, comp, vel, stopIfMapped)\<close>; the recursive calls are the
  parameter \<open>rec\<close>, \<open>n\<close> is the fuel of the loop over the element parents.
\<close>

definition skipElementParentsStep :: "(cid option \<Rightarrow> cid option M) \<Rightarrow> cid option \<Rightarrow> cid option M" where
  "skipElementParentsStep rec parent =
     (case parent of
        None \<Rightarrow> ret None
      | Some p \<Rightarrow> bnd (gets (\<lambda>w. compOf w p)) (\<lambda>k.
          if c_isElementComponent k then rec (c_parent k) else ret (Some p)))"

fun skipElementParents :: "nat \<Rightarrow> cid option \<Rightarrow> cid option M" where
  "skipElementParents 0 parent = throw OutOfFuel"
| "skipElementParents (Suc n) parent = skipElementParentsStep (skipElementParents n) parent"

definition propagateLinkingStep ::
  "(cid option \<Rightarrow> vid option \<Rightarrow> bool \<Rightarrow> bool M) \<Rightarrow> nat \<Rightarrow> cid option \<Rightarrow> vid option \<Rightarrow> bool
     \<Rightarrow> bool M" where
  "propagateLinkingStep rec n cmp vel stopIfMapped =
     (case vel of
        None \<Rightarrow> ret False
      | Some v \<Rightarrow>
     (case cmp of
        None \<Rightarrow> ret False
      | Some c \<Rightarrow>
          bnd (gets (\<lambda>w. stopIfMapped \<and> isMapped w c v)) (\<lambda>stopNow.
          if stopNow then isLinked c v
          else bnd (gets (\<lambda>w. velOf w v)) (\<lambda>vl.
            bnd (if \<not> v_isVirtualComponent vl then
                   bnd (gets (\<lambda>w. isOfSameType w c v)) (\<lambda>same.
                     if \<not> same then sq (reject (Some c) v) (ret False)
                     else sq (link c v) (ret True))
                 else ret True) (\<lambda>goOn.
            if \<not> goOn then ret False
            else
              bnd (gets (\<lambda>w. c_parent (compOf w c))) (\<lambda>parent.
              bnd (case v_parent vl of
                     Some pv \<Rightarrow> rec parent (Some pv) True
                   | None \<Rightarrow>
                       (case v_preliminaryParent vl of
                          Some pp \<Rightarrow> bnd (skipElementParents n parent) (\<lambda>parent'.
                                       rec parent' (Some pp) True)
                        | None \<Rightarrow> ret False)) (\<lambda>canLinkParent.
              sq (whenM (v_isVirtualComponent vl \<and> \<not> canLinkParent)
                    (sq (tagOn RELOCATED (OVel v)) (tagOn RELOCATED (OComp c))))
                 (ret canLinkParent))))))))"

fun propagateLinking :: "nat \<Rightarrow> cid option \<Rightarrow> vid option \<Rightarrow> bool \<Rightarrow> bool M" where
  "propagateLinking 0 cmp vel stopIfMapped = throw OutOfFuel"
| "propagateLinking (Suc n) cmp vel stopIfMapped =
     propagateLinkingStep (propagateLinking n) n cmp vel stopIfMapped"

definition propagateLinkingHook :: "nat \<Rightarrow> cid option \<Rightarrow> vid \<Rightarrow> unit M" where
  "propagateLinkingHook n cmp vel = bnd (propagateLinking n cmp (Some vel) False) (\<lambda>_. ret ())"

text \<open>
  \<open>state.set(key, obj, val)\<close> with a value argument: the default \<open>true\<close> replaces an
  \<open>undefined\<close> argument.
\<close>

definition ssetv :: "tag \<Rightarrow> obj \<Rightarrow> jsval \<Rightarrow> unit M" where
  "ssetv key ob val = sset key ob (if val = Undefined then JBool True else val)"

datatype mode = TOP_LEVEL_ELEMENT | NoMode

definition callRender :: "env \<Rightarrow> cid \<Rightarrow> xid \<Rightarrow> rres M" where
  "callRender E c x = (\<lambda>w. case e_render E c x (hp w) of (r, h') \<Rightarrow> (Inr r, w\<lparr>hp := h'\<rparr>))"

text \<open>
  The part of \<open>_capture\<close> that takes the content a render routine returned: forwarding
  for a component, merging for an element, an error otherwise.
\<close>

definition takeContent :: "vid \<Rightarrow> rres \<Rightarrow> unit M" where
  "takeContent v content =
     (case content of
        Falsy \<Rightarrow> throw EmptyRenderResult
      | OtherValue \<Rightarrow> throw InvalidRenderResult
      | Content cv \<Rightarrow> bnd (gets (\<lambda>w. velOf w cv)) (\<lambda>cl.
          sq (if v_isVirtualComponent cl then
                sq (setVel v (\<lambda>x. x\<lparr>v_forwardedEl := Some cv, v_isForwarding := True\<rparr>))
               (sq (setVel cv (\<lambda>x. x\<lparr>v_isForwarded := True, v_parent := Some v\<rparr>))
                   (setVel v (\<lambda>x. x\<lparr>v_children := [cv]\<rparr>)))
              else if v_isVirtualHTMLElement cl then
                sq (setVel v (\<lambda>x. x\<lparr>v_tagName := v_tagName cl\<rparr>))
               (sq (merge v (v_own cl))
                   (if hasInnerHTML cl then
                      setVel v (\<lambda>x. x\<lparr>v_innerHTMLString := v_innerHTMLString cl, v_children := []\<rparr>)
                    else
                      sq (setVel v (\<lambda>x. x\<lparr>v_children := v_children cl\<rparr>))
                         (forEach (\<lambda>child. setVel child (\<lambda>x. x\<lparr>v_parent := Some v\<rparr>))
                            (v_children cl))))
              else throw InvalidRenderResult)
         (sq (bnd (gets (\<lambda>w. v_context (velOf w cv))) (\<lambda>cx. setVel v (\<lambda>x. x\<lparr>v_context := cx\<rparr>)))
             (bnd (gets (\<lambda>w. velOf w v)) (\<lambda>vl.
                case v_elementProps vl of
                  None \<Rightarrow> ret ()
                | Some ep \<Rightarrow>
                    sq (merge v ep)
                       (if v_isForwarding vl then
                          bnd (deref (v_forwardedEl vl)) (\<lambda>fv.
                          bnd (gets (\<lambda>w. v_own (velOf w v))) (\<lambda>own. merge fv own))
                        else ret ()))))))"

text \<open>
  \<open>_capture(state, vel, mode)\<close>, with \<open>substanceGlobals.DEBUG_RENDERING\<close> off, in
  three parts: deciding whether to render again, rendering and descending, and the
  function itself. The recursive calls are the parameter \<open>rec\<close>; \<open>n\<close> is the fuel of
  the inner loops.
\<close>

definition decideRerender :: "env \<Rightarrow> vid \<Rightarrow> cid option \<Rightarrow> mode \<Rightarrow> bool M" where
  "decideRerender E v cmp md =
     (if md = TOP_LEVEL_ELEMENT then
        sq (tagOn MAPPED (OVel v))
       (bnd (deref cmp) (\<lambda>c.
        sq (tagOn MAPPED (OComp c))
       (sq (tagOn LINKED (OVel v))
       (sq (tagOn LINKED (OComp c))
       (bnd (getInternalComponentData c) (\<lambda>compData.
        sq (setVel v (\<lambda>x. x\<lparr>v_elementProps := d_elementProps compData\<rparr>))
           (ret True)))))))
      else
        bnd (deref cmp) (\<lambda>c.
        bnd (gets (\<lambda>w. c_el (compOf w c) = None
              \<or> e_shouldRerender E c (v_props (velOf w v)) (c_state (compOf w c)) (hp w))) (\<lambda>needRerender.
        sq (setVel v (\<lambda>x. x\<lparr>v_elementProps := elCopy x\<rparr>))
       (sq (setVel v (\<lambda>x. x\<lparr>v_own := blankProps\<rparr>))
       (bnd (gets (\<lambda>w. compOf w c)) (\<lambda>k.
        sq (ssetv OLDPROPS (OVel v) (c_props k))
       (sq (ssetv OLDSTATE (OVel v) (c_state k))
       (bnd (gets (\<lambda>w. v_props (velOf w v))) (\<lambda>props.
        sq (setProps c props)
       (bnd (gets (\<lambda>w. sis w NEW (OVel v))) (\<lambda>isNew.
        sq (whenM (\<not> isNew) (tagOn UPDATED (OVel v)))
           (ret needRerender))))))))))))"

definition descend :: "(vid \<Rightarrow> mode \<Rightarrow> unit M) \<Rightarrow> vid \<Rightarrow> unit M" where
  "descend rec v = bnd (gets (\<lambda>w. velOf w v)) (\<lambda>vl.
     case v_forwardedEl vl of
       Some fv \<Rightarrow> rec fv NoMode
     | None \<Rightarrow> forEach (\<lambda>child. rec child NoMode) (v_children vl))"

definition renderAndDescend ::
  "env \<Rightarrow> (vid \<Rightarrow> mode \<Rightarrow> unit M) \<Rightarrow> nat \<Rightarrow> vid \<Rightarrow> cid \<Rightarrow> unit M" where
  "renderAndDescend E rec n v c =
     bnd (newContext v) (\<lambda>context.
     bnd (tryFinally (sq (pushContext context) (callRender E c context)) popContext) (\<lambda>content.
     sq (takeContent v content)
    (bnd (gets (\<lambda>w. \<not> sis w NEW (OVel v) \<and> c_mounted (compOf w c))) (\<lambda>upd.
     sq (whenM upd (tagOn UPDATED (OVel v)))
    (sq (forEachComponent n c v linkComponent)
    (sq (descend rec v)
        (forEachComponent n c v (propagateLinkingHook n))))))))"

definition captureStep ::
  "env \<Rightarrow> (vid \<Rightarrow> mode \<Rightarrow> unit M) \<Rightarrow> nat \<Rightarrow> vid \<Rightarrow> mode \<Rightarrow> unit M" where
  "captureStep E rec n v md = bnd (gets (\<lambda>w. sis w CAPTURED (OVel v))) (\<lambda>captured.
     if captured then ret ()
     else
       bnd (gets (\<lambda>w. v_comp (velOf w v))) (\<lambda>comp0.
       bnd (case comp0 of
              None \<Rightarrow> bnd (create n v) (\<lambda>c. sq (tagOn NEW (OVel v)) (ret c))
            | Some c \<Rightarrow> ret (Some c)) (\<lambda>cmp.
       bnd (gets (\<lambda>w. velOf w v)) (\<lambda>vl.
       sq (if v_isVirtualComponent vl then
             bnd (decideRerender E v cmp md) (\<lambda>needRerender.
             if needRerender then bnd (deref cmp) (\<lambda>c. renderAndDescend E rec n v c)
             else tagOn SKIPPED (OVel v))
           else if v_isVirtualHTMLElement vl then
             forEach (\<lambda>child. rec child NoMode) (v_children vl)
           else ret ())
          (tagOn CAPTURED (OVel v))))))"

fun capture :: "env \<Rightarrow> nat \<Rightarrow> vid \<Rightarrow> mode \<Rightarrow> unit M" where
  "capture E 0 v md = throw OutOfFuel"
| "capture E (Suc n) v md = captureStep E (capture E n) n v md"

section \<open>Updating\<close>

text \<open>\<open>_triggerDidMount(state, parent, child)\<close>\<close>

definition triggerDidMount :: "cid \<Rightarrow> cid \<Rightarrow> unit M" where
  "triggerDidMount parent child =
     bnd (gets (\<lambda>w. \<not> sis w DETACHED (OComp child)
            \<and> c_mounted (compOf w parent) \<and> \<not> c_mounted (compOf w child))) (\<lambda>b.
     whenM b (compTriggerDidMount child))"

text \<open>The node of a component, for a call on it: \<open>undefined\<close> throws.\<close>

definition elOf :: "cid \<Rightarrow> nid M" where
  "elOf c = bnd (gets (\<lambda>w. c_el (compOf w c))) deref"

text \<open>\<open>_appendChild(state, parent, child)\<close>\<close>

definition appendChild :: "cid \<Rightarrow> cid \<Rightarrow> unit M" where
  "appendChild parent child =
     bnd (elOf parent) (\<lambda>pel.
     bnd (elOf child) (\<lambda>cel.
     sq (elAppendChild pel cel)
        (triggerDidMount parent child)))"

text \<open>\<open>_replaceChild(state, parent, oldChild, newChild)\<close>\<close>

definition replaceChild :: "cid \<Rightarrow> cid \<Rightarrow> cid \<Rightarrow> unit M" where
  "replaceChild parent oldChild newChild =
     bnd (elOf parent) (\<lambda>pel.
     bnd (elOf oldChild) (\<lambda>oel.
     bnd (elOf newChild) (\<lambda>nel.
     sq (elReplaceChild pel oel nel)
    (bnd (gets (\<lambda>w. sis w DETACHED (OComp oldChild))) (\<lambda>detached.
     sq (whenM (\<not> detached) (compTriggerDispose oldChild))
        (triggerDidMount parent newChild))))))"

text \<open>\<open>_insertChildBefore(state, parent, child, before)\<close>\<close>

definition insertChildBefore :: "cid \<Rightarrow> cid \<Rightarrow> cid \<Rightarrow> unit M" where
  "insertChildBefore parent child beforeChild =
     bnd (elOf parent) (\<lambda>pel.
     bnd (elOf child) (\<lambda>cel.
     bnd (elOf beforeChild) (\<lambda>bel.
     sq (elInsertBefore pel cel bel)
        (triggerDidMount parent child))))"

text \<open>\<open>_removeChild(state, parent, child)\<close>\<close>

definition removeChild :: "cid \<Rightarrow> cid \<Rightarrow> unit M" where
  "removeChild parent child =
     bnd (elOf parent) (\<lambda>pel.
     bnd (elOf child) (\<lambda>cel.
     sq (elRemoveChild pel cel)
    (bnd (gets (\<lambda>w. sis w DETACHED (OComp child))) (\<lambda>detached.
     whenM (\<not> detached) (compTriggerDispose child)))))"

text \<open>\<open>_findForwardingChildOfComponent(comp, forwarded)\<close>\<close>

definition findForwardingStep :: "(cid option \<Rightarrow> cid option M) \<Rightarrow> cid \<Rightarrow> cid option \<Rightarrow> cid option M" where
  "findForwardingStep rec cmp current =
     (case current of
        None \<Rightarrow> ret None
      | Some cur \<Rightarrow> bnd (gets (\<lambda>w. c_parent (compOf w cur))) (\<lambda>parent.
          if parent = Some cmp then ret (Some cur) else rec parent))"

fun findForwardingLoop :: "nat \<Rightarrow> cid \<Rightarrow> cid option \<Rightarrow> cid option M" where
  "findForwardingLoop 0 cmp current = throw OutOfFuel"
| "findForwardingLoop (Suc n) cmp current = findForwardingStep (findForwardingLoop n cmp) cmp current"

definition findForwardingChildOfComponent :: "nat \<Rightarrow> cid \<Rightarrow> cid \<Rightarrow> cid option M" where
  "findForwardingChildOfComponent n cmp forwarded =
     bnd (gets (\<lambda>w. c_parent (compOf w forwarded))) (\<lambda>current. findForwardingLoop n cmp current)"

text \<open>\<open>_storeInternalData(comp, vc)\<close>\<close>

definition storeInternalData :: "cid option \<Rightarrow> vid \<Rightarrow> unit M" where
  "storeInternalData cmp vc =
     bnd (gets (\<lambda>w. v_context (velOf w vc))) (\<lambda>context.
     bnd (deref cmp) (\<lambda>c.
     bnd (getInternalComponentData c) (\<lambda>compData.
     bnd (gets (\<lambda>w. v_elementProps (velOf w vc))) (\<lambda>ep.
     sq (setComp c (\<lambda>k. k\<lparr>c_internal := Some (compData\<lparr>d_elementProps := ep\<rparr>)\<rparr>))
    (bnd (deref context) (\<lambda>x.
     bnd (gets (\<lambda>w. ctxOf w x)) (\<lambda>cx.
     sq (setComp c (\<lambda>k. k\<lparr>c_internal := Some \<lparr>d_refs = x_refs cx, d_foreignRefs = x_foreignRefs cx,
                                  d_internalRefs = x_internalRefs cx, d_elementProps = ep\<rparr>\<rparr>))
    (bnd (gets (\<lambda>w. concat (map (\<lambda>(key, rvc). case v_comp (velOf w rvc) of
                                     None \<Rightarrow> [] | Some rc \<Rightarrow> [(key, rc)]) (x_refs cx)))) (\<lambda>refs.
     setComp c (\<lambda>k. k\<lparr>c_refs := refs\<rparr>))))))))))"

text \<open>
  The first step of the structural update: the components of the old child nodes, after
  the nodes of no component and of relocated components have been removed.
\<close>

definition oldChildOf :: "env \<Rightarrow> nat \<Rightarrow> cid \<Rightarrow> nid \<Rightarrow> nid \<Rightarrow> cid option M" where
  "oldChildOf E n cmp el child = bnd (gets (\<lambda>w. n_comp (nodeOf w child))) (\<lambda>cc.
     case cc of
       None \<Rightarrow> sq (elRemoveChild el child) (ret None)
     | Some childComp0 \<Rightarrow>
         bnd (gets (\<lambda>w. e_isForwarded E childComp0 (hp w))) (\<lambda>fwd.
         bnd (if fwd then findForwardingChildOfComponent n cmp childComp0
              else ret (Some childComp0)) (\<lambda>childComp.
         case childComp of
           None \<Rightarrow> sq (elRemoveChild el child) (ret None)
         | Some k \<Rightarrow> bnd (gets (\<lambda>w. sis w RELOCATED (OComp k))) (\<lambda>relocated.
             if relocated then sq (elRemoveChild el child) (ret None)
             else ret (Some k)))))"

fun mapM :: "('a \<Rightarrow> 'b M) \<Rightarrow> 'a list \<Rightarrow> 'b list M" where
  "mapM f [] = ret []"
| "mapM f (x # xs) = bnd (f x) (\<lambda>y. bnd (mapM f xs) (\<lambda>ys. ret (y # ys)))"

definition oldChildrenOf :: "env \<Rightarrow> nat \<Rightarrow> cid \<Rightarrow> cid list M" where
  "oldChildrenOf E n cmp =
     bnd (elOf cmp) (\<lambda>el.
     bnd (gets (\<lambda>w. n_childNodes (nodeOf w el))) (\<lambda>childNodes.
     bnd (mapM (oldChildOf E n cmp el) childNodes) (\<lambda>cs.
     ret (concat (map (\<lambda>c. case c of None \<Rightarrow> [] | Some k \<Rightarrow> [k]) cs)))))"

text \<open>
  The cursor over the old children: \<open>do { oldComp = oldChildren[pos1++] }
  while (oldComp && state.is(DETACHED, oldComp))\<close>.
\<close>

fun skipDetachedFrom :: "world \<Rightarrow> cid list \<Rightarrow> nat \<Rightarrow> cid option \<times> nat" where
  "skipDetachedFrom w [] pos1 = (None, Suc pos1)"
| "skipDetachedFrom w (x # xs) pos1 =
     (if sis w DETACHED (OComp x) then skipDetachedFrom w xs (Suc pos1) else (Some x, Suc pos1))"

definition skipDetached :: "world \<Rightarrow> cid list \<Rightarrow> nat \<Rightarrow> cid option \<times> nat" where
  "skipDetached w oldChildren pos1 = skipDetachedFrom w (drop pos1 oldChildren) pos1"

definition nthOpt :: "'a list \<Rightarrow> nat \<Rightarrow> 'a option" where
  "nthOpt xs i = (if i < length xs then Some (xs ! i) else None)"

text \<open>
  One turn of the dual-cursor loop of \<open>_update\<close>. The result is the pair of cursors for
  the next turn, or nothing after a \<open>break\<close>.
\<close>

definition mergeIteration ::
  "(vid \<Rightarrow> unit M) \<Rightarrow> cid \<Rightarrow> cid list \<Rightarrow> vid list \<Rightarrow> nat \<Rightarrow> nat \<Rightarrow> (nat \<times> nat) option M" where
  "mergeIteration rec cmp oldChildren newChildren pos1' pos2' =
     bnd (gets (\<lambda>w. skipDetached w oldChildren pos1')) (\<lambda>(oldComp, pos1).
     let newVel = nthOpt newChildren pos2'; pos2 = Suc pos2' in
     if oldComp \<noteq> None \<and> newVel = None then
       sq (forEach (removeChild cmp) (the oldComp # drop pos1 oldChildren)) (ret None)
     else
       bnd (case (oldComp, newVel) of
              (Some oc, Some nv) \<Rightarrow>
                bnd (elOf oc) (\<lambda>oel.
                gets (\<lambda>w. n_isTextNode (nodeOf w oel) \<and> v_isVirtualTextNode (velOf w nv)
                        \<and> n_textContent (nodeOf w oel) = v_text (velOf w nv)))
            | (Some oc, None) \<Rightarrow> bnd (elOf oc) (\<lambda>oel. ret False)
            | _ \<Rightarrow> ret False) (\<lambda>sameText.
       if sameText then ret (Some (pos1, pos2))
       else
         bnd (case (oldComp, newVel) of
                (Some oc, Some nv) \<Rightarrow>
                  gets (\<lambda>w. c_isElementComponent (compOf w oc) \<and> v_isVirtualHTMLElement (velOf w nv)
                          \<and> \<not> sis w MAPPED (OComp oc) \<and> \<not> sis w MAPPED (OVel nv)
                          \<and> compTagName w oc = Some (v_tagName (velOf w nv)))
              | _ \<Rightarrow> ret False) (\<lambda>onTheFly.
         if onTheFly then
           (case (oldComp, newVel) of
              (Some oc, Some nv) \<Rightarrow>
                sq (setVel nv (\<lambda>x. x\<lparr>v_comp := Some oc\<rparr>))
               (sq (tagOn LINKED (OVel nv))
               (sq (tagOn LINKED (OComp oc))
               (sq (rec nv)
                   (ret (Some (pos1, pos2))))))
            | _ \<Rightarrow> throw TypeError)
         else
           bnd (deref newVel) (\<lambda>nv.
           bnd (gets (\<lambda>w. sis w RENDERED (OVel nv))) (\<lambda>rendered.
           sq (whenM (\<not> rendered) (rec nv))
          (bnd (gets (\<lambda>w. v_comp (velOf w nv))) (\<lambda>newComp.
           if newComp = oldComp then ret (Some (pos1, pos2))
           else
             bnd (deref newComp) (\<lambda>nc.
             bnd (gets (\<lambda>w. sis w RELOCATED (OComp nc))) (\<lambda>relocated.
             sq (whenM relocated (setComp nc (\<lambda>k. k\<lparr>c_parent := Some cmp\<rparr>)))
                (case oldComp of
                   None \<Rightarrow> sq (appendChild cmp nc) (ret (Some (pos1, pos2)))
                 | Some oc \<Rightarrow>
                     bnd (gets (\<lambda>w. sis w LINKED (OVel nv))) (\<lambda>newLinked.
                     bnd (gets (\<lambda>w. sis w LINKED (OComp oc))) (\<lambda>oldLinked.
                     if newLinked then
                       if oldLinked then
                         sq (tagOn DETACHED (OComp oc))
                        (sq (removeChild cmp oc) (ret (Some (pos1, pos2 - 1))))
                       else sq (removeChild cmp oc) (ret (Some (pos1, pos2 - 1)))
                     else if oldLinked then
                       sq (insertChildBefore cmp nc oc) (ret (Some (pos1 - 1, pos2)))
                     else
                       sq (replaceChild cmp oc nc) (ret (Some (pos1, pos2)))))))))))))))"

definition updateLoopStep ::
  "(vid \<Rightarrow> unit M) \<Rightarrow> (nat \<Rightarrow> nat \<Rightarrow> unit M) \<Rightarrow> cid \<Rightarrow> cid list \<Rightarrow> vid list \<Rightarrow> nat \<Rightarrow> nat
     \<Rightarrow> unit M" where
  "updateLoopStep rec loop cmp oldChildren newChildren pos1 pos2 =
     (if pos1 < length oldChildren \<or> pos2 < length newChildren then
        bnd (mergeIteration rec cmp oldChildren newChildren pos1 pos2) (\<lambda>r.
          case r of
            None \<Rightarrow> ret ()
          | Some (p1, p2) \<Rightarrow> loop p1 p2)
      else ret ())"

fun updateLoop ::
  "(vid \<Rightarrow> unit M) \<Rightarrow> nat \<Rightarrow> cid \<Rightarrow> cid list \<Rightarrow> vid list \<Rightarrow> nat \<Rightarrow> nat \<Rightarrow> unit M" where
  "updateLoop rec 0 cmp oldChildren newChildren pos1 pos2 = throw OutOfFuel"
| "updateLoop rec (Suc n) cmp oldChildren newChildren pos1 pos2 =
     updateLoopStep rec (updateLoop rec n cmp oldChildren newChildren) cmp oldChildren newChildren
       pos1 pos2"

text \<open>The end of \<open>_update\<close> for a forwarding component: taking over the forwarded node.\<close>

definition takeForwardedEl :: "cid option \<Rightarrow> vid \<Rightarrow> unit M" where
  "takeForwardedEl cmp fv =
     bnd (gets (\<lambda>w. v_comp (velOf w fv))) (\<lambda>forwardedComp.
     bnd (deref cmp) (\<lambda>c.
     bnd (gets (\<lambda>w. c_el (compOf w c))) (\<lambda>el.
     case el of
       None \<Rightarrow>
         bnd (deref forwardedComp) (\<lambda>fc.
         bnd (gets (\<lambda>w. c_el (compOf w fc))) (\<lambda>fel.
         setComp c (\<lambda>k. k\<lparr>c_el := fel\<rparr>)))
     | Some e \<Rightarrow>
         bnd (gets (\<lambda>w. n_comp (nodeOf w e))) (\<lambda>oldForwardedComp.
         if oldForwardedComp \<noteq> forwardedComp then
           bnd (deref oldForwardedComp) (\<lambda>ofc.
           sq (compTriggerDispose ofc)
          (bnd (gets (\<lambda>w. n_parentNode (nodeOf w e))) (\<lambda>pn.
           bnd (deref pn) (\<lambda>p.
           bnd (deref forwardedComp) (\<lambda>fc.
           bnd (elOf fc) (\<lambda>fel.
           sq (elReplaceChild p e fel)
          (sq (setComp c (\<lambda>k. k\<lparr>c_el := Some fel\<rparr>))
              (compTriggerDidMount fc))))))))
         else ret ()))))"

text \<open>
  \<open>_update(state, vel)\<close>. The recursive calls are the parameter \<open>rec\<close>; the local
  variable \<open>comp\<close> is read once, before the late capture.
\<close>

definition updateStep :: "env \<Rightarrow> (vid \<Rightarrow> unit M) \<Rightarrow> nat \<Rightarrow> vid \<Rightarrow> unit M" where
  "updateStep E rec n v = bnd (gets (\<lambda>w. sis w SKIPPED (OVel v))) (\<lambda>skipped.
     if skipped then ret ()
     else
       bnd (gets (\<lambda>w. v_comp (velOf w v))) (\<lambda>cmp.
       sq (case cmp of
             Some _ \<Rightarrow> ret ()
           | None \<Rightarrow> bnd (gets (\<lambda>w. velOf w v)) (\<lambda>vl.
               whenM (truthyRef (v_ref vl) \<and> v_preliminaryParent vl \<noteq> v_owner vl)
                 (capture E n v NoMode)))
      (bnd (gets (\<lambda>w. velOf w v)) (\<lambda>vl.
       sq (if v_isForwarding vl then bnd (deref (v_forwardedEl vl)) rec
           else
             bnd (deref cmp) (\<lambda>c.
             bnd (gets (\<lambda>w. c_el (compOf w c))) (\<lambda>el.
             sq (case el of
                   None \<Rightarrow> bnd (createDOMElement v) (\<lambda>e. setComp c (\<lambda>k. k\<lparr>c_el := Some e\<rparr>))
                 | Some e \<Rightarrow> updateDOMElement e v)
                (whenM ((v_isVirtualComponent vl \<or> v_isVirtualHTMLElement vl) \<and> \<not> hasInnerHTML vl)
                   (bnd (oldChildrenOf E n c) (\<lambda>oldChildren.
                    updateLoop rec n c oldChildren (v_children vl) 0 0))))))
      (sq (whenM (v_isVirtualComponent vl)
             (sq (storeInternalData cmp v)
                 (case v_forwardedEl vl of
                    None \<Rightarrow> ret ()
                  | Some fv \<Rightarrow> takeForwardedEl cmp fv)))
      (sq (tagOn RENDERED (OVel v))
          (bnd (deref cmp) (\<lambda>c. tagOn RENDERED (OComp c)))))))))"

fun update :: "env \<Rightarrow> nat \<Rightarrow> vid \<Rightarrow> unit M" where
  "update E 0 v = throw OutOfFuel"
| "update E (Suc n) v = updateStep E (update E n) n v"

text \<open>\<open>_triggerDidUpdate(state, vel)\<close>\<close>

definition triggerDidUpdateStep :: "(vid \<Rightarrow> unit M) \<Rightarrow> vid \<Rightarrow> unit M" where
  "triggerDidUpdateStep rec v = bnd (gets (\<lambda>w. velOf w v)) (\<lambda>vl.
     if v_isVirtualComponent vl then
       bnd (gets (\<lambda>w. sis w SKIPPED (OVel v))) (\<lambda>skipped.
       sq (whenM (\<not> skipped) (forEach rec (v_children vl)))
      (bnd (gets (\<lambda>w. sis w UPDATED (OVel v))) (\<lambda>updated.
       whenM updated
         (bnd (gets (\<lambda>w. v_comp (velOf w v))) (\<lambda>cmp.
          bnd (deref cmp) (\<lambda>c.
          bnd (gets (\<lambda>w. (sget w OLDPROPS (OVel v), sget w OLDSTATE (OVel v)))) (\<lambda>(oldProps, oldState).
          compDidUpdate c oldProps oldState)))))))
     else if v_isVirtualHTMLElement vl then forEach rec (v_children vl)
     else ret ())"

fun triggerDidUpdate :: "nat \<Rightarrow> vid \<Rightarrow> unit M" where
  "triggerDidUpdate 0 v = throw OutOfFuel"
| "triggerDidUpdate (Suc n) v = triggerDidUpdateStep (triggerDidUpdate n) v"

section \<open>Adopting\<close>

text \<open>\<open>_getForwardedEl(vel)\<close>\<close>

definition getForwardedElStep :: "(vid option \<Rightarrow> vid M) \<Rightarrow> vid option \<Rightarrow> vid M" where
  "getForwardedElStep rec vel = bnd (deref vel) (\<lambda>v.
     bnd (gets (\<lambda>w. velOf w v)) (\<lambda>vl.
     if v_isForwarding vl then rec (v_forwardedEl vl) else ret v))"

fun getForwardedEl :: "nat \<Rightarrow> vid option \<Rightarrow> vid M" where
  "getForwardedEl 0 vel = throw OutOfFuel"
| "getForwardedEl (Suc n) vel = getForwardedElStep (getForwardedEl n) vel"

text \<open>\<open>_propagateForwardedEl(vel, el)\<close>\<close>

definition propagateUpStep :: "(vid option \<Rightarrow> unit M) \<Rightarrow> vid option \<Rightarrow> nid \<Rightarrow> unit M" where
  "propagateUpStep rec parent el =
     (case parent of
        None \<Rightarrow> ret ()
      | Some p \<Rightarrow> bnd (gets (\<lambda>w. velOf w p)) (\<lambda>pl.
          if v_isForwarding pl then
            bnd (deref (v_comp pl)) (\<lambda>pc.
            sq (setComp pc (\<lambda>k. k\<lparr>c_el := Some el\<rparr>))
               (rec (v_parent pl)))
          else ret ()))"

fun propagateUp :: "nat \<Rightarrow> vid option \<Rightarrow> nid \<Rightarrow> unit M" where
  "propagateUp 0 parent el = throw OutOfFuel"
| "propagateUp (Suc n) parent el = propagateUpStep (\<lambda>p. propagateUp n p el) parent el"

definition propagateForwardedEl :: "nat \<Rightarrow> vid \<Rightarrow> nid \<Rightarrow> unit M" where
  "propagateForwardedEl n v el = bnd (gets (\<lambda>w. velOf w v)) (\<lambda>vl.
     whenM (v_isForwarded vl) (propagateUp n (v_parent vl) el))"

text \<open>\<open>_createEl(state, vel)\<close>\<close>

definition createElStep :: "(vid \<Rightarrow> nid M) \<Rightarrow> nat \<Rightarrow> vid \<Rightarrow> nid M" where
  "createElStep rec n v =
     bnd (createDOMElement v) (\<lambda>el.
     bnd (gets (\<lambda>w. v_comp (velOf w v))) (\<lambda>cmp.
     bnd (deref cmp) (\<lambda>c.
     sq (setComp c (\<lambda>k. k\<lparr>c_el := Some el\<rparr>))
    (sq (propagateForwardedEl n v el)
    (bnd (gets (\<lambda>w. velOf w v)) (\<lambda>vl.
     sq (whenM (v_isVirtualComponent vl \<or> v_isVirtualHTMLElement vl)
           (forEach (\<lambda>vc. bnd (rec vc) (\<lambda>cel. elAppendChild el cel)) (v_children vl)))
        (ret el)))))))"

fun createEl :: "nat \<Rightarrow> vid \<Rightarrow> nid M" where
  "createEl 0 v = throw OutOfFuel"
| "createEl (Suc n) v = createElStep (createEl n) n v"

text \<open>
  The loop of \<open>_adopt\<close> over the existing child nodes from \<open>pos1\<close> on and the virtual
  child nodes from \<open>pos2\<close> on.
\<close>

fun adoptLoop ::
  "(vid \<Rightarrow> nid option \<Rightarrow> unit M) \<Rightarrow> nat \<Rightarrow> nid \<Rightarrow> nid list \<Rightarrow> vid list \<Rightarrow> unit M" where
  "adoptLoop rec n el [] [] = ret ()"
| "adoptLoop rec n el (child1 # rest1) [] = forEach elRemove (child1 # rest1)"
| "adoptLoop rec n el [] (child2 # rest2) =
     forEach (\<lambda>vc. bnd (createEl n vc) (\<lambda>cel. elAppendChild el cel)) (child2 # rest2)"
| "adoptLoop rec n el (child1 # rest1) (child2' # rest2) =
     bnd (getForwardedEl n (Some child2')) (\<lambda>child2.
     bnd (gets (\<lambda>w.
            (n_isElementNode (nodeOf w child1)
               \<and> (v_isVirtualHTMLElement (velOf w child2) \<or> v_isVirtualComponent (velOf w child2)))
            \<or> (n_isTextNode (nodeOf w child1) \<and> v_isVirtualTextNode (velOf w child2)))) (\<lambda>compatible.
     if compatible then sq (rec child2 (Some child1)) (adoptLoop rec n el rest1 rest2)
     else sq (elRemove child1) (adoptLoop rec n el rest1 (child2' # rest2))))"

text \<open>\<open>_adopt(state, vel, el)\<close>\<close>

definition adoptStep :: "(vid \<Rightarrow> nid option \<Rightarrow> unit M) \<Rightarrow> nat \<Rightarrow> vid \<Rightarrow> nid option \<Rightarrow> unit M" where
  "adoptStep rec n v el = bnd (gets (\<lambda>w. velOf w v)) (\<lambda>vl.
     sq (whenM (v_isVirtualComponent vl \<or> v_isVirtualHTMLElement vl)
           (bnd (deref el) (\<lambda>e.
            bnd (gets (\<lambda>w. n_isElementNode (nodeOf w e))) (\<lambda>isEl.
            whenM (\<not> isEl) (throw IncompatibleElement)))))
    (bnd (deref (v_comp vl)) (\<lambda>c.
     sq (setComp c (\<lambda>k. k\<lparr>c_el := el\<rparr>))
    (bnd (deref el) (\<lambda>e.
     sq (updateDOMElement e v)
    (sq (propagateForwardedEl n v e)
        (whenM (v_isVirtualComponent vl \<or> v_isVirtualHTMLElement vl)
           (bnd (gets (\<lambda>w. n_childNodes (nodeOf w e))) (\<lambda>existingChildNodes.
            bnd (gets (\<lambda>w. v_children (velOf w v))) (\<lambda>virtualChildNodes.
            adoptLoop rec n e existingChildNodes virtualChildNodes))))))))))"

fun adopt :: "nat \<Rightarrow> vid \<Rightarrow> nid option \<Rightarrow> unit M" where
  "adopt 0 v el = throw OutOfFuel"
| "adopt (Suc n) v el = adoptStep (adopt n) n v el"

section \<open>The entry point\<close>

text \<open>
  \<open>RenderingEngine._render(comp, oldProps, oldState, options)\<close>; \<open>adoptElement\<close> is
  \<open>options.adoptElement\<close>. The verbose console output is left out. \<open>renderTry\<close> is
  the \<open>try\<close> block, \<open>renderFinally\<close> the \<open>finally\<close> block.
\<close>

definition renderTry :: "env \<Rightarrow> nat \<Rightarrow> cid \<Rightarrow> vid \<Rightarrow> bool \<Rightarrow> unit M" where
  "renderTry E n cmp vel adoptElement =
     sq (modify (\<lambda>w. w\<lparr>engine_state := Some (sid (st w))\<rparr>))
    (sq (capture E n vel TOP_LEVEL_ELEMENT)
        (if adoptElement then
           bnd (getForwardedEl n (Some vel)) (\<lambda>vel'.
           bnd (gets (\<lambda>w. c_el (compOf w cmp))) (\<lambda>el.
           adopt n vel' el))
         else
           sq (update E n vel)
              (triggerDidUpdate n vel)))"

definition renderFinally :: "unit M" where
  "renderFinally = sq dispose (modify (\<lambda>w. w\<lparr>engine_state := None\<rparr>))"

definition render :: "env \<Rightarrow> nat \<Rightarrow> cid \<Rightarrow> jsval \<Rightarrow> jsval \<Rightarrow> bool \<Rightarrow> unit M" where
  "render E n cmp oldProps oldState adoptElement =
     bnd (createWrappingVirtualComponent cmp) (\<lambda>vel.
     sq createState
    (sq (whenM (truthy oldProps) (ssetv OLDPROPS (OVel vel) oldProps))
    (sq (whenM (truthy oldState) (ssetv OLDSTATE (OVel vel) oldState))
        (tryFinally (renderTry E n cmp vel adoptElement) renderFinally))))"

section \<open>Vocabulary of the properties\<close>



text \<open>The lifecycle notifications among the events.\<close>

fun lifecycle :: "event \<Rightarrow> bool" where
  "lifecycle (DidUpdate c p s) = True"
| "lifecycle (TriggerDidMount c) = True"
| "lifecycle (TriggerDispose c) = True"
| "lifecycle e = False"

text \<open>A computation preserves a property of the world, however it ends.\<close>

definition pres :: "(world \<Rightarrow> bool) \<Rightarrow> 'a M \<Rightarrow> bool" where
  "pres I m = (\<forall>w. I w \<longrightarrow> I (snd (m w)))"

text \<open>
  A property of the world that the elementary steps of the engine keep: any change of the
  object heap, logging an event (with \<open>q\<close>, only an event that is no lifecycle
  notification), setting a tag through the rendering state, and any change of the context
  stack.
\<close>

definition keeps :: "bool \<Rightarrow> (world \<Rightarrow> bool) \<Rightarrow> bool" where
  "keeps q I =
     ((\<forall>w h. I w \<longrightarrow> I (w\<lparr>hp := h\<rparr>))
      \<and> (\<forall>w e. (q \<longrightarrow> \<not> lifecycle e) \<longrightarrow> I w \<longrightarrow> I (w\<lparr>log := log w @ [e]\<rparr>))
      \<and> (\<forall>w k ob v. I w \<longrightarrow> I (snd (sset k ob v w)))
      \<and> (\<forall>w cs. I w \<longrightarrow> I (w\<lparr>st := (st w)\<lparr>contexts := cs\<rparr>\<rparr>)))"

text \<open>
  The tags of the pass with identifier \<open>i\<close> are tracked: every object that carries tags
  under \<open>i\<close> is in the list of polluted objects, and the tags of other passes are as in
  \<open>oi\<close>.
\<close>

definition tagsTracked :: "(obj \<Rightarrow> nat \<Rightarrow> (tag \<Rightarrow> jsval) option) \<Rightarrow> nat \<Rightarrow> world \<Rightarrow> bool" where
  "tagsTracked oi i w =
     (sid (st w) = i
      \<and> (\<forall>ob. oinfo w ob i \<noteq> None \<longrightarrow> ob \<in> set (polluted (st w)))
      \<and> (\<forall>ob j. j \<noteq> i \<longrightarrow> oinfo w ob j = oi ob j))"

text \<open>The lifecycle notifications in the log are exactly \<open>N\<close>.\<close>

definition lifecycleLog :: "event list \<Rightarrow> world \<Rightarrow> bool" where
  "lifecycleLog N w = (filter lifecycle (log w) = N)"

text \<open>
  The render routine of a component returns a falsy value, whatever it is given; and it
  returns something that is neither a component descriptor nor an element descriptor.
\<close>

definition rendersFalsy :: "env \<Rightarrow> cid \<Rightarrow> bool" where
  "rendersFalsy E c = (\<forall>x h. fst (e_render E c x h) = Falsy)"

definition rendersInvalid :: "env \<Rightarrow> cid \<Rightarrow> bool" where
  "rendersInvalid E c = (\<forall>x h.
     (case fst (e_render E c x h) of
        Falsy \<Rightarrow> False
      | OtherValue \<Rightarrow> True
      | Content cv \<Rightarrow> \<not> v_isVirtualComponent (vels (snd (e_render E c x h)) cv)
          \<and> \<not> v_isVirtualHTMLElement (vels (snd (e_render E c x h)) cv)))"

text \<open>
  Capturing the virtual component \<open>v\<close> in the world \<open>w\<close> calls the render routine of
  the component \<open>c\<close>: \<open>v\<close> is not captured yet, is linked to \<open>c\<close>, and is the root of
  the pass, or \<open>c\<close> has no node yet, or \<open>c\<close> wants to be rendered again.
\<close>

definition rerenders :: "env \<Rightarrow> world \<Rightarrow> vid \<Rightarrow> cid \<Rightarrow> mode \<Rightarrow> bool" where
  "rerenders E w v c md =
     (\<not> sis w CAPTURED (OVel v) \<and> v_comp (velOf w v) = Some c
      \<and> v_isVirtualComponent (velOf w v)
      \<and> (md = TOP_LEVEL_ELEMENT \<or> c_el (compOf w c) = None
           \<or> e_shouldRerender E c (v_props (velOf w v)) (c_state (compOf w c)) (hp w)))"

text \<open>
  The virtual component \<open>vc\<close> is linked to the instance \<open>c\<close>: it
  refers to it, and both are tagged mapped and linked. The virtual component is marked
  rejected: it refers to no instance and is tagged mapped.
\<close>

definition linkedTo :: "world \<Rightarrow> vid \<Rightarrow> cid \<Rightarrow> bool" where
  "linkedTo w vc c =
     (v_comp (velOf w vc) = Some c \<and> sis w MAPPED (OVel vc) \<and> sis w MAPPED (OComp c)
      \<and> sis w LINKED (OVel vc) \<and> sis w LINKED (OComp c))"

definition rejected :: "world \<Rightarrow> vid \<Rightarrow> bool" where
  "rejected w vc = (v_comp (velOf w vc) = None \<and> sis w MAPPED (OVel vc))"

text \<open>The parent chain of an instance ends after at most \<open>k\<close> steps.\<close>

fun compChainEnds :: "nat \<Rightarrow> world \<Rightarrow> cid option \<Rightarrow> bool" where
  "compChainEnds 0 w co = (co = None)"
| "compChainEnds (Suc k) w co =
     (case co of None \<Rightarrow> True | Some c \<Rightarrow> compChainEnds k w (c_parent (compOf w c)))"

text \<open>The events a computation appends to the log.\<close>

definition emitted :: "'a M \<Rightarrow> world \<Rightarrow> event list" where
  "emitted m w = drop (length (log w)) (log (snd (m w)))"

text \<open>
  The event is the update notification of the instance of a virtual component tagged as
  updated, with the old props and the old state recorded for it.
\<close>

definition updateNotice :: "world \<Rightarrow> event \<Rightarrow> bool" where
  "updateNotice w e =
     (\<exists>v c. e = DidUpdate c (sget w OLDPROPS (OVel v)) (sget w OLDSTATE (OVel v))
        \<and> v_isVirtualComponent (velOf w v) \<and> sis w UPDATED (OVel v)
        \<and> v_comp (velOf w v) = Some c)"

text \<open>Two worlds that differ in the log at most.\<close>

definition sameButLog :: "world \<Rightarrow> world \<Rightarrow> bool" where
  "sameButLog w w' = (hp w' = hp w \<and> oinfo w' = oinfo w \<and> st w' = st w)"


section \<open>Scenarios\<close>


text \<open>
  A root component of class \<open>Root\<close> whose render routine returns a
  \<open>div\<close> with one text child, in a world where nothing has been rendered yet.
\<close>

definition rootCls :: cls where
  "rootCls = Cls 1 ''Root''"

definition allocV :: "vel \<Rightarrow> heap \<Rightarrow> vid \<times> heap" where
  "allocV vl h = (next_vel h, h\<lparr>vels := (vels h)(next_vel h := vl), next_vel := Suc (next_vel h)\<rparr>)"

definition renderDiv :: "cid \<Rightarrow> xid \<Rightarrow> heap \<Rightarrow> rres \<times> heap" where
  "renderDiv c x h =
    (let (t, h1) = allocV (blankVel\<lparr>v_isVirtualTextNode := True, v_text := ''hi'',
                     v_context := Some x\<rparr>) h;
         (d, h2) = allocV (blankVel\<lparr>v_isVirtualHTMLElement := True, v_tagName := ''div'',
                     v_context := Some x, v_children := [t]\<rparr>) h1;
         h3 = h2\<lparr>vels := (vels h2)(t := (vels h2 t)\<lparr>v_parent := Some d\<rparr>)\<rparr>
     in (Content d, h3))"

definition divEnv :: env where
  "divEnv = \<lparr>e_render = renderDiv, e_shouldRerender = (\<lambda>_ _ _ _. True),
     e_isForwarded = (\<lambda>_ _. False)\<rparr>"

definition rootWorld :: world where
  "rootWorld = emptyWorld\<lparr>hp := emptyHeap\<lparr>
     comps := (\<lambda>_. blankComp)(0 := blankComp\<lparr>c_constructor := rootCls\<rparr>), next_comp := 1\<rparr>\<rparr>"

text \<open>
  A render routine that returns nothing, and one that returns a text descriptor; a world
  in which the virtual component 0 wraps the root component.
\<close>

definition falsyEnv :: env where
  "falsyEnv = \<lparr>e_render = (\<lambda>c x h. (Falsy, h)), e_shouldRerender = (\<lambda>_ _ _ _. True),
     e_isForwarded = (\<lambda>_ _. False)\<rparr>"

definition renderText :: "cid \<Rightarrow> xid \<Rightarrow> heap \<Rightarrow> rres \<times> heap" where
  "renderText c x h =
     (let (t, h1) = allocV (blankVel\<lparr>v_isVirtualTextNode := True, v_text := ''hi'',
                      v_context := Some x\<rparr>) h
      in (Content t, h1))"

definition textEnv :: env where
  "textEnv = \<lparr>e_render = renderText, e_shouldRerender = (\<lambda>_ _ _ _. True),
     e_isForwarded = (\<lambda>_ _. False)\<rparr>"

definition wrapWorld :: world where
  "wrapWorld = rootWorld\<lparr>hp := (hp rootWorld)\<lparr>
     vels := (\<lambda>_. blankVel)(0 := blankVel\<lparr>v_isVirtualComponent := True, v_comp := Some 0,
                v_ComponentClass := rootCls\<rparr>),
     next_vel := 1\<rparr>\<rparr>"


text \<open>
  A world with one instance of class \<open>Root\<close> and four component descriptors:
  two of class \<open>Root\<close>, one of another class, and one that refers to the
  instance already.
\<close>

definition twinWorld :: world where
  "twinWorld = emptyWorld\<lparr>hp := emptyHeap\<lparr>
     comps := (\<lambda>_. blankComp)(0 := blankComp\<lparr>c_isComponent := True, c_constructor := rootCls\<rparr>),
     next_comp := 1,
     vels := (\<lambda>_. blankVel)(
        0 := blankVel\<lparr>v_isVirtualComponent := True, v_ComponentClass := rootCls\<rparr>,
        1 := blankVel\<lparr>v_isVirtualComponent := True, v_ComponentClass := rootCls\<rparr>,
        2 := blankVel\<lparr>v_isVirtualComponent := True, v_ComponentClass := Cls 2 ''Other''\<rparr>,
        3 := blankVel\<lparr>v_isVirtualComponent := True, v_ComponentClass := rootCls, v_comp := Some 0\<rparr>),
     next_vel := 4\<rparr>\<rparr>"

text \<open>
  A mounted component with a node that declines to render again: the world before its
  capture and the world after.
\<close>

definition skipEnv :: env where
  "skipEnv = \<lparr>e_render = renderDiv, e_shouldRerender = (\<lambda>_ _ _ _. False),
     e_isForwarded = (\<lambda>_ _. False)\<rparr>"

definition mountedWorld :: world where
  "mountedWorld = emptyWorld\<lparr>hp := emptyHeap\<lparr>
     comps := (\<lambda>_. blankComp)(0 := blankComp\<lparr>c_isComponent := True, c_constructor := rootCls,
        c_el := Some 0, c_mounted := True, c_props := JNum 1, c_state := JNum 2\<rparr>),
     next_comp := 1,
     vels := (\<lambda>_. blankVel)(0 := blankVel\<lparr>v_isVirtualComponent := True,
        v_ComponentClass := rootCls, v_comp := Some 0, v_props := JNum 3\<rparr>),
     next_vel := 1,
     nodes := (\<lambda>_. blankNode)(0 := blankNode\<lparr>n_isElementNode := True, n_tagName := ''div'',
        n_comp := Some 0\<rparr>),
     next_node := 1\<rparr>\<rparr>"

definition skippedWorld :: world where
  "skippedWorld = snd (capture skipEnv (Suc 0) 0 NoMode mountedWorld)"






text \<open>
  Four component classes: \<open>A\<close> renders \<open>B\<close>, \<open>B\<close>
  renders \<open>C\<close>, or \<open>D\<close> once its state is 1, and \<open>C\<close>
  and \<open>D\<close> render a \<open>div\<close>. A world with an instance of
  \<open>A\<close> and a document node; the world after the first pass; the same world
  with the rendered node attached to the document and the state of \<open>B\<close>
  changed; and the world after \<open>B\<close> has been rendered again. A render routine
  registers the component descriptor it creates with its context.
\<close>

definition clsA :: cls where "clsA = Cls 1 ''A''"

definition clsB :: cls where "clsB = Cls 2 ''B''"

definition clsC :: cls where "clsC = Cls 3 ''C''"

definition clsD :: cls where "clsD = Cls 4 ''D''"

definition renderChain :: "cid \<Rightarrow> xid \<Rightarrow> heap \<Rightarrow> rres \<times> heap" where
  "renderChain c x h =
     (let k = c_constructor (comps h c) in
      if k = clsA \<or> k = clsB then
        (let C = (if k = clsA then clsB else if c_state (comps h c) = JNum 1 then clsD else clsC);
             (v, h1) = allocV (blankVel\<lparr>v_isVirtualComponent := True, v_ComponentClass := C,
                                 v_context := Some x\<rparr>) h
         in (Content v,
             h1\<lparr>ctxs := (ctxs h1)(x := (ctxs h1 x)\<lparr>x_components := x_components (ctxs h1 x) @ [v]\<rparr>)\<rparr>))
      else
        (let (v, h1) = allocV (blankVel\<lparr>v_isVirtualHTMLElement := True, v_tagName := ''div'',
                                 v_context := Some x\<rparr>) h
         in (Content v, h1)))"

definition chainEnv :: env where
  "chainEnv = \<lparr>e_render = renderChain, e_shouldRerender = (\<lambda>_ _ _ _. True),
     e_isForwarded = (\<lambda>c h. case c_parent (comps h c) of
                                None \<Rightarrow> False
                              | Some p \<Rightarrow> c_forwardedComp (comps h p) = Some c)\<rparr>"

definition chainWorld :: world where
  "chainWorld = emptyWorld\<lparr>hp := emptyHeap\<lparr>
     comps := (\<lambda>_. blankComp)(0 := blankComp\<lparr>c_isComponent := True, c_constructor := clsA\<rparr>),
     next_comp := 1,
     nodes := (\<lambda>_. blankNode)(0 := blankNode\<lparr>n_isElementNode := True, n_tagName := ''body''\<rparr>),
     next_node := 1\<rparr>\<rparr>"

definition chainRendered :: world where
  "chainRendered = snd (render chainEnv 6 0 Undefined Undefined False chainWorld)"

definition chainMounted :: world where
  "chainMounted =
     snd (sq (elAppendChild 0 1) (setComp 1 (\<lambda>k. k\<lparr>c_state := JNum 1\<rparr>)) chainRendered)"

definition chainUpdated :: world where
  "chainUpdated = snd (render chainEnv 6 1 Undefined Undefined False chainMounted)"

section \<open>Running the model on concrete inputs\<close>

text \<open>
  Equations that unfold a computation only where it is applied to a world, so that the
  simplifier follows the control flow of a run instead of unfolding every branch.
\<close>

lemma create_run:
  "create n v w =
     (case n of 0 \<Rightarrow> throw OutOfFuel w | Suc m \<Rightarrow> createStep (create m) v w)"
  by (cases n) simp_all

lemma traceParents_run:
  "traceParents n root parent frags w =
     (case n of 0 \<Rightarrow> throw OutOfFuel w | Suc m \<Rightarrow> traceParentsStep (traceParents m root) root parent frags w)"
  by (cases n) simp_all

lemma skipElementParents_run:
  "skipElementParents n parent w =
     (case n of 0 \<Rightarrow> throw OutOfFuel w | Suc m \<Rightarrow> skipElementParentsStep (skipElementParents m) parent w)"
  by (cases n) simp_all

lemma propagateLinking_run:
  "propagateLinking n cmp vel stopIfMapped w =
     (case n of 0 \<Rightarrow> throw OutOfFuel w | Suc m \<Rightarrow> propagateLinkingStep (propagateLinking m) m cmp vel stopIfMapped w)"
  by (cases n) simp_all

lemma capture_run:
  "capture E n v md w =
     (case n of 0 \<Rightarrow> throw OutOfFuel w | Suc m \<Rightarrow> captureStep E (capture E m) m v md w)"
  by (cases n) simp_all

lemma findForwardingLoop_run:
  "findForwardingLoop n cmp current w =
     (case n of 0 \<Rightarrow> throw OutOfFuel w | Suc m \<Rightarrow> findForwardingStep (findForwardingLoop m cmp) cmp current w)"
  by (cases n) simp_all

lemma updateLoop_run:
  "updateLoop rec n cmp old new pos1 pos2 w =
     (case n of 0 \<Rightarrow> throw OutOfFuel w | Suc m \<Rightarrow> updateLoopStep rec (updateLoop rec m cmp old new) cmp old new pos1 pos2 w)"
  by (cases n) simp_all

lemma update_run:
  "update E n v w =
     (case n of 0 \<Rightarrow> throw OutOfFuel w | Suc m \<Rightarrow> updateStep E (update E m) m v w)"
  by (cases n) simp_all

lemma triggerDidUpdate_run:
  "triggerDidUpdate n v w =
     (case n of 0 \<Rightarrow> throw OutOfFuel w | Suc m \<Rightarrow> triggerDidUpdateStep (triggerDidUpdate m) v w)"
  by (cases n) simp_all

lemma getForwardedEl_run:
  "getForwardedEl n vel w =
     (case n of 0 \<Rightarrow> throw OutOfFuel w | Suc m \<Rightarrow> getForwardedElStep (getForwardedEl m) vel w)"
  by (cases n) simp_all

lemma propagateUp_run:
  "propagateUp n parent el w =
     (case n of 0 \<Rightarrow> throw OutOfFuel w | Suc m \<Rightarrow> propagateUpStep (\<lambda>p. propagateUp m p el) parent el w)"
  by (cases n) simp_all

lemma createEl_run:
  "createEl n v w =
     (case n of 0 \<Rightarrow> throw OutOfFuel w | Suc m \<Rightarrow> createElStep (createEl m) m v w)"
  by (cases n) simp_all

lemma adopt_run:
  "adopt n v el w =
     (case n of 0 \<Rightarrow> throw OutOfFuel w | Suc m \<Rightarrow> adoptStep (adopt m) m v el w)"
  by (cases n) simp_all

declare create.simps [simp del] traceParents.simps [simp del] skipElementParents.simps [simp del] propagateLinking.simps [simp del] capture.simps [simp del] findForwardingLoop.simps [simp del] updateLoop.simps [simp del] update.simps [simp del] triggerDidUpdate.simps [simp del] getForwardedEl.simps [simp del] propagateUp.simps [simp del] createEl.simps [simp del] adopt.simps [simp del]

lemmas fuel_run = create_run traceParents_run skipElementParents_run propagateLinking_run capture_run findForwardingLoop_run updateLoop_run update_run triggerDidUpdate_run getForwardedEl_run propagateUp_run createEl_run adopt_run

lemmas run_defs =
  ret_def[THEN fun_cong]
  throw_def[THEN fun_cong]
  bnd_def[THEN fun_cong]
  sq_def[THEN fun_cong]
  whenM_def[THEN fun_cong]
  tryFinally_def[THEN fun_cong]
  gets_def[THEN fun_cong]
  modify_def[THEN fun_cong]
  deref_def[THEN fun_cong]
  emit_def[THEN fun_cong]
  setVel_def[THEN fun_cong]
  setComp_def[THEN fun_cong]
  setNode_def[THEN fun_cong]
  setCtx_def[THEN fun_cong]
  sset_def[THEN fun_cong]
  tagOn_def[THEN fun_cong]
  dispose_def[THEN fun_cong]
  pushContext_def[THEN fun_cong]
  popContext_def[THEN fun_cong]
  createState_def[THEN fun_cong]
  setTextContent_def[THEN fun_cong]
  setTagName_def[THEN fun_cong]
  setAttribute_def[THEN fun_cong]
  removeAttribute_def[THEN fun_cong]
  setProperty_def[THEN fun_cong]
  removeProperty_def[THEN fun_cong]
  removeAllEventListeners_def[THEN fun_cong]
  addEventListener_def[THEN fun_cong]
  setInnerHTML_def[THEN fun_cong]
  detach_def[THEN fun_cong]
  emptyEl_def[THEN fun_cong]
  elAppendChild_def[THEN fun_cong]
  elInsertBefore_def[THEN fun_cong]
  elRemoveChild_def[THEN fun_cong]
  elReplaceChild_def[THEN fun_cong]
  elRemove_def[THEN fun_cong]
  allocNode_def[THEN fun_cong]
  createTextNode_def[THEN fun_cong]
  createElement_def[THEN fun_cong]
  updateHash_def[THEN fun_cong]
  updateListeners_def[THEN fun_cong]
  updateDOMElement_def[THEN fun_cong]
  createDOMElement_def[THEN fun_cong]
  allocComp_def[THEN fun_cong]
  createComponent_def[THEN fun_cong]
  createElementComponent_def[THEN fun_cong]
  createTextNodeComponent_def[THEN fun_cong]
  setProps_def[THEN fun_cong]
  compTriggerDidMount_def[THEN fun_cong]
  compTriggerDispose_def[THEN fun_cong]
  compDidUpdate_def[THEN fun_cong]
  allocVel_def[THEN fun_cong]
  newContext_def[THEN fun_cong]
  merge_def[THEN fun_cong]
  createWrappingVirtualComponent_def[THEN fun_cong]
  getInternalComponentData_def[THEN fun_cong]
  createStep_def[THEN fun_cong]
  link_def[THEN fun_cong]
  reject_def[THEN fun_cong]
  isLinked_def[THEN fun_cong]
  linkComponent_def[THEN fun_cong]
  traceParentsStep_def[THEN fun_cong]
  getVirtualComponentTrace_def[THEN fun_cong]
  extractInternalRefs_def[THEN fun_cong]
  componentEntries_def[THEN fun_cong]
  forEachComponent_def[THEN fun_cong]
  skipElementParentsStep_def[THEN fun_cong]
  propagateLinkingStep_def[THEN fun_cong]
  propagateLinkingHook_def[THEN fun_cong]
  ssetv_def[THEN fun_cong]
  callRender_def[THEN fun_cong]
  takeContent_def[THEN fun_cong]
  decideRerender_def[THEN fun_cong]
  descend_def[THEN fun_cong]
  renderAndDescend_def[THEN fun_cong]
  captureStep_def[THEN fun_cong]
  triggerDidMount_def[THEN fun_cong]
  elOf_def[THEN fun_cong]
  appendChild_def[THEN fun_cong]
  replaceChild_def[THEN fun_cong]
  insertChildBefore_def[THEN fun_cong]
  removeChild_def[THEN fun_cong]
  findForwardingStep_def[THEN fun_cong]
  findForwardingChildOfComponent_def[THEN fun_cong]
  storeInternalData_def[THEN fun_cong]
  oldChildOf_def[THEN fun_cong]
  oldChildrenOf_def[THEN fun_cong]
  mergeIteration_def[THEN fun_cong]
  updateLoopStep_def[THEN fun_cong]
  takeForwardedEl_def[THEN fun_cong]
  updateStep_def[THEN fun_cong]
  triggerDidUpdateStep_def[THEN fun_cong]
  getForwardedElStep_def[THEN fun_cong]
  propagateUpStep_def[THEN fun_cong]
  propagateForwardedEl_def[THEN fun_cong]
  createElStep_def[THEN fun_cong]
  adoptStep_def[THEN fun_cong]
  renderTry_def[THEN fun_cong]
  renderFinally_def[THEN fun_cong]
  render_def[THEN fun_cong]

lemmas ev_cong = sum.case_cong_weak prod.case_cong_weak option.case_cong_weak
  rres.case_cong_weak list.case_cong_weak nat.case_cong_weak

lemmas pure_defs =
  velOf_def compOf_def nodeOf_def ctxOf_def sget_def sis_def lowerChar_def toLowerCase_def hdel_def getTagName_def blankNode_def getAttributes_def getEventListeners_def hasInnerHTML_def getInnerHTML_def blankProps_def blankVel_def blankComp_def blankCtx_def emptyHeap_def emptyWorld_def compTagName_def elCopy_def hashEntries_def mergeHash_def mergeListeners_def elMerge_def truthyRef_def newInternalData_def isOfSameType_def isMapped_def addEntries_def skipDetached_def nthOpt_def digitChar_def

section \<open>Properties of the node synchronisation\<close>


















section \<open>What every step of the engine preserves\<close>

named_theorems pres_intros

lemma pres_ret [pres_intros]: "pres I (ret x)"
  by (simp add: pres_def ret_def)

lemma pres_throw [pres_intros]: "pres I (throw e)"
  by (simp add: pres_def throw_def)

lemma pres_gets [pres_intros]: "pres I (gets f)"
  by (simp add: pres_def gets_def)

lemma pres_deref [pres_intros]: "pres I (deref x)"
  by (cases x) (simp_all add: deref_def pres_ret pres_throw)

lemma pres_bnd [pres_intros]: "pres I m \<Longrightarrow> (\<And>x. pres I (f x)) \<Longrightarrow> pres I (bnd m f)"
  unfolding pres_def bnd_def by (auto split: prod.splits sum.splits)

lemma pres_sq [pres_intros]: "pres I m \<Longrightarrow> pres I n \<Longrightarrow> pres I (sq m n)"
  unfolding sq_def by (rule pres_bnd)

lemma pres_whenM [pres_intros]: "pres I m \<Longrightarrow> pres I (whenM b m)"
  by (simp add: whenM_def pres_ret)

lemma pres_tryFinally [pres_intros]: "pres I m \<Longrightarrow> pres I c \<Longrightarrow> pres I (tryFinally m c)"
  unfolding pres_def tryFinally_def by (auto split: prod.splits sum.splits)

lemma pres_forEach [pres_intros]: "(\<And>x. pres I (f x)) \<Longrightarrow> pres I (forEach f xs)"
  by (induction xs) (auto intro: pres_ret pres_sq)

lemma pres_mapM [pres_intros]: "(\<And>x. pres I (f x)) \<Longrightarrow> pres I (mapM f xs)"
  by (induction xs) (auto intro!: pres_ret pres_bnd)

lemma pres_foldM [pres_intros]: "(\<And>x a. pres I (f x a)) \<Longrightarrow> pres I (foldM f xs acc)"
  by (induction xs arbitrary: acc) (auto intro!: pres_ret pres_bnd)

lemma pres_if [pres_intros]: "pres I a \<Longrightarrow> pres I b \<Longrightarrow> pres I (if c then a else b)"
  by simp

lemma pres_case_option [pres_intros]:
  "pres I a \<Longrightarrow> (\<And>x. pres I (b x)) \<Longrightarrow> pres I (case x of None \<Rightarrow> a | Some y \<Rightarrow> b y)"
  by (cases x) simp_all

lemma pres_case_prod [pres_intros]: "(\<And>a b. pres I (f a b)) \<Longrightarrow> pres I (case p of (a, b) \<Rightarrow> f a b)"
  by (cases p) simp

lemma pres_case_rres [pres_intros]:
  "pres I a \<Longrightarrow> (\<And>v. pres I (b v)) \<Longrightarrow> pres I c
     \<Longrightarrow> pres I (case r of Falsy \<Rightarrow> a | Content v \<Rightarrow> b v | OtherValue \<Rightarrow> c)"
  by (cases r) simp_all

lemma pres_case_hash [pres_intros]:
  "(\<And>kvs. pres I (a kvs)) \<Longrightarrow> (\<And>kvs. pres I (b kvs))
     \<Longrightarrow> pres I (case h of HMap kvs \<Rightarrow> a kvs | HObj kvs \<Rightarrow> b kvs)"
  by (cases h) simp_all

lemma pres_Let [pres_intros]: "(\<And>x. pres I (f x)) \<Longrightarrow> pres I (Let a f)"
  by simp

lemma pres_hp:
  assumes "keeps q I" and "\<And>w. \<exists>h. snd (m w) = w\<lparr>hp := h\<rparr>"
  shows "pres I m"
  using assms unfolding pres_def keeps_def by metis

lemma pres_setVel [pres_intros]: "keeps q I \<Longrightarrow> pres I (setVel v f)"
  by (erule pres_hp) (auto simp: setVel_def modify_def)

lemma pres_setComp [pres_intros]: "keeps q I \<Longrightarrow> pres I (setComp v f)"
  by (erule pres_hp) (auto simp: setComp_def modify_def)

lemma pres_setNode [pres_intros]: "keeps q I \<Longrightarrow> pres I (setNode v f)"
  by (erule pres_hp) (auto simp: setNode_def modify_def)

lemma pres_setCtx [pres_intros]: "keeps q I \<Longrightarrow> pres I (setCtx v f)"
  by (erule pres_hp) (auto simp: setCtx_def modify_def)

lemma pres_allocNode [pres_intros]: "keeps q I \<Longrightarrow> pres I (allocNode d)"
  by (erule pres_hp) (auto simp: allocNode_def Let_def)

lemma pres_allocComp [pres_intros]: "keeps q I \<Longrightarrow> pres I (allocComp d)"
  by (erule pres_hp) (auto simp: allocComp_def Let_def)

lemma pres_allocVel [pres_intros]: "keeps q I \<Longrightarrow> pres I (allocVel d)"
  by (erule pres_hp) (auto simp: allocVel_def Let_def)

lemma pres_newContext [pres_intros]: "keeps q I \<Longrightarrow> pres I (newContext d)"
  by (erule pres_hp) (auto simp: newContext_def Let_def)

lemma pres_callRender [pres_intros]: "keeps q I \<Longrightarrow> pres I (callRender E c x)"
  by (erule pres_hp) (auto simp: callRender_def split: prod.splits)

lemma pres_emit: "keeps q I \<Longrightarrow> (q \<longrightarrow> \<not> lifecycle e) \<Longrightarrow> pres I (emit e)"
  unfolding pres_def keeps_def emit_def modify_def by simp

lemma pres_sset [pres_intros]: "keeps q I \<Longrightarrow> pres I (sset k ob v)"
  unfolding pres_def keeps_def by simp

lemma pres_tagOn [pres_intros]: "keeps q I \<Longrightarrow> pres I (tagOn k ob)"
  unfolding tagOn_def by (rule pres_sset)

lemma pres_ssetv [pres_intros]: "keeps q I \<Longrightarrow> pres I (ssetv k ob v)"
  unfolding ssetv_def by (rule pres_sset)

lemma pres_pushContext [pres_intros]: "keeps q I \<Longrightarrow> pres I (pushContext x)"
  unfolding pres_def keeps_def pushContext_def modify_def by simp

lemma pres_popContext [pres_intros]: "keeps q I \<Longrightarrow> pres I popContext"
  unfolding pres_def keeps_def popContext_def modify_def by simp

lemma pres_setTextContent [pres_intros]: "keeps q I \<Longrightarrow> pres I (setTextContent n s)"
  unfolding setTextContent_def by (intro pres_intros pres_emit; simp)

lemma pres_updateHash [pres_intros]:
  "(\<And>k v. pres I (upd k v)) \<Longrightarrow> (\<And>k. pres I (rmv k)) \<Longrightarrow> pres I (updateHash new old upd rmv)"
  unfolding updateHash_def by (intro pres_intros; simp)


lemma pres_emitQ: "keeps q I \<Longrightarrow> \<not> lifecycle e \<Longrightarrow> pres I (emit e)"
  by (rule pres_emit[where q=q]) simp_all

lemma pres_emitL: "keeps False I \<Longrightarrow> pres I (emit e)"
  by (rule pres_emit[where q=False]) simp_all

lemma pres_setTagName [pres_intros]: "keeps q I \<Longrightarrow> pres I (setTagName n s)"
  unfolding setTagName_def by (intro pres_intros pres_emitQ; simp)

lemma pres_setAttribute [pres_intros]: "keeps q I \<Longrightarrow> pres I (setAttribute n k v)"
  unfolding setAttribute_def by (intro pres_intros pres_emitQ; simp)

lemma pres_removeAttribute [pres_intros]: "keeps q I \<Longrightarrow> pres I (removeAttribute n k)"
  unfolding removeAttribute_def by (intro pres_intros pres_emitQ; simp)

lemma pres_setProperty [pres_intros]: "keeps q I \<Longrightarrow> pres I (setProperty n k v)"
  unfolding setProperty_def by (intro pres_intros pres_emitQ; simp)

lemma pres_removeProperty [pres_intros]: "keeps q I \<Longrightarrow> pres I (removeProperty n k)"
  unfolding removeProperty_def by (intro pres_intros pres_emitQ; simp)

lemma pres_removeAllEventListeners [pres_intros]: "keeps q I \<Longrightarrow> pres I (removeAllEventListeners n)"
  unfolding removeAllEventListeners_def by (intro pres_intros pres_emitQ; simp)

lemma pres_addEventListener [pres_intros]: "keeps q I \<Longrightarrow> pres I (addEventListener n l)"
  unfolding addEventListener_def by (intro pres_intros pres_emitQ; simp)

lemma pres_setInnerHTML [pres_intros]: "keeps q I \<Longrightarrow> pres I (setInnerHTML n s)"
  unfolding setInnerHTML_def by (intro pres_intros pres_emitQ; simp)

lemma pres_detach [pres_intros]: "keeps q I \<Longrightarrow> pres I (detach n)"
  unfolding detach_def by (intro pres_intros pres_emitQ; simp)

lemma pres_emptyEl [pres_intros]: "keeps q I \<Longrightarrow> pres I (emptyEl n)"
  unfolding emptyEl_def by (intro pres_intros pres_emitQ; simp)

lemma pres_elAppendChild [pres_intros]: "keeps q I \<Longrightarrow> pres I (elAppendChild p c)"
  unfolding elAppendChild_def by (intro pres_intros pres_emitQ; simp)

lemma pres_elInsertBefore [pres_intros]: "keeps q I \<Longrightarrow> pres I (elInsertBefore p c b)"
  unfolding elInsertBefore_def by (intro pres_intros pres_emitQ; simp)

lemma pres_elRemoveChild [pres_intros]: "keeps q I \<Longrightarrow> pres I (elRemoveChild p c)"
  unfolding elRemoveChild_def by (intro pres_intros pres_emitQ; simp)

lemma pres_elReplaceChild [pres_intros]: "keeps q I \<Longrightarrow> pres I (elReplaceChild p c b)"
  unfolding elReplaceChild_def by (intro pres_intros pres_emitQ; simp)

lemma pres_elRemove [pres_intros]: "keeps q I \<Longrightarrow> pres I (elRemove p)"
  unfolding elRemove_def by (intro pres_intros pres_emitQ; simp)

lemma pres_createTextNode [pres_intros]: "keeps q I \<Longrightarrow> pres I (createTextNode s)"
  unfolding createTextNode_def by (intro pres_intros pres_emitQ; simp)

lemma pres_createElement [pres_intros]: "keeps q I \<Longrightarrow> pres I (createElement s)"
  unfolding createElement_def by (intro pres_intros pres_emitQ; simp)

lemma pres_updateListeners [pres_intros]: "keeps q I \<Longrightarrow> pres I (updateListeners el old new)"
  unfolding updateListeners_def by (intro pres_intros; simp)

lemma pres_updateDOMElement [pres_intros]: "keeps q I \<Longrightarrow> pres I (updateDOMElement el v)"
  unfolding updateDOMElement_def by (intro pres_intros; simp)

lemma pres_createDOMElement [pres_intros]: "keeps q I \<Longrightarrow> pres I (createDOMElement v)"
  unfolding createDOMElement_def by (intro pres_intros; simp)

lemma pres_createComponent [pres_intros]: "keeps q I \<Longrightarrow> pres I (createComponent C p props)"
  unfolding createComponent_def by (intro pres_intros pres_emitQ; simp)

lemma pres_createElementComponent [pres_intros]: "keeps q I \<Longrightarrow> pres I (createElementComponent p v)"
  unfolding createElementComponent_def by (intro pres_intros pres_emitQ; simp)

lemma pres_createTextNodeComponent [pres_intros]: "keeps q I \<Longrightarrow> pres I (createTextNodeComponent p v)"
  unfolding createTextNodeComponent_def by (intro pres_intros pres_emitQ; simp)

lemma pres_setProps [pres_intros]: "keeps q I \<Longrightarrow> pres I (setProps c props)"
  unfolding setProps_def by (intro pres_intros pres_emitQ; simp)

lemma pres_compTriggerDidMount [pres_intros]: "keeps False I \<Longrightarrow> pres I (compTriggerDidMount c)"
  unfolding compTriggerDidMount_def by (intro pres_intros pres_emitQ pres_emitL; simp)

lemma pres_compTriggerDispose [pres_intros]: "keeps False I \<Longrightarrow> pres I (compTriggerDispose c)"
  unfolding compTriggerDispose_def by (intro pres_intros pres_emitQ pres_emitL; simp)

lemma pres_compDidUpdate [pres_intros]: "keeps False I \<Longrightarrow> pres I (compDidUpdate c p s)"
  unfolding compDidUpdate_def by (intro pres_intros pres_emitQ pres_emitL; simp)

lemma pres_merge [pres_intros]: "keeps q I \<Longrightarrow> pres I (merge v other)"
  unfolding merge_def by (intro pres_intros pres_emitQ; simp)

lemma pres_createWrappingVirtualComponent [pres_intros]: "keeps q I \<Longrightarrow> pres I (createWrappingVirtualComponent c)"
  unfolding createWrappingVirtualComponent_def by (intro pres_intros pres_emitQ; simp)

lemma pres_getInternalComponentData [pres_intros]: "keeps q I \<Longrightarrow> pres I (getInternalComponentData c)"
  unfolding getInternalComponentData_def by (intro pres_intros pres_emitQ; simp)

lemma pres_createStep [pres_intros]: "(\<And>x. pres I (rec x)) \<Longrightarrow> keeps q I \<Longrightarrow> pres I (createStep rec v)"
  unfolding createStep_def by (intro pres_intros pres_emitQ; simp)

lemma pres_create [pres_intros]: "keeps q I \<Longrightarrow> pres I (create n v)"
  by (induction n arbitrary: v) (simp_all add: create.simps pres_throw pres_createStep)

lemma pres_link [pres_intros]: "keeps q I \<Longrightarrow> pres I (link c vc)"
  unfolding link_def by (intro pres_intros pres_emitQ; simp)

lemma pres_reject [pres_intros]: "keeps q I \<Longrightarrow> pres I (reject c vc)"
  unfolding reject_def by (intro pres_intros pres_emitQ; simp)

lemma pres_isLinked [pres_intros]: "keeps q I \<Longrightarrow> pres I (isLinked c vc)"
  unfolding isLinked_def by (intro pres_intros pres_emitQ; simp)

lemma pres_linkComponent [pres_intros]: "keeps q I \<Longrightarrow> pres I (linkComponent c vc)"
  unfolding linkComponent_def by (intro pres_intros pres_emitQ; simp)

lemma pres_traceParentsStep [pres_intros]: "(\<And>x y. pres I (rec x y)) \<Longrightarrow> keeps q I \<Longrightarrow> pres I (traceParentsStep rec root parent frags)"
  unfolding traceParentsStep_def by (intro pres_intros pres_emitQ; simp)

lemma pres_traceParents [pres_intros]: "keeps q I \<Longrightarrow> pres I (traceParents n root parent frags)"
  by (induction n arbitrary: parent frags) (simp_all add: traceParents.simps pres_throw pres_traceParentsStep)

lemma pres_getVirtualComponentTrace [pres_intros]: "keeps q I \<Longrightarrow> pres I (getVirtualComponentTrace n vc root)"
  unfolding getVirtualComponentTrace_def by (intro pres_intros pres_emitQ; simp)

lemma pres_extractInternalRefs [pres_intros]: "keeps q I \<Longrightarrow> pres I (extractInternalRefs n x root)"
  unfolding extractInternalRefs_def by (intro pres_intros pres_emitQ; simp)

lemma pres_componentEntries [pres_intros]: "keeps q I \<Longrightarrow> pres I (componentEntries n c vc)"
  unfolding componentEntries_def by (intro pres_intros pres_emitQ; simp)

lemma pres_forEachComponent [pres_intros]: "(\<And>x y. pres I (hook x y)) \<Longrightarrow> keeps q I \<Longrightarrow> pres I (forEachComponent n c vc hook)"
  unfolding forEachComponent_def by (intro pres_intros pres_emitQ; simp)

lemma pres_skipElementParentsStep [pres_intros]: "(\<And>x. pres I (rec x)) \<Longrightarrow> keeps q I \<Longrightarrow> pres I (skipElementParentsStep rec parent)"
  unfolding skipElementParentsStep_def by (intro pres_intros pres_emitQ; simp)

lemma pres_skipElementParents [pres_intros]: "keeps q I \<Longrightarrow> pres I (skipElementParents n parent)"
  by (induction n arbitrary: parent) (simp_all add: skipElementParents.simps pres_throw pres_skipElementParentsStep)

lemma pres_propagateLinkingStep [pres_intros]: "(\<And>x y z. pres I (rec x y z)) \<Longrightarrow> keeps q I \<Longrightarrow> pres I (propagateLinkingStep rec n c v s)"
  unfolding propagateLinkingStep_def by (intro pres_intros pres_emitQ; simp)

lemma pres_propagateLinking [pres_intros]: "keeps q I \<Longrightarrow> pres I (propagateLinking n c v s)"
  by (induction n arbitrary: c v s) (simp_all add: propagateLinking.simps pres_throw pres_propagateLinkingStep)

lemma pres_propagateLinkingHook [pres_intros]: "keeps q I \<Longrightarrow> pres I (propagateLinkingHook n c v)"
  unfolding propagateLinkingHook_def by (intro pres_intros pres_emitQ; simp)

lemma pres_takeContent [pres_intros]: "keeps q I \<Longrightarrow> pres I (takeContent v content)"
  unfolding takeContent_def by (intro pres_intros pres_emitQ; simp)

lemma pres_decideRerender [pres_intros]: "keeps q I \<Longrightarrow> pres I (decideRerender E v c md)"
  unfolding decideRerender_def by (intro pres_intros pres_emitQ; simp)

lemma pres_descend [pres_intros]: "(\<And>x y. pres I (rec x y)) \<Longrightarrow> keeps q I \<Longrightarrow> pres I (descend rec v)"
  unfolding descend_def by (intro pres_intros pres_emitQ; simp)

lemma pres_renderAndDescend [pres_intros]: "(\<And>x y. pres I (rec x y)) \<Longrightarrow> keeps q I \<Longrightarrow> pres I (renderAndDescend E rec n v c)"
  unfolding renderAndDescend_def by (intro pres_intros pres_emitQ; simp)

lemma pres_captureStep [pres_intros]: "(\<And>x y. pres I (rec x y)) \<Longrightarrow> keeps q I \<Longrightarrow> pres I (captureStep E rec n v md)"
  unfolding captureStep_def by (intro pres_intros pres_emitQ; simp)

lemma pres_capture [pres_intros]: "keeps q I \<Longrightarrow> pres I (capture E n v md)"
  by (induction n arbitrary: v md) (simp_all add: capture.simps pres_throw pres_captureStep)

lemma pres_triggerDidMount [pres_intros]: "keeps False I \<Longrightarrow> pres I (triggerDidMount p c)"
  unfolding triggerDidMount_def by (intro pres_intros pres_emitQ pres_emitL; simp)

lemma pres_elOf [pres_intros]: "keeps q I \<Longrightarrow> pres I (elOf c)"
  unfolding elOf_def by (intro pres_intros pres_emitQ; simp)

lemma pres_appendChild [pres_intros]: "keeps False I \<Longrightarrow> pres I (appendChild p c)"
  unfolding appendChild_def by (intro pres_intros pres_emitQ pres_emitL; simp)

lemma pres_replaceChild [pres_intros]: "keeps False I \<Longrightarrow> pres I (replaceChild p c d)"
  unfolding replaceChild_def by (intro pres_intros pres_emitQ pres_emitL; simp)

lemma pres_insertChildBefore [pres_intros]: "keeps False I \<Longrightarrow> pres I (insertChildBefore p c d)"
  unfolding insertChildBefore_def by (intro pres_intros pres_emitQ pres_emitL; simp)

lemma pres_removeChild [pres_intros]: "keeps False I \<Longrightarrow> pres I (removeChild p c)"
  unfolding removeChild_def by (intro pres_intros pres_emitQ pres_emitL; simp)

lemma pres_findForwardingStep [pres_intros]: "(\<And>x. pres I (rec x)) \<Longrightarrow> keeps q I \<Longrightarrow> pres I (findForwardingStep rec c cur)"
  unfolding findForwardingStep_def by (intro pres_intros pres_emitQ; simp)

lemma pres_findForwardingLoop [pres_intros]: "keeps q I \<Longrightarrow> pres I (findForwardingLoop n c cur)"
  by (induction n arbitrary: cur) (simp_all add: findForwardingLoop.simps pres_throw pres_findForwardingStep)

lemma pres_findForwardingChildOfComponent [pres_intros]: "keeps q I \<Longrightarrow> pres I (findForwardingChildOfComponent n c f)"
  unfolding findForwardingChildOfComponent_def by (intro pres_intros pres_emitQ; simp)

lemma pres_storeInternalData [pres_intros]: "keeps q I \<Longrightarrow> pres I (storeInternalData c vc)"
  unfolding storeInternalData_def by (intro pres_intros pres_emitQ; simp)

lemma pres_oldChildOf [pres_intros]: "keeps q I \<Longrightarrow> pres I (oldChildOf E n c el child)"
  unfolding oldChildOf_def by (intro pres_intros pres_emitQ; simp)

lemma pres_oldChildrenOf [pres_intros]: "keeps q I \<Longrightarrow> pres I (oldChildrenOf E n c)"
  unfolding oldChildrenOf_def by (intro pres_intros pres_emitQ; simp)

lemma pres_mergeIteration [pres_intros]: "(\<And>x. pres I (rec x)) \<Longrightarrow> keeps False I \<Longrightarrow> pres I (mergeIteration rec c old new p1 p2)"
  unfolding mergeIteration_def by (intro pres_intros pres_emitQ pres_emitL; simp)

lemma pres_updateLoopStep [pres_intros]: "(\<And>x. pres I (rec x)) \<Longrightarrow> (\<And>x y. pres I (loop x y)) \<Longrightarrow> keeps False I \<Longrightarrow> pres I (updateLoopStep rec loop c old new p1 p2)"
  unfolding updateLoopStep_def by (intro pres_intros pres_emitQ pres_emitL; simp)

lemma pres_updateLoop [pres_intros]: "(\<And>x. pres I (rec x)) \<Longrightarrow> keeps False I \<Longrightarrow> pres I (updateLoop rec n c old new p1 p2)"
  by (induction n arbitrary: p1 p2) (simp_all add: updateLoop.simps pres_throw pres_updateLoopStep)

lemma pres_takeForwardedEl [pres_intros]: "keeps False I \<Longrightarrow> pres I (takeForwardedEl c fv)"
  unfolding takeForwardedEl_def by (intro pres_intros pres_emitQ pres_emitL; simp)

lemma pres_updateStep [pres_intros]: "(\<And>x. pres I (rec x)) \<Longrightarrow> keeps False I \<Longrightarrow> pres I (updateStep E rec n v)"
  unfolding updateStep_def by (intro pres_intros pres_emitQ pres_emitL; simp)

lemma pres_update [pres_intros]: "keeps False I \<Longrightarrow> pres I (update E n v)"
  by (induction n arbitrary: v) (simp_all add: update.simps pres_throw pres_updateStep)

lemma pres_triggerDidUpdateStep [pres_intros]: "(\<And>x. pres I (rec x)) \<Longrightarrow> keeps False I \<Longrightarrow> pres I (triggerDidUpdateStep rec v)"
  unfolding triggerDidUpdateStep_def by (intro pres_intros pres_emitQ pres_emitL; simp)

lemma pres_triggerDidUpdate [pres_intros]: "keeps False I \<Longrightarrow> pres I (triggerDidUpdate n v)"
  by (induction n arbitrary: v) (simp_all add: triggerDidUpdate.simps pres_throw pres_triggerDidUpdateStep)

lemma pres_getForwardedElStep [pres_intros]: "(\<And>x. pres I (rec x)) \<Longrightarrow> keeps q I \<Longrightarrow> pres I (getForwardedElStep rec v)"
  unfolding getForwardedElStep_def by (intro pres_intros pres_emitQ; simp)

lemma pres_getForwardedEl [pres_intros]: "keeps q I \<Longrightarrow> pres I (getForwardedEl n v)"
  by (induction n arbitrary: v) (simp_all add: getForwardedEl.simps pres_throw pres_getForwardedElStep)

lemma pres_propagateUpStep [pres_intros]: "(\<And>x. pres I (rec x)) \<Longrightarrow> keeps q I \<Longrightarrow> pres I (propagateUpStep rec p el)"
  unfolding propagateUpStep_def by (intro pres_intros pres_emitQ; simp)

lemma pres_propagateUp [pres_intros]: "keeps q I \<Longrightarrow> pres I (propagateUp n p el)"
  by (induction n arbitrary: p) (simp_all add: propagateUp.simps pres_throw pres_propagateUpStep)

lemma pres_propagateForwardedEl [pres_intros]: "keeps q I \<Longrightarrow> pres I (propagateForwardedEl n v el)"
  unfolding propagateForwardedEl_def by (intro pres_intros pres_emitQ; simp)

lemma pres_createElStep [pres_intros]: "(\<And>x. pres I (rec x)) \<Longrightarrow> keeps q I \<Longrightarrow> pres I (createElStep rec n v)"
  unfolding createElStep_def by (intro pres_intros pres_emitQ; simp)

lemma pres_createEl [pres_intros]: "keeps q I \<Longrightarrow> pres I (createEl n v)"
  by (induction n arbitrary: v) (simp_all add: createEl.simps pres_throw pres_createElStep)

lemma pres_adoptLoop [pres_intros]:
  assumes r: "\<And>x y. pres I (rec x y)" and k: "keeps q I"
  shows "pres I (adoptLoop rec n el cs vs)"
proof (induction cs arbitrary: vs)
  case Nil
  show ?case
  proof (cases vs)
    case Nil
    then show ?thesis by (simp add: pres_ret)
  next
    case (Cons v vs')
    then show ?thesis using k by (simp del: forEach.simps) (intro pres_intros; simp)
  qed
next
  case (Cons c cs)
  show ?case
  proof (cases vs)
    case Nil
    then show ?thesis using k by (simp del: forEach.simps) (intro pres_intros; simp)
  next
    case (Cons v vs')
    then show ?thesis using k r Cons.IH by simp (intro pres_intros; simp)
  qed
qed

lemma pres_adoptStep [pres_intros]: "(\<And>x y. pres I (rec x y)) \<Longrightarrow> keeps q I \<Longrightarrow> pres I (adoptStep rec n v el)"
  unfolding adoptStep_def by (intro pres_intros pres_emitQ; simp)

lemma pres_adopt [pres_intros]: "keeps q I \<Longrightarrow> pres I (adopt n v el)"
  by (induction n arbitrary: v el) (simp_all add: adopt.simps pres_throw pres_adoptStep)

section \<open>Release of the per-pass tags\<close>

lemma keeps_tagsTracked: "keeps False (tagsTracked oi i)"
  unfolding keeps_def tagsTracked_def
  by (auto simp: sset_def modify_def Let_def split: option.splits)

lemma keeps_lifecycleLog: "keeps True (lifecycleLog N)"
  unfolding keeps_def lifecycleLog_def
  by (auto simp: sset_def modify_def Let_def split: option.splits)

lemma snd_bnd: "snd (bnd m f w) = (case m w of (Inl e, w') \<Rightarrow> w' | (Inr x, w') \<Rightarrow> snd (f x w'))"
  by (simp add: bnd_def split: prod.splits sum.splits)

lemma sq_ok: "fst (m w) = Inr () \<Longrightarrow> sq m n w = n (snd (m w))"
  by (cases "m w") (simp add: sq_def bnd_def)

lemma bnd_ok: "m w = (Inr x, w1) \<Longrightarrow> bnd m f w = f x w1"
  by (simp add: bnd_def)

lemma createState_ok: "fst (createState w) = Inr ()"
  by (simp add: createState_def modify_def)

lemma dispose_tracked:
  assumes "tagsTracked oi i w" and "\<forall>ob. oi ob i = None"
  shows "oinfo (snd (dispose w)) = oi"
proof (rule ext, rule ext)
  fix ob j
  show "oinfo (snd (dispose w)) ob j = oi ob j"
    using assms unfolding tagsTracked_def dispose_def modify_def Let_def
    by (cases "j = i") auto
qed

lemma renderFinally_ok: "fst (renderFinally w) = Inr ()"
  by (simp add: renderFinally_def sq_def bnd_def dispose_def modify_def)

lemma render_prelude:
  "render E n cmp oldProps oldState adoptElement w
     = tryFinally (renderTry E n cmp (next_vel (hp w)) adoptElement) renderFinally
         (snd (whenM (truthy oldState) (ssetv OLDSTATE (OVel (next_vel (hp w))) oldState)
           (snd (whenM (truthy oldProps) (ssetv OLDPROPS (OVel (next_vel (hp w))) oldProps)
             (snd (createState (snd (createWrappingVirtualComponent cmp w))))))))"
proof -
  have w1: "createWrappingVirtualComponent cmp w
      = (Inr (next_vel (hp w)), snd (createWrappingVirtualComponent cmp w))"
    by (simp add: createWrappingVirtualComponent_def bnd_def gets_def allocVel_def Let_def sq_def
        setVel_def modify_def ret_def)
  have ok: "fst (whenM b (ssetv key ob v) w') = Inr ()" for b key ob v w'
    by (simp add: whenM_def ssetv_def sset_def modify_def ret_def)
  show ?thesis
    unfolding render_def
    by (simp add: bnd_ok[of "createWrappingVirtualComponent cmp" w _ _, OF w1]
        sq_ok[of createState, OF createState_ok]
        sq_ok[of "whenM b (ssetv key ob v)" for b key ob v, OF ok])
qed

lemma render_oinfo:
  assumes fresh: "\<forall>ob. oinfo w ob (uuid_ctr w) = None"
  shows "oinfo (snd (render E n cmp oldProps oldState adoptElement w)) = oinfo w"
proof -
  define I where "I = tagsTracked (oinfo w) (uuid_ctr w)"
  have k: "keeps False I" unfolding I_def by (rule keeps_tagsTracked)
  define vel where "vel = next_vel (hp w)"
  define w1 where "w1 = snd (createWrappingVirtualComponent cmp w)"
  have o1: "oinfo w1 = oinfo w" and u1: "uuid_ctr w1 = uuid_ctr w"
    unfolding w1_def
    by (simp_all add: createWrappingVirtualComponent_def bnd_def gets_def allocVel_def Let_def
        sq_def setVel_def modify_def ret_def)
  define w2 where "w2 = snd (createState w1)"
  have I2: "I w2"
    using fresh o1 u1 unfolding I_def w2_def tagsTracked_def createState_def modify_def by simp
  have pe: "pres I (modify (\<lambda>w. w\<lparr>engine_state := Some (sid (st w))\<rparr>))"
    unfolding pres_def I_def tagsTracked_def modify_def by simp
  have pb: "pres I (renderTry E n cmp vel adoptElement)"
    unfolding renderTry_def using k pe by (intro pres_intros; simp)
  have pa: "pres I (whenM b (ssetv key ob v))" for b key ob v
    using k by (intro pres_intros; simp)
  define w3 where "w3 = snd (whenM (truthy oldProps) (ssetv OLDPROPS (OVel vel) oldProps) w2)"
  define w4 where "w4 = snd (whenM (truthy oldState) (ssetv OLDSTATE (OVel vel) oldState) w3)"
  have I4: "I w4"
    using I2 pa unfolding w3_def w4_def pres_def by blast
  obtain r wb where b: "renderTry E n cmp vel adoptElement w4 = (r, wb)"
    by (cases "renderTry E n cmp vel adoptElement w4")
  have "I wb" using pb I4 b unfolding pres_def by (metis snd_conv)
  then have "oinfo (snd (dispose wb)) = oinfo w"
    unfolding I_def using dispose_tracked fresh by blast
  then have "oinfo (snd (tryFinally (renderTry E n cmp vel adoptElement) renderFinally w4)) = oinfo w"
    using b by (simp add: tryFinally_def renderFinally_def sq_def bnd_def dispose_def modify_def
        split: prod.splits sum.splits)
  then show ?thesis
    unfolding render_prelude w4_def w3_def w2_def w1_def vel_def .
qed

lemma pres_lifecycleLog_createState: "pres (lifecycleLog N) createState"
  by (simp add: pres_def lifecycleLog_def createState_def modify_def)

lemma pres_lifecycleLog_dispose: "pres (lifecycleLog N) dispose"
  by (simp add: pres_def lifecycleLog_def dispose_def modify_def Let_def)

lemma pres_lifecycleLog_modify_engine: "pres (lifecycleLog N) (modify (\<lambda>w. w\<lparr>engine_state := x w\<rparr>))"
  by (simp add: pres_def lifecycleLog_def modify_def)

lemma render_adopt_pres: "pres (lifecycleLog N) (render E n cmp oldProps oldState True)"
  unfolding render_def renderTry_def renderFinally_def
  by (simp, intro pres_intros pres_lifecycleLog_createState pres_lifecycleLog_dispose
      pres_lifecycleLog_modify_engine) (rule keeps_lifecycleLog)+

text \<open>
  Claim C4. When the identifier of a new rendering state is fresh (no object carries tags
  under it), a pass through \<open>_render\<close> leaves the tags stored on the objects exactly as
  they were before the pass, whether the pass returns normally or with an error, in either
  mode: every tag the pass has set is removed again by \<open>dispose\<close> in the
  \<open>finally\<close> block.
\<close>

theorem render_releases_tags:
  assumes "\<forall>ob. oinfo w ob (uuid_ctr w) = None"
  shows "oinfo (snd (render E n cmp oldProps oldState adoptElement w)) = oinfo w"
  using assms by (rule render_oinfo)

theorem render_releases_tags_witness:
  "(\<forall>ob. oinfo rootWorld ob (uuid_ctr rootWorld) = None)
   \<and> oinfo (snd (render divEnv 5 0 Undefined Undefined False rootWorld)) = oinfo rootWorld"
  using render_releases_tags[of rootWorld divEnv 5 0 Undefined Undefined False]
  by (simp add: rootWorld_def emptyWorld_def)

text \<open>
  Claim C10. A pass in adoption mode adds no lifecycle notification to the log: no
  \<open>didUpdate\<close>, no \<open>didMount\<close> and no dispose, whatever the pass returns. The same
  holds for \<open>_adopt\<close> and \<open>_createEl\<close> on their own, so the nodes created and appended
  for virtual children without a concrete counterpart are not notified.
\<close>

theorem adoption_fires_no_notifications:
  "filter lifecycle (log (snd (render E n cmp oldProps oldState True w))) = filter lifecycle (log w)
   \<and> filter lifecycle (log (snd (adopt n v el w))) = filter lifecycle (log w)
   \<and> filter lifecycle (log (snd (createEl n v w))) = filter lifecycle (log w)"
  using render_adopt_pres[of "filter lifecycle (log w)" E n cmp oldProps oldState]
    pres_adopt[OF keeps_lifecycleLog, of "filter lifecycle (log w)" n v el]
    pres_createEl[OF keeps_lifecycleLog, of "filter lifecycle (log w)" n v]
  unfolding pres_def lifecycleLog_def by simp

section \<open>Symbolic execution of straight-line code\<close>

named_theorems exec

lemma bnd_gets [exec]: "bnd (gets f) g w = g (f w) w"
  by (simp add: bnd_def gets_def)

lemma bnd_ret [exec]: "bnd (ret x) g w = g x w"
  by (simp add: bnd_def ret_def)

lemma bnd_throw [exec]: "bnd (throw e) g w = (Inl e, w)"
  by (simp add: bnd_def throw_def)

lemma sq_throw [exec]: "sq (throw e) g w = (Inl e, w)"
  by (simp add: sq_def bnd_def throw_def)

lemma sq_ret [exec]: "sq (ret ()) g w = g w"
  by (simp add: sq_def bnd_def ret_def)

lemma ret_apply [exec]: "ret x w = (Inr x, w)"
  by (simp add: ret_def)

lemma throw_apply [exec]: "throw e w = (Inl e, w)"
  by (simp add: throw_def)

lemma bnd_deref [exec]: "bnd (deref (Some x)) g w = g x w" "bnd (deref None) g w = (Inl TypeError, w)"
  by (simp_all add: bnd_def deref_def ret_def throw_def)

lemma bnd_assoc [exec]:
  "bnd (bnd m f) g w = bnd m (\<lambda>x. bnd (f x) g) w"
  "bnd (sq a n) g w = sq a (bnd n g) w"
  "sq (sq a b) c w = sq a (sq b c) w"
  "sq (bnd m h) c w = bnd m (\<lambda>x. sq (h x) c) w"
  by (simp_all add: bnd_def sq_def split: prod.splits sum.splits)

lemma bnd_if [exec]:
  "bnd (if b then m else n) g w = (if b then bnd m g w else bnd n g w)"
  "sq (if b then a else c) k w = (if b then sq a k w else sq c k w)"
  by simp_all

declare sq_ok [exec]

lemma whenM_apply [exec]: "whenM b m w = (if b then m w else (Inr (), w))"
  by (simp add: whenM_def ret_def)

lemma fst_whenM [exec]: "fst (m w) = Inr () \<Longrightarrow> fst (whenM b m w) = Inr ()"
  by (simp add: whenM_def ret_def)

text \<open>Steps that cannot fail.\<close>

lemma fst_modify [exec]: "fst (modify f w) = Inr ()"
  by (simp add: modify_def)

lemma fst_sset [exec]: "fst (sset k ob v w) = Inr ()" "fst (tagOn k ob w) = Inr ()" "fst (ssetv k ob v w) = Inr ()"
  by (simp_all add: sset_def tagOn_def ssetv_def modify_def)

lemma fst_setters [exec]:
  "fst (setVel v f w) = Inr ()" "fst (setComp c g w) = Inr ()" "fst (setNode n h w) = Inr ()"
  "fst (setCtx x k w) = Inr ()" "fst (emit e w) = Inr ()" "fst (pushContext x w) = Inr ()"
  "fst (popContext w) = Inr ()"
  by (simp_all add: setVel_def setComp_def setNode_def setCtx_def emit_def pushContext_def
      popContext_def modify_def)

lemma fst_setProps [exec]: "fst (setProps c p w) = Inr ()" "fst (merge v ep w) = Inr ()"
  by (simp_all add: setProps_def merge_def exec)

text \<open>What the steps change.\<close>

lemma sget_sset [exec]:
  "sget (snd (sset k ob v w)) k' ob' = (if ob' = ob \<and> k' = k then v else sget w k' ob')"
  by (auto simp: sget_def sset_def modify_def Let_def split: option.splits)

lemma sget_tagOn [exec]:
  "sget (snd (tagOn k ob w)) k' ob' = (if ob' = ob \<and> k' = k then JBool True else sget w k' ob')"
  unfolding tagOn_def by (rule sget_sset)

lemma sis_tagOn [exec]:
  "sis (snd (tagOn k ob w)) k' ob' = ((ob' = ob \<and> k' = k) \<or> sis w k' ob')"
  by (auto simp: sis_def sget_tagOn)

lemma sis_ssetv [exec]:
  "sis (snd (ssetv k ob v w)) k' ob' = (if ob' = ob \<and> k' = k then (v = Undefined \<or> truthy v) else sis w k' ob')"
  by (simp add: sis_def ssetv_def sget_sset)

lemma hp_sset [exec]:
  "hp (snd (sset k ob v w)) = hp w" "hp (snd (tagOn k ob w)) = hp w" "hp (snd (ssetv k ob v w)) = hp w"
  by (simp_all add: sset_def tagOn_def ssetv_def modify_def Let_def split: option.splits)

lemma log_sset [exec]:
  "log (snd (sset k ob v w)) = log w" "log (snd (tagOn k ob w)) = log w" "log (snd (ssetv k ob v w)) = log w"
  by (simp_all add: sset_def tagOn_def ssetv_def modify_def Let_def split: option.splits)

lemma heap_sset [exec]:
  "velOf (snd (sset k ob v w)) = velOf w" "compOf (snd (sset k ob v w)) = compOf w"
  "nodeOf (snd (sset k ob v w)) = nodeOf w" "ctxOf (snd (sset k ob v w)) = ctxOf w"
  "velOf (snd (tagOn k ob w)) = velOf w" "compOf (snd (tagOn k ob w)) = compOf w"
  "nodeOf (snd (tagOn k ob w)) = nodeOf w" "ctxOf (snd (tagOn k ob w)) = ctxOf w"
  "velOf (snd (ssetv k ob v w)) = velOf w" "compOf (snd (ssetv k ob v w)) = compOf w"
  "nodeOf (snd (ssetv k ob v w)) = nodeOf w" "ctxOf (snd (ssetv k ob v w)) = ctxOf w"
  by (simp_all add: velOf_def compOf_def nodeOf_def ctxOf_def hp_sset fun_eq_iff)

lemma tags_setVel [exec]:
  "sget (snd (setVel v f w)) = sget w" "sis (snd (setVel v f w)) = sis w"
  "sget (snd (setComp c g w)) = sget w" "sis (snd (setComp c g w)) = sis w"
  "sget (snd (setNode n h w)) = sget w" "sis (snd (setNode n h w)) = sis w"
  "sget (snd (setCtx x k w)) = sget w" "sis (snd (setCtx x k w)) = sis w"
  "sget (snd (emit e w)) = sget w" "sis (snd (emit e w)) = sis w"
  by (simp_all add: fun_eq_iff sis_def sget_def setVel_def setComp_def setNode_def setCtx_def emit_def modify_def)

lemma log_setters [exec]:
  "log (snd (setVel v f w)) = log w" "log (snd (setComp c g w)) = log w"
  "log (snd (setNode n h w)) = log w" "log (snd (setCtx x k w)) = log w"
  "log (snd (emit e w)) = log w @ [e]"
  by (simp_all add: setVel_def setComp_def setNode_def setCtx_def emit_def modify_def)

lemma velOf_setters [exec]:
  "velOf (snd (setVel v f w)) v' = (if v' = v then f (velOf w v) else velOf w v')"
  "velOf (snd (setComp c g w)) = velOf w" "velOf (snd (setNode n h w)) = velOf w"
  "velOf (snd (setCtx x k w)) = velOf w" "velOf (snd (emit e w)) = velOf w"
  by (simp_all add: fun_eq_iff velOf_def setVel_def setComp_def setNode_def setCtx_def emit_def modify_def)

lemma compOf_setters [exec]:
  "compOf (snd (setComp c g w)) c' = (if c' = c then g (compOf w c) else compOf w c')"
  "compOf (snd (setVel v f w)) = compOf w" "compOf (snd (setNode n h w)) = compOf w"
  "compOf (snd (setCtx x k w)) = compOf w" "compOf (snd (emit e w)) = compOf w"
  by (simp_all add: fun_eq_iff compOf_def setVel_def setComp_def setNode_def setCtx_def emit_def modify_def)

lemma nodeOf_setters [exec]:
  "nodeOf (snd (setNode n h w)) n' = (if n' = n then h (nodeOf w n) else nodeOf w n')"
  "nodeOf (snd (setVel v f w)) = nodeOf w" "nodeOf (snd (setComp c g w)) = nodeOf w"
  "nodeOf (snd (setCtx x k w)) = nodeOf w" "nodeOf (snd (emit e w)) = nodeOf w"
  by (simp_all add: fun_eq_iff nodeOf_def setVel_def setComp_def setNode_def setCtx_def emit_def modify_def)

lemma ctxOf_setters [exec]:
  "ctxOf (snd (setCtx x k w)) x' = (if x' = x then k (ctxOf w x) else ctxOf w x')"
  "ctxOf (snd (setVel v f w)) = ctxOf w" "ctxOf (snd (setComp c g w)) = ctxOf w"
  "ctxOf (snd (setNode n h w)) = ctxOf w" "ctxOf (snd (emit e w)) = ctxOf w"
  by (simp_all add: fun_eq_iff ctxOf_def setVel_def setComp_def setNode_def setCtx_def emit_def modify_def)

lemma hp_emit [exec]: "hp (snd (emit e w)) = hp w"
  by (simp add: emit_def modify_def)

lemma bnd_getInternalComponentData [exec]:
  "bnd (getInternalComponentData c) g w =
     (case c_internal (compOf w c) of
        None \<Rightarrow> g newInternalData (snd (setComp c (\<lambda>k. k\<lparr>c_internal := Some newInternalData\<rparr>) w))
      | Some d \<Rightarrow> g d w)"
  by (simp add: getInternalComponentData_def exec split: option.splits)

lemma decideRerender_result:
  "fst (decideRerender E v (Some c) md w)
     = Inr (md = TOP_LEVEL_ELEMENT \<or> c_el (compOf w c) = None
            \<or> e_shouldRerender E c (v_props (velOf w v)) (c_state (compOf w c)) (hp w))"
  by (simp add: decideRerender_def exec split: option.splits)


lemma bnd_fst: "fst (m w) = Inr x \<Longrightarrow> bnd m f w = f x (snd (m w))"
  by (cases "m w") (simp add: bnd_def)

lemma bnd_err: "fst (m w) = Inl e \<Longrightarrow> fst (bnd m f w) = Inl e"
  by (cases "m w") (simp add: bnd_def)

lemma sq_err: "fst (m w) = Inl e \<Longrightarrow> fst (sq m n w) = Inl e"
  unfolding sq_def by (rule bnd_err)

lemma bnd_newContext [exec]:
  "bnd (newContext v) g w =
     g (next_ctx (hp w))
       (w\<lparr>hp := (hp w)\<lparr>ctxs := (ctxs (hp w))(next_ctx (hp w) := blankCtx\<lparr>x_owner := v\<rparr>),
                         next_ctx := Suc (next_ctx (hp w))\<rparr>\<rparr>)"
  by (simp add: newContext_def bnd_def Let_def)

lemma callRender_apply [exec]:
  "callRender E c x w
     = (Inr (fst (e_render E c x (hp w))), w\<lparr>hp := snd (e_render E c x (hp w))\<rparr>)"
  by (simp add: callRender_def split: prod.splits)

lemma tryFinally_ok:
  assumes "\<And>w'. fst (c w') = Inr ()"
  shows "tryFinally m c w = (fst (m w), snd (c (snd (m w))))"
proof -
  obtain r w1 where m: "m w = (r, w1)" by (cases "m w")
  obtain w2 where c: "c w1 = (Inr (), w2)" using assms[of w1] by (cases "c w1") auto
  show ?thesis by (simp add: tryFinally_def m c)
qed

lemma bnd_tryFinally:
  assumes "\<And>w'. fst (c w') = Inr ()"
  shows "bnd (tryFinally m c) g w =
     (case fst (m w) of
        Inl e \<Rightarrow> (Inl e, snd (c (snd (m w))))
      | Inr x \<Rightarrow> g x (snd (c (snd (m w)))))"
  by (simp add: bnd_def tryFinally_ok[OF assms] split: sum.splits)

lemma takeContent_bad [exec]:
  "takeContent v Falsy w = (Inl EmptyRenderResult, w)"
  "takeContent v OtherValue w = (Inl InvalidRenderResult, w)"
  by (simp_all add: takeContent_def throw_def)

lemma hp_contexts [exec]: "hp (snd (pushContext x w)) = hp w" "hp (snd (popContext w)) = hp w"
  by (simp_all add: pushContext_def popContext_def modify_def)

section \<open>Contract violations of render routines\<close>

lemma renderAndDescend_falsy:
  assumes "rendersFalsy E c"
  shows "fst (renderAndDescend E rec n v c w) = Inl EmptyRenderResult"
  using assms unfolding rendersFalsy_def renderAndDescend_def
  by (simp add: exec bnd_tryFinally sq_err)

lemma takeContent_invalid:
  assumes "\<not> v_isVirtualComponent (velOf w cv)" "\<not> v_isVirtualHTMLElement (velOf w cv)"
  shows "fst (takeContent v (Content cv) w) = Inl InvalidRenderResult"
  using assms by (simp add: takeContent_def exec)

lemma renderAndDescend_invalid:
  assumes "rendersInvalid E c"
  shows "fst (renderAndDescend E rec n v c w) = Inl InvalidRenderResult"
proof -
  let ?w1 = "w\<lparr>hp := (hp w)\<lparr>ctxs := (ctxs (hp w))(next_ctx (hp w) := blankCtx\<lparr>x_owner := v\<rparr>),
                         next_ctx := Suc (next_ctx (hp w))\<rparr>\<rparr>"
  let ?x = "next_ctx (hp w)"
  let ?r = "fst (e_render E c ?x (hp ?w1))"
  let ?h = "snd (e_render E c ?x (hp ?w1))"
  let ?w2 = "snd (popContext (snd (pushContext ?x ?w1)\<lparr>hp := ?h\<rparr>))"
  have hp2: "hp ?w2 = ?h" by (simp add: popContext_def modify_def)
  have bad: "case ?r of Falsy \<Rightarrow> False | OtherValue \<Rightarrow> True
      | Content cv \<Rightarrow> \<not> v_isVirtualComponent (vels ?h cv) \<and> \<not> v_isVirtualHTMLElement (vels ?h cv)"
    using assms[unfolded rendersInvalid_def, rule_format, of ?x "hp ?w1"] .
  have tc: "fst (takeContent v ?r ?w2) = Inl InvalidRenderResult"
  proof (cases ?r)
    case Falsy
    then show ?thesis using bad by simp
  next
    case (Content cv)
    then have "\<not> v_isVirtualComponent (velOf ?w2 cv)" "\<not> v_isVirtualHTMLElement (velOf ?w2 cv)"
      using bad unfolding velOf_def hp2 by simp_all
    then show ?thesis unfolding Content by (rule takeContent_invalid)
  next
    case OtherValue
    then show ?thesis by (simp add: exec)
  qed
  show ?thesis
    unfolding renderAndDescend_def
    using tc by (simp add: exec bnd_tryFinally sq_err)
qed


lemma captureStep_bad:
  assumes nc: "\<not> sis w CAPTURED (OVel v)" and vc: "v_comp (velOf w v) = Some c"
    and ic: "v_isVirtualComponent (velOf w v)"
    and need: "md = TOP_LEVEL_ELEMENT \<or> c_el (compOf w c) = None
        \<or> e_shouldRerender E c (v_props (velOf w v)) (c_state (compOf w c)) (hp w)"
    and r: "\<And>w'. fst (renderAndDescend E rec n v c w') = Inl e"
  shows "fst (captureStep E rec n v md w) = Inl e"
proof -
  have dr: "fst (decideRerender E v (Some c) md w) = Inr True"
    using need by (simp add: decideRerender_result)
  show ?thesis
    unfolding captureStep_def
    using nc vc ic by (simp add: exec bnd_fst[of "decideRerender E v (Some c) md" w True, OF dr] sq_err r)
qed

lemma createWrapping_apply:
  "createWrappingVirtualComponent cmp w
     = (Inr (next_vel (hp w)),
        w\<lparr>hp := (hp w)\<lparr>vels := (vels (hp w))(next_vel (hp w) :=
                 blankVel\<lparr>v_isVirtualComponent := True,
                   v_ComponentClass := c_constructor (compOf w cmp), v_comp := Some cmp\<rparr>),
               next_vel := Suc (next_vel (hp w))\<rparr>\<rparr>)"
  by (simp add: createWrappingVirtualComponent_def bnd_def gets_def allocVel_def Let_def sq_def
      setVel_def modify_def ret_def)

lemma render_bad:
  assumes fresh: "\<forall>ob. oinfo w ob (uuid_ctr w) = None"
    and r: "\<And>rec v w'. fst (renderAndDescend E rec n v cmp w') = Inl e"
  shows "fst (render E (Suc n) cmp oldProps oldState adoptElement w) = Inl e"
proof -
  let ?vel = "next_vel (hp w)"
  let ?w4 = "snd (whenM (truthy oldState) (ssetv OLDSTATE (OVel ?vel) oldState)
           (snd (whenM (truthy oldProps) (ssetv OLDPROPS (OVel ?vel) oldProps)
             (snd (createState (snd (createWrappingVirtualComponent cmp w)))))))"
  let ?w5 = "?w4\<lparr>engine_state := Some (sid (st ?w4))\<rparr>"
  have nc: "\<not> sis ?w5 CAPTURED (OVel ?vel)"
    using fresh
    by (simp add: createWrapping_apply createState_def modify_def whenM_def ret_def ssetv_def
        sset_def sis_def sget_def Let_def)
  have vl: "velOf ?w5 ?vel = blankVel\<lparr>v_isVirtualComponent := True,
                   v_ComponentClass := c_constructor (compOf w cmp), v_comp := Some cmp\<rparr>"
    by (simp add: createWrapping_apply createState_def modify_def whenM_def ret_def ssetv_def
        sset_def velOf_def Let_def split: option.splits)
  have "fst (capture E (Suc n) ?vel TOP_LEVEL_ELEMENT ?w5) = Inl e"
    using nc vl r by (simp add: capture.simps captureStep_bad)
  then have "fst (renderTry E (Suc n) cmp ?vel adoptElement ?w4) = Inl e"
    unfolding renderTry_def by (simp add: sq_ok fst_modify sq_err modify_def)
  then show ?thesis
    unfolding render_prelude by (simp add: tryFinally_ok renderFinally_ok)
qed

text \<open>
  Claim C3. Whenever capturing a virtual component calls the render routine of its
  component and that routine returns a falsy value, the capture fails with
  \<open>EmptyRenderResult\<close>; when the routine returns a value that is neither a component
  descriptor nor an element descriptor, the capture fails with \<open>InvalidRenderResult\<close>.
  For the root of a pass, \<open>_render\<close> then fails with the same error, and the tags stored
  on the objects are as before the pass, provided the identifier of the new rendering
  state is fresh.
\<close>

theorem render_contract_violation:
  "(rendersFalsy E c \<longrightarrow>
      (rerenders E w v c md \<longrightarrow> fst (capture E (Suc n) v md w) = Inl EmptyRenderResult)
      \<and> ((\<forall>ob. oinfo w ob (uuid_ctr w) = None) \<longrightarrow>
           fst (render E (Suc n) c oldProps oldState adoptElement w) = Inl EmptyRenderResult
           \<and> oinfo (snd (render E (Suc n) c oldProps oldState adoptElement w)) = oinfo w))
   \<and> (rendersInvalid E c \<longrightarrow>
      (rerenders E w v c md \<longrightarrow> fst (capture E (Suc n) v md w) = Inl InvalidRenderResult)
      \<and> ((\<forall>ob. oinfo w ob (uuid_ctr w) = None) \<longrightarrow>
           fst (render E (Suc n) c oldProps oldState adoptElement w) = Inl InvalidRenderResult
           \<and> oinfo (snd (render E (Suc n) c oldProps oldState adoptElement w)) = oinfo w))"
proof -
  have cap: "fst (capture E (Suc n) v md w) = Inl e"
    if "rerenders E w v c md" and "\<And>rec n v w'. fst (renderAndDescend E rec n v c w') = Inl e" for e
    using that unfolding rerenders_def by (simp add: capture.simps captureStep_bad)
  show ?thesis
    using cap[of EmptyRenderResult] cap[of InvalidRenderResult]
      render_bad[of w E n c EmptyRenderResult oldProps oldState adoptElement]
      render_bad[of w E n c InvalidRenderResult oldProps oldState adoptElement]
      render_oinfo[of w E "Suc n" c oldProps oldState adoptElement]
      renderAndDescend_falsy[of E c] renderAndDescend_invalid[of E c]
    by blast
qed

theorem render_contract_violation_witness:
  "rendersFalsy falsyEnv 0 \<and> rendersInvalid textEnv 0
   \<and> rerenders falsyEnv wrapWorld 0 0 NoMode \<and> rerenders textEnv wrapWorld 0 0 NoMode
   \<and> (\<forall>ob. oinfo wrapWorld ob (uuid_ctr wrapWorld) = None)
   \<and> fst (capture falsyEnv (Suc 2) 0 NoMode wrapWorld) = Inl EmptyRenderResult
   \<and> fst (render falsyEnv (Suc 2) 0 Undefined Undefined False wrapWorld) = Inl EmptyRenderResult
   \<and> oinfo (snd (render falsyEnv (Suc 2) 0 Undefined Undefined False wrapWorld)) = oinfo wrapWorld
   \<and> fst (capture textEnv (Suc 2) 0 NoMode wrapWorld) = Inl InvalidRenderResult
   \<and> fst (render textEnv (Suc 2) 0 Undefined Undefined True wrapWorld) = Inl InvalidRenderResult
   \<and> oinfo (snd (render textEnv (Suc 2) 0 Undefined Undefined True wrapWorld)) = oinfo wrapWorld"
proof -
  have f: "rendersFalsy falsyEnv 0"
    by (simp add: rendersFalsy_def falsyEnv_def)
  have i: "rendersInvalid textEnv 0"
    by (simp add: rendersInvalid_def textEnv_def renderText_def allocV_def blankVel_def Let_def)
  have r: "rerenders falsyEnv wrapWorld 0 0 NoMode" "rerenders textEnv wrapWorld 0 0 NoMode"
    by (simp_all add: rerenders_def wrapWorld_def rootWorld_def emptyWorld_def emptyHeap_def
        blankVel_def blankComp_def sis_def sget_def velOf_def compOf_def falsyEnv_def textEnv_def)
  have fr: "\<forall>ob. oinfo wrapWorld ob (uuid_ctr wrapWorld) = None"
    by (simp add: wrapWorld_def rootWorld_def emptyWorld_def)
  show ?thesis
    using f i r fr
      render_contract_violation[of falsyEnv 0 wrapWorld 0 NoMode 2 Undefined Undefined False]
      render_contract_violation[of textEnv 0 wrapWorld 0 NoMode 2 Undefined Undefined True]
    by simp
qed

section \<open>Disposal of removed and replaced children\<close>

lemma log_whenM: "log (snd (whenM b m w)) = (if b then log (snd (m w)) else log w)"
  by (simp add: whenM_def ret_def)










section \<open>Linking descriptors to prior instances\<close>

lemma link_props:
  "fst (link c vc w) = Inr ()" "linkedTo (snd (link c vc w)) vc c" "log (snd (link c vc w)) = log w"
  "compOf (snd (link c vc w)) = compOf w"
  by (simp_all add: link_def linkedTo_def exec)

lemma reject_props:
  "fst (reject cmp vc w) = Inr ()" "rejected (snd (reject cmp vc w)) vc"
  "cmp = Some c \<Longrightarrow> sis (snd (reject cmp vc w)) MAPPED (OComp c)"
  "log (snd (reject cmp vc w)) = log w" "compOf (snd (reject cmp vc w)) = compOf w"
  by (simp_all add: reject_def rejected_def exec split: option.splits)

lemma isLinked_props:
  "fst (isLinked c vc w) = Inr (v_comp (velOf w vc) = Some c)"
  "log (snd (isLinked c vc w)) = log w" "compOf (snd (isLinked c vc w)) = compOf w"
  "v_comp (velOf w vc) \<noteq> Some c \<Longrightarrow> snd (isLinked c vc w) = w"
  "v_comp (velOf w vc) = Some c \<Longrightarrow> sis (snd (isLinked c vc w)) LINKED (OVel vc)"
  "velOf (snd (isLinked c vc w)) = velOf w"
  by (simp_all add: isLinked_def exec)

lemma linkComponent_none:
  "fst (linkComponent None vc w) = Inr ()" "rejected (snd (linkComponent None vc w)) vc"
  by (simp_all add: linkComponent_def reject_props)

lemma linkComponent_mapped:
  "isMapped w c vc \<Longrightarrow> linkComponent (Some c) vc w = (Inr (), w)"
  by (simp add: linkComponent_def exec)

lemma linkComponent_unmapped:
  assumes "\<not> isMapped w c vc" "v_comp (velOf w vc) \<noteq> Some c"
  shows "linkComponent (Some c) vc w = (if isOfSameType w c vc then link c vc w else reject (Some c) vc w)"
  using assms
  by (simp add: linkComponent_def exec bnd_fst[of "isLinked c vc" w False] isLinked_props)

lemma linkComponent_repair:
  assumes "\<not> isMapped w c vc" "v_comp (velOf w vc) = Some c"
  shows "linkComponent (Some c) vc w = (Inr (), snd (isLinked c vc w))"
  using assms
  by (simp add: linkComponent_def exec bnd_fst[of "isLinked c vc" w True] isLinked_props)

lemma linkComponent_quiet:
  "fst (linkComponent cmp vc w) = Inr ()
   \<and> log (snd (linkComponent cmp vc w)) = log w
   \<and> compOf (snd (linkComponent cmp vc w)) = compOf w"
proof (cases cmp)
  case None
  then show ?thesis by (simp add: linkComponent_def reject_props)
next
  case (Some c)
  show ?thesis
  proof (cases "isMapped w c vc")
    case True
    then show ?thesis using Some by (simp add: linkComponent_mapped)
  next
    case False
    then show ?thesis using Some
      by (cases "v_comp (velOf w vc) = Some c")
        (simp_all add: linkComponent_repair linkComponent_unmapped link_props reject_props isLinked_props)
  qed
qed

lemma addEntries_lookup:
  assumes "(rf, vc) \<in> set newRefs"
  shows "(vc, case map_of oldRefs rf of None \<Rightarrow> None | Some oldVc \<Rightarrow> v_comp (velOf w oldVc))
           \<in> set (addEntries w newRefs oldRefs)"
  using assms by (force simp: addEntries_def)

lemma addEntries_fst: "map fst (addEntries w newRefs oldRefs) = map snd newRefs"
  by (simp add: addEntries_def split_def)

lemma next_comp_setters:
  "next_comp (hp (snd (setVel v f w))) = next_comp (hp w)"
  "next_comp (hp (snd (tagOn k ob w))) = next_comp (hp w)"
  by (simp_all add: setVel_def modify_def exec)

lemma linkComponent_creates_nothing:
  "next_comp (hp (snd (linkComponent cmp vc w))) = next_comp (hp w)"
proof (cases cmp)
  case None
  then show ?thesis by (simp add: linkComponent_def reject_def exec next_comp_setters)
next
  case (Some c)
  show ?thesis
  proof (cases "isMapped w c vc")
    case True
    then show ?thesis using Some by (simp add: linkComponent_mapped)
  next
    case False
    then show ?thesis using Some
      by (cases "v_comp (velOf w vc) = Some c")
        (simp_all add: linkComponent_repair linkComponent_unmapped link_def reject_def
          isLinked_def exec next_comp_setters)
  qed
qed

text \<open>
  Claim C1, amended. \<open>_forEachComponent\<close> pairs every descriptor of a new reference
  map with the instance that the old map of the same kind holds under the same reference,
  wherever the descriptor stands in the map. \<open>_linkComponent\<close> always returns, fires
  nothing, and creates and changes no instance. With no instance, the descriptor is marked
  rejected and gets no instance. When the descriptor or the instance is already mapped,
  nothing changes at all. When neither is mapped and the descriptor does not refer to the
  instance yet, it is linked to the instance if their types are the same, and otherwise it
  is marked rejected, gets no instance, and the instance is marked mapped. When neither is
  mapped and the descriptor refers to the instance already, it keeps it and is tagged linked.
\<close>

theorem linkComponent_cases:
  "fst (linkComponent cmp vc w) = Inr ()
   \<and> log (snd (linkComponent cmp vc w)) = log w
   \<and> compOf (snd (linkComponent cmp vc w)) = compOf w
   \<and> next_comp (hp (snd (linkComponent cmp vc w))) = next_comp (hp w)
   \<and> rejected (snd (linkComponent None vc w)) vc
   \<and> (isMapped w c vc \<longrightarrow> snd (linkComponent (Some c) vc w) = w)
   \<and> (\<not> isMapped w c vc \<and> v_comp (velOf w vc) \<noteq> Some c \<and> isOfSameType w c vc \<longrightarrow>
        linkedTo (snd (linkComponent (Some c) vc w)) vc c)
   \<and> (\<not> isMapped w c vc \<and> v_comp (velOf w vc) \<noteq> Some c \<and> \<not> isOfSameType w c vc \<longrightarrow>
        rejected (snd (linkComponent (Some c) vc w)) vc
        \<and> sis (snd (linkComponent (Some c) vc w)) MAPPED (OComp c))
   \<and> (\<not> isMapped w c vc \<and> v_comp (velOf w vc) = Some c \<longrightarrow>
        v_comp (velOf (snd (linkComponent (Some c) vc w)) vc) = Some c
        \<and> sis (snd (linkComponent (Some c) vc w)) LINKED (OVel vc))
   \<and> map fst (addEntries w newRefs oldRefs) = map snd newRefs
   \<and> ((rf, vc) \<in> set newRefs \<and> map_of oldRefs rf = Some oldVc \<longrightarrow>
        (vc, v_comp (velOf w oldVc)) \<in> set (addEntries w newRefs oldRefs))"
proof -
  have a: "(rf, vc) \<in> set newRefs \<and> map_of oldRefs rf = Some oldVc \<longrightarrow>
        (vc, v_comp (velOf w oldVc)) \<in> set (addEntries w newRefs oldRefs)"
    using addEntries_lookup[where rf=rf and vc=vc and newRefs=newRefs and oldRefs=oldRefs and w=w]
    by auto
  show ?thesis
    using a linkComponent_quiet[of cmp vc w] linkComponent_creates_nothing[of cmp vc w]
      linkComponent_none(2)[of vc w] linkComponent_mapped[of w c vc]
      linkComponent_unmapped[of w c vc] linkComponent_repair[of w c vc]
      link_props(2)[of c vc w] reject_props(2)[where cmp="Some c" and vc=vc and w=w]
      reject_props(3)[where cmp="Some c" and vc=vc and w=w and c=c]
      isLinked_props(5)[where c=c and vc=vc and w=w] isLinked_props(6)[where c=c and vc=vc and w=w]
      addEntries_fst[where w=w and newRefs=newRefs and oldRefs=oldRefs]
    by simp
qed

theorem linkComponent_cases_witness:
  "isMapped (snd (link 0 0 twinWorld)) 0 1
   \<and> snd (linkComponent (Some 0) 1 (snd (link 0 0 twinWorld))) = snd (link 0 0 twinWorld)
   \<and> \<not> isMapped twinWorld 0 0 \<and> v_comp (velOf twinWorld 0) \<noteq> Some 0 \<and> isOfSameType twinWorld 0 0
   \<and> linkedTo (snd (linkComponent (Some 0) 0 twinWorld)) 0 0
   \<and> \<not> isMapped twinWorld 0 2 \<and> v_comp (velOf twinWorld 2) \<noteq> Some 0 \<and> \<not> isOfSameType twinWorld 0 2
   \<and> rejected (snd (linkComponent (Some 0) 2 twinWorld)) 2
   \<and> sis (snd (linkComponent (Some 0) 2 twinWorld)) MAPPED (OComp 0)
   \<and> \<not> isMapped twinWorld 0 3 \<and> v_comp (velOf twinWorld 3) = Some 0
   \<and> v_comp (velOf (snd (linkComponent (Some 0) 3 twinWorld)) 3) = Some 0
   \<and> sis (snd (linkComponent (Some 0) 3 twinWorld)) LINKED (OVel 3)
   \<and> (''foo'', 0) \<in> set [(''a'', 1), (''foo'', 0)] \<and> map_of [(''foo'', 3)] ''foo'' = Some 3
   \<and> (0, Some 0) \<in> set (addEntries twinWorld [(''a'', 1), (''foo'', 0)] [(''foo'', 3)])"
proof -
  have m: "isMapped (snd (link 0 0 twinWorld)) 0 1"
    using link_props(2)[of 0 0 twinWorld] by (simp add: isMapped_def linkedTo_def)
  have t: "\<not> isMapped twinWorld 0 0" "v_comp (velOf twinWorld 0) \<noteq> Some 0" "isOfSameType twinWorld 0 0"
    "\<not> isMapped twinWorld 0 2" "v_comp (velOf twinWorld 2) \<noteq> Some 0" "\<not> isOfSameType twinWorld 0 2"
    "\<not> isMapped twinWorld 0 3" "v_comp (velOf twinWorld 3) = Some 0"
    by (simp_all add: twinWorld_def rootCls_def pure_defs)
  show ?thesis
    using m t
      linkComponent_cases[of "Some 0" 1 "snd (link 0 0 twinWorld)" 0 "[]" "[]" "''a''" 0]
      linkComponent_cases[of "Some 0" 0 twinWorld 0 "[(''a'', 1), (''foo'', 0)]" "[(''foo'', 3)]" "''foo''" 3]
      linkComponent_cases[of "Some 0" 2 twinWorld 0 "[]" "[]" "''a''" 0]
      linkComponent_cases[of "Some 0" 3 twinWorld 0 "[]" "[]" "''a''" 0]
    by simp
qed

text \<open>
  Two descriptors of the same type meet the same prior instance. The first is linked to
  it; the second is neither linked nor marked rejected.
\<close>

theorem linkComponent_counterexample:
  "isOfSameType twinWorld 0 1 \<and> \<not> sis twinWorld MAPPED (OVel 1)
   \<and> linkedTo (snd (linkComponent (Some 0) 0 twinWorld)) 0 0
   \<and> v_comp (velOf (snd (sq (linkComponent (Some 0) 0) (linkComponent (Some 0) 1) twinWorld)) 1) = None
   \<and> \<not> sis (snd (sq (linkComponent (Some 0) 0) (linkComponent (Some 0) 1) twinWorld)) MAPPED (OVel 1)
   \<and> \<not> rejected (snd (sq (linkComponent (Some 0) 0) (linkComponent (Some 0) 1) twinWorld)) 1"
  by (simp add: twinWorld_def rootCls_def rejected_def linkedTo_def run_defs pure_defs Let_def
      cong: ev_cong)

section \<open>Relocation\<close>

lemma compChainEnds_None [simp]: "compChainEnds k w None"
  by (cases k) simp_all




















section \<open>The update notification\<close>

lemma sameButLog_refl: "sameButLog w w"
  by (simp add: sameButLog_def)

lemma sameButLog_trans: "sameButLog w w1 \<Longrightarrow> sameButLog w1 w2 \<Longrightarrow> sameButLog w w2"
  by (simp add: sameButLog_def)

lemma sameButLog_reads:
  assumes "sameButLog w w'"
  shows "sis w' = sis w" "sget w' = sget w" "velOf w' = velOf w" "compOf w' = compOf w"
  using assms by (simp_all add: sameButLog_def fun_eq_iff sis_def sget_def velOf_def compOf_def)

lemma sameButLog_emit: "sameButLog w (snd (emit e w))"
  by (simp add: sameButLog_def emit_def modify_def)

lemma snd_sq: "snd (sq m n w) = (case fst (m w) of Inl e \<Rightarrow> snd (m w) | Inr x \<Rightarrow> snd (n (snd (m w))))"
  by (cases "m w") (simp add: sq_def bnd_def split: sum.splits)

lemma fst_sq: "fst (sq m n w) = (case fst (m w) of Inl e \<Rightarrow> Inl e | Inr x \<Rightarrow> fst (n (snd (m w))))"
  by (cases "m w") (simp add: sq_def bnd_def split: sum.splits)

lemma forEach_appends:
  assumes f: "\<And>x w'. sameButLog w w' \<Longrightarrow>
      \<exists>es. sameButLog w (snd (f x w')) \<and> log (snd (f x w')) = log w' @ es \<and> (\<forall>e\<in>set es. N e)"
  shows "sameButLog w w' \<Longrightarrow>
      \<exists>es. sameButLog w (snd (forEach f xs w')) \<and> log (snd (forEach f xs w')) = log w' @ es
         \<and> (\<forall>e\<in>set es. N e)"
proof (induction xs arbitrary: w')
  case Nil
  then show ?case by (simp add: ret_def)
next
  case (Cons x xs)
  from f[OF Cons.prems] obtain es1 where
    a: "sameButLog w (snd (f x w'))" "log (snd (f x w')) = log w' @ es1" "\<forall>e\<in>set es1. N e"
    by blast
  show ?case
  proof (cases "fst (f x w')")
    case (Inl e)
    then show ?thesis using a by (auto simp: snd_sq)
  next
    case (Inr u)
    from Cons.IH[OF a(1)] obtain es2 where
      b: "sameButLog w (snd (forEach f xs (snd (f x w'))))"
       "log (snd (forEach f xs (snd (f x w')))) = log (snd (f x w')) @ es2" "\<forall>e\<in>set es2. N e"
      by blast
    have "log (snd (forEach f xs (snd (f x w')))) = log w' @ (es1 @ es2)"
      using a b by simp
    moreover have "\<forall>e\<in>set (es1 @ es2). N e" using a b by auto
    ultimately show ?thesis using Inr b(1) by (auto simp: snd_sq)
  qed
qed


text \<open>The last part of \<open>_triggerDidUpdate\<close> for a component: its own notification.\<close>

lemma ownNotice:
  fixes v :: vid
  defines "own \<equiv> bnd (gets (\<lambda>w. sis w UPDATED (OVel v))) (\<lambda>updated.
       whenM updated
         (bnd (gets (\<lambda>w. v_comp (velOf w v))) (\<lambda>cmp.
          bnd (deref cmp) (\<lambda>c.
          bnd (gets (\<lambda>w. (sget w OLDPROPS (OVel v), sget w OLDSTATE (OVel v)))) (\<lambda>(oldProps, oldState).
          compDidUpdate c oldProps oldState)))))"
  shows "\<not> sis w UPDATED (OVel v) \<Longrightarrow> own w = (Inr (), w)"
    and "sis w UPDATED (OVel v) \<Longrightarrow> v_comp (velOf w v) = None \<Longrightarrow> own w = (Inl TypeError, w)"
    and "sis w UPDATED (OVel v) \<Longrightarrow> v_comp (velOf w v) = Some c \<Longrightarrow>
          own w = emit (DidUpdate c (sget w OLDPROPS (OVel v)) (sget w OLDSTATE (OVel v))) w"
  unfolding own_def by (simp_all add: exec compDidUpdate_def)

lemma triggerDidUpdateStep_component:
  assumes "v_isVirtualComponent (velOf w v)"
  shows "triggerDidUpdateStep rec v w
    = sq (whenM (\<not> sis w SKIPPED (OVel v)) (forEach rec (v_children (velOf w v))))
        (bnd (gets (\<lambda>w. sis w UPDATED (OVel v))) (\<lambda>updated.
       whenM updated
         (bnd (gets (\<lambda>w. v_comp (velOf w v))) (\<lambda>cmp.
          bnd (deref cmp) (\<lambda>c.
          bnd (gets (\<lambda>w. (sget w OLDPROPS (OVel v), sget w OLDSTATE (OVel v)))) (\<lambda>(oldProps, oldState).
          compDidUpdate c oldProps oldState)))))) w"
  using assms by (simp add: triggerDidUpdateStep_def bnd_gets)

lemma triggerDidUpdateStep_appends:
  assumes rec: "\<And>x w'. sameButLog w w' \<Longrightarrow>
      \<exists>es. sameButLog w (snd (rec x w')) \<and> log (snd (rec x w')) = log w' @ es
         \<and> (\<forall>e\<in>set es. updateNotice w e)"
    and s: "sameButLog w w'"
  shows "\<exists>es. sameButLog w (snd (triggerDidUpdateStep rec v w'))
         \<and> log (snd (triggerDidUpdateStep rec v w')) = log w' @ es
         \<and> (\<forall>e\<in>set es. updateNotice w e)"
proof -
  have r: "sis w' = sis w" "sget w' = sget w" "velOf w' = velOf w"
    using sameButLog_reads[OF s] by auto
  show ?thesis
  proof (cases "v_isVirtualComponent (velOf w v)")
    case True
    let ?m1 = "whenM (\<not> sis w' SKIPPED (OVel v)) (forEach rec (v_children (velOf w' v)))"
    have "\<exists>es. sameButLog w (snd (?m1 w')) \<and> log (snd (?m1 w')) = log w' @ es
         \<and> (\<forall>e\<in>set es. updateNotice w e)"
    proof (cases "sis w' SKIPPED (OVel v)")
      case True
      then show ?thesis using s by (simp add: whenM_def ret_def)
    next
      case False
      then show ?thesis
        using forEach_appends[of w rec "updateNotice w" w' "v_children (velOf w' v)", OF rec s]
        by (simp add: whenM_def)
    qed
    then obtain es1 where a: "sameButLog w (snd (?m1 w'))" "log (snd (?m1 w')) = log w' @ es1"
      "\<forall>e\<in>set es1. updateNotice w e" by blast
    let ?w1 = "snd (?m1 w')"
    have r1: "sis ?w1 = sis w" "sget ?w1 = sget w" "velOf ?w1 = velOf w"
      using sameButLog_reads[OF a(1)] by auto
    have e: "snd (triggerDidUpdateStep rec v w') = ?w1
      \<or> (\<exists>c. sis w UPDATED (OVel v) \<and> v_comp (velOf w v) = Some c
            \<and> snd (triggerDidUpdateStep rec v w')
               = snd (emit (DidUpdate c (sget w OLDPROPS (OVel v)) (sget w OLDSTATE (OVel v))) ?w1))"
    proof (cases "fst (?m1 w')")
      case (Inl x)
      then show ?thesis using True r
        by (simp add: triggerDidUpdateStep_component snd_sq)
    next
      case (Inr u)
      show ?thesis
      proof (cases "sis w UPDATED (OVel v)")
        case False
        then show ?thesis using True r Inr r1
          by (simp add: triggerDidUpdateStep_component snd_sq ownNotice(1))
      next
        case U: True
        show ?thesis
        proof (cases "v_comp (velOf w v)")
          case None
          then show ?thesis using True r Inr r1 U
            by (simp add: triggerDidUpdateStep_component snd_sq ownNotice(2))
        next
          case (Some c)
          then show ?thesis using True r Inr r1 U
            by (simp add: triggerDidUpdateStep_component snd_sq ownNotice(3)[where c=c])
        qed
      qed
    qed
    show ?thesis
    proof (rule disjE[OF e])
      assume "snd (triggerDidUpdateStep rec v w') = ?w1"
      then show ?thesis using a by auto
    next
      assume "\<exists>c. sis w UPDATED (OVel v) \<and> v_comp (velOf w v) = Some c
            \<and> snd (triggerDidUpdateStep rec v w')
               = snd (emit (DidUpdate c (sget w OLDPROPS (OVel v)) (sget w OLDSTATE (OVel v))) ?w1)"
      then obtain c where c: "sis w UPDATED (OVel v)" "v_comp (velOf w v) = Some c"
        "snd (triggerDidUpdateStep rec v w')
               = snd (emit (DidUpdate c (sget w OLDPROPS (OVel v)) (sget w OLDSTATE (OVel v))) ?w1)"
        by blast
      let ?e = "DidUpdate c (sget w OLDPROPS (OVel v)) (sget w OLDSTATE (OVel v))"
      have n: "updateNotice w ?e" using True c by (auto simp: updateNotice_def)
      have "sameButLog w (snd (emit ?e ?w1))"
        using a(1) sameButLog_emit[of ?w1 ?e] by (rule sameButLog_trans)
      moreover have "log (snd (emit ?e ?w1)) = log w' @ (es1 @ [?e])"
        using a(2) by (simp add: exec)
      moreover have "\<forall>x\<in>set (es1 @ [?e]). updateNotice w x" using a(3) n by auto
      ultimately show ?thesis unfolding c(3) by blast
    qed
  next
    case False
    show ?thesis
    proof (cases "v_isVirtualHTMLElement (velOf w v)")
      case True
      then show ?thesis
        using False r forEach_appends[of w rec "updateNotice w" w' "v_children (velOf w v)", OF rec s]
        by (simp add: triggerDidUpdateStep_def bnd_gets)
    next
      case H: False
      then show ?thesis using False r s
        by (simp add: triggerDidUpdateStep_def bnd_gets ret_def)
    qed
  qed
qed

lemma triggerDidUpdate_appends:
  "sameButLog w w' \<Longrightarrow>
     \<exists>es. sameButLog w (snd (triggerDidUpdate n v w'))
         \<and> log (snd (triggerDidUpdate n v w')) = log w' @ es
         \<and> (\<forall>e\<in>set es. updateNotice w e)"
proof (induction n arbitrary: v w')
  case 0
  then show ?case by (simp add: triggerDidUpdate.simps throw_def)
next
  case (Suc n)
  show ?case
    unfolding triggerDidUpdate.simps(2)
  proof (rule triggerDidUpdateStep_appends[where w=w])
    fix x w'' assume "sameButLog w w''"
    then show "\<exists>es. sameButLog w (snd (triggerDidUpdate n x w''))
         \<and> log (snd (triggerDidUpdate n x w'')) = log w'' @ es
         \<and> (\<forall>e\<in>set es. updateNotice w e)"
      by (rule Suc.IH)
  next
    show "sameButLog w w'" by (rule Suc.prems)
  qed
qed


lemma emitted_append: "log (snd (m w)) = log w @ es \<Longrightarrow> emitted m w = es"
  by (simp add: emitted_def)

lemma triggerDidUpdate_only_updated:
  assumes "e \<in> set (emitted (triggerDidUpdate n v) w)"
  shows "updateNotice w e"
proof -
  from triggerDidUpdate_appends[OF sameButLog_refl, of w n v] obtain es where
    a: "log (snd (triggerDidUpdate n v w)) = log w @ es" "\<forall>e\<in>set es. updateNotice w e"
    by blast
  show ?thesis using assms a by (simp add: emitted_append[of "triggerDidUpdate n v" w es])
qed

lemma triggerDidUpdate_children_first:
  assumes c: "v_isVirtualComponent (velOf w v)" and u: "sis w UPDATED (OVel v)"
    and vc: "v_comp (velOf w v) = Some c"
    and ok: "fst (triggerDidUpdate (Suc n) v w) = Inr ()"
  shows "emitted (triggerDidUpdate (Suc n) v) w
     = emitted (forEach (triggerDidUpdate n)
          (if sis w SKIPPED (OVel v) then [] else v_children (velOf w v))) w
       @ [DidUpdate c (sget w OLDPROPS (OVel v)) (sget w OLDSTATE (OVel v))]"
proof -
  let ?xs = "if sis w SKIPPED (OVel v) then [] else v_children (velOf w v)"
  let ?m1 = "whenM (\<not> sis w SKIPPED (OVel v)) (forEach (triggerDidUpdate n) (v_children (velOf w v)))"
  let ?e = "DidUpdate c (sget w OLDPROPS (OVel v)) (sget w OLDSTATE (OVel v))"
  have m1: "?m1 = forEach (triggerDidUpdate n) ?xs" by (simp add: whenM_def)
  have rec: "\<And>x w'. sameButLog w w' \<Longrightarrow>
      \<exists>es. sameButLog w (snd (triggerDidUpdate n x w')) \<and> log (snd (triggerDidUpdate n x w')) = log w' @ es
         \<and> (\<forall>e\<in>set es. updateNotice w e)"
    by (rule triggerDidUpdate_appends)
  from forEach_appends[of w "triggerDidUpdate n" "updateNotice w" w ?xs, OF rec sameButLog_refl]
  obtain es1 where a: "sameButLog w (snd (?m1 w))" "log (snd (?m1 w)) = log w @ es1"
    unfolding m1 by blast
  let ?w1 = "snd (?m1 w)"
  have r1: "sis ?w1 = sis w" "sget ?w1 = sget w" "velOf ?w1 = velOf w"
    using sameButLog_reads[OF a(1)] by auto
  have f: "fst (?m1 w) = Inr ()"
    using ok c by (cases "fst (?m1 w)") (simp_all add: triggerDidUpdate.simps(2) triggerDidUpdateStep_component fst_sq)
  have "snd (triggerDidUpdate (Suc n) v w) = snd (emit ?e ?w1)"
    using c f r1 u vc
    by (simp add: triggerDidUpdate.simps(2) triggerDidUpdateStep_component snd_sq ownNotice(3)[where c=c])
  then have "log (snd (triggerDidUpdate (Suc n) v w)) = log w @ (es1 @ [?e])"
    using a(2) by (simp add: exec)
  then have "emitted (triggerDidUpdate (Suc n) v) w = es1 @ [?e]" by (rule emitted_append)
  moreover have "emitted (forEach (triggerDidUpdate n) ?xs) w = es1"
    using a(2) unfolding m1 by (rule emitted_append)
  ultimately show ?thesis by simp
qed

lemma next_ctx_setters:
  "next_ctx (hp (snd (setVel v f w))) = next_ctx (hp w)"
  "next_ctx (hp (snd (setComp c g w))) = next_ctx (hp w)"
  by (simp_all add: setVel_def setComp_def modify_def)

lemma capture_skipped:
  assumes "\<not> sis w CAPTURED (OVel v)" "v_isVirtualComponent (velOf w v)"
    "v_comp (velOf w v) = Some c" "c_el (compOf w c) = Some el"
    "\<not> e_shouldRerender E c (v_props (velOf w v)) (c_state (compOf w c)) (hp w)"
    "\<not> sis w NEW (OVel v)"
  shows "fst (capture E (Suc n) v NoMode w) = Inr ()"
    and "sis (snd (capture E (Suc n) v NoMode w)) SKIPPED (OVel v)"
    and "sis (snd (capture E (Suc n) v NoMode w)) UPDATED (OVel v)"
    and "emitted (capture E (Suc n) v NoMode) w = [WillReceiveProps c (v_props (velOf w v))]"
    and "next_ctx (hp (snd (capture E (Suc n) v NoMode w))) = next_ctx (hp w)"
    and "v_isVirtualComponent (velOf (snd (capture E (Suc n) v NoMode w)) v)"
    and "v_comp (velOf (snd (capture E (Suc n) v NoMode w)) v) = Some c"
  using assms
  by (simp_all add: capture.simps(2) captureStep_def decideRerender_def setProps_def exec emitted_def
      next_ctx_setters)


lemma sget_ssetv:
  "sget (snd (ssetv k ob v w)) k' ob'
     = (if ob' = ob \<and> k' = k then (if v = Undefined then JBool True else v) else sget w k' ob')"
  by (simp add: ssetv_def sget_sset)

lemma capture_skipped_old:
  assumes "\<not> sis w CAPTURED (OVel v)" "v_isVirtualComponent (velOf w v)"
    "v_comp (velOf w v) = Some c" "c_el (compOf w c) = Some el"
    "\<not> e_shouldRerender E c (v_props (velOf w v)) (c_state (compOf w c)) (hp w)"
    "\<not> sis w NEW (OVel v)"
  shows "sget (snd (capture E (Suc n) v NoMode w)) OLDPROPS (OVel v)
           = (if c_props (compOf w c) = Undefined then JBool True else c_props (compOf w c))"
    and "sget (snd (capture E (Suc n) v NoMode w)) OLDSTATE (OVel v)
           = (if c_state (compOf w c) = Undefined then JBool True else c_state (compOf w c))"
  using assms
  by (simp_all add: capture.simps(2) captureStep_def decideRerender_def setProps_def exec sget_ssetv)

lemma triggerDidUpdate_skipped:
  assumes "v_isVirtualComponent (velOf w v)" "sis w UPDATED (OVel v)" "sis w SKIPPED (OVel v)"
    "v_comp (velOf w v) = Some c"
  shows "emitted (triggerDidUpdate (Suc m) v) w
           = [DidUpdate c (sget w OLDPROPS (OVel v)) (sget w OLDSTATE (OVel v))]"
proof -
  have ok: "fst (triggerDidUpdate (Suc m) v w) = Inr ()"
    using assms
    by (simp add: triggerDidUpdate.simps(2) triggerDidUpdateStep_component fst_sq whenM_def ret_def
        compDidUpdate_def exec)
  show ?thesis
    using triggerDidUpdate_children_first[OF assms(1,2,4) ok] assms(3)
    by (simp add: emitted_def ret_def)
qed

text \<open>
  Claim C6, amended. The update notification fires only for the instance of a virtual
  component tagged as updated, with the old props and the old state recorded for it. For
  such a component it is the last event of the traversal, after everything the traversals
  of its children emit; the children of a skipped component are not traversed. The tag
  does not mean that the component was rendered again: a component that existed before
  the pass, has a node and declines to render again is tagged skipped and updated, its
  render routine is not called, and it still receives the notification.
\<close>

theorem update_notice_order:
  "(e \<in> set (emitted (triggerDidUpdate n v) w) \<longrightarrow> updateNotice w e)
   \<and> (v_isVirtualComponent (velOf w v) \<and> sis w UPDATED (OVel v)
        \<and> v_comp (velOf w v) = Some c \<and> fst (triggerDidUpdate (Suc n) v w) = Inr () \<longrightarrow>
        emitted (triggerDidUpdate (Suc n) v) w
          = emitted (forEach (triggerDidUpdate n)
              (if sis w SKIPPED (OVel v) then [] else v_children (velOf w v))) w
            @ [DidUpdate c (sget w OLDPROPS (OVel v)) (sget w OLDSTATE (OVel v))])
   \<and> (\<not> sis w CAPTURED (OVel v) \<and> \<not> sis w NEW (OVel v) \<and> v_isVirtualComponent (velOf w v)
        \<and> v_comp (velOf w v) = Some c \<and> c_el (compOf w c) = Some el
        \<and> \<not> e_shouldRerender E c (v_props (velOf w v)) (c_state (compOf w c)) (hp w) \<longrightarrow>
        fst (capture E (Suc n) v NoMode w) = Inr ()
        \<and> sis (snd (capture E (Suc n) v NoMode w)) SKIPPED (OVel v)
        \<and> sis (snd (capture E (Suc n) v NoMode w)) UPDATED (OVel v)
        \<and> next_ctx (hp (snd (capture E (Suc n) v NoMode w))) = next_ctx (hp w)
        \<and> emitted (capture E (Suc n) v NoMode) w = [WillReceiveProps c (v_props (velOf w v))]
        \<and> emitted (triggerDidUpdate (Suc m) v) (snd (capture E (Suc n) v NoMode w))
            = [DidUpdate c
                (if c_props (compOf w c) = Undefined then JBool True else c_props (compOf w c))
                (if c_state (compOf w c) = Undefined then JBool True else c_state (compOf w c))])"
proof -
  have a: "e \<in> set (emitted (triggerDidUpdate n v) w) \<longrightarrow> updateNotice w e"
    using triggerDidUpdate_only_updated[of e n v w] by blast
  have b: "v_isVirtualComponent (velOf w v) \<and> sis w UPDATED (OVel v)
        \<and> v_comp (velOf w v) = Some c \<and> fst (triggerDidUpdate (Suc n) v w) = Inr () \<longrightarrow>
        emitted (triggerDidUpdate (Suc n) v) w
          = emitted (forEach (triggerDidUpdate n)
              (if sis w SKIPPED (OVel v) then [] else v_children (velOf w v))) w
            @ [DidUpdate c (sget w OLDPROPS (OVel v)) (sget w OLDSTATE (OVel v))]"
    using triggerDidUpdate_children_first[of w v c n] by blast
  have c: "fst (capture E (Suc n) v NoMode w) = Inr ()
        \<and> sis (snd (capture E (Suc n) v NoMode w)) SKIPPED (OVel v)
        \<and> sis (snd (capture E (Suc n) v NoMode w)) UPDATED (OVel v)
        \<and> next_ctx (hp (snd (capture E (Suc n) v NoMode w))) = next_ctx (hp w)
        \<and> emitted (capture E (Suc n) v NoMode) w = [WillReceiveProps c (v_props (velOf w v))]
        \<and> emitted (triggerDidUpdate (Suc m) v) (snd (capture E (Suc n) v NoMode w))
            = [DidUpdate c
                (if c_props (compOf w c) = Undefined then JBool True else c_props (compOf w c))
                (if c_state (compOf w c) = Undefined then JBool True else c_state (compOf w c))]"
    if h: "\<not> sis w CAPTURED (OVel v)" "\<not> sis w NEW (OVel v)" "v_isVirtualComponent (velOf w v)"
        "v_comp (velOf w v) = Some c" "c_el (compOf w c) = Some el"
        "\<not> e_shouldRerender E c (v_props (velOf w v)) (c_state (compOf w c)) (hp w)"
  proof -
    note k = capture_skipped[OF h(1,3,4,5,6,2), of n]
    note o = capture_skipped_old[OF h(1,3,4,5,6,2), of n]
    have "emitted (triggerDidUpdate (Suc m) v) (snd (capture E (Suc n) v NoMode w))
        = [DidUpdate c (sget (snd (capture E (Suc n) v NoMode w)) OLDPROPS (OVel v))
             (sget (snd (capture E (Suc n) v NoMode w)) OLDSTATE (OVel v))]"
      by (rule triggerDidUpdate_skipped[OF k(6) k(3) k(2) k(7)])
    then show ?thesis using k o by simp
  qed
  show ?thesis using a b c by blast
qed


theorem update_notice_order_witness:
  "\<not> sis mountedWorld CAPTURED (OVel 0) \<and> \<not> sis mountedWorld NEW (OVel 0)
   \<and> v_isVirtualComponent (velOf mountedWorld 0) \<and> v_comp (velOf mountedWorld 0) = Some 0
   \<and> c_el (compOf mountedWorld 0) = Some 0
   \<and> \<not> e_shouldRerender skipEnv 0 (v_props (velOf mountedWorld 0))
         (c_state (compOf mountedWorld 0)) (hp mountedWorld)
   \<and> fst (capture skipEnv (Suc 0) 0 NoMode mountedWorld) = Inr ()
   \<and> sis skippedWorld SKIPPED (OVel 0) \<and> sis skippedWorld UPDATED (OVel 0)
   \<and> next_ctx (hp skippedWorld) = next_ctx (hp mountedWorld)
   \<and> emitted (capture skipEnv (Suc 0) 0 NoMode) mountedWorld = [WillReceiveProps 0 (JNum 3)]
   \<and> emitted (triggerDidUpdate (Suc 0) 0) skippedWorld = [DidUpdate 0 (JNum 1) (JNum 2)]
   \<and> DidUpdate 0 (JNum 1) (JNum 2) \<in> set (emitted (triggerDidUpdate (Suc 0) 0) skippedWorld)
   \<and> updateNotice skippedWorld (DidUpdate 0 (JNum 1) (JNum 2))
   \<and> v_isVirtualComponent (velOf skippedWorld 0) \<and> v_comp (velOf skippedWorld 0) = Some 0
   \<and> fst (triggerDidUpdate (Suc 0) 0 skippedWorld) = Inr ()
   \<and> emitted (triggerDidUpdate (Suc 0) 0) skippedWorld
       = emitted (forEach (triggerDidUpdate 0)
           (if sis skippedWorld SKIPPED (OVel 0) then [] else v_children (velOf skippedWorld 0)))
           skippedWorld
         @ [DidUpdate 0 (sget skippedWorld OLDPROPS (OVel 0)) (sget skippedWorld OLDSTATE (OVel 0))]"
proof -
  have h: "\<not> sis mountedWorld CAPTURED (OVel 0)" "\<not> sis mountedWorld NEW (OVel 0)"
    "v_isVirtualComponent (velOf mountedWorld 0)" "v_comp (velOf mountedWorld 0) = Some 0"
    "c_el (compOf mountedWorld 0) = Some 0"
    "\<not> e_shouldRerender skipEnv 0 (v_props (velOf mountedWorld 0))
         (c_state (compOf mountedWorld 0)) (hp mountedWorld)"
    "v_props (velOf mountedWorld 0) = JNum 3" "c_props (compOf mountedWorld 0) = JNum 1"
    "c_state (compOf mountedWorld 0) = JNum 2"
    by (simp_all add: mountedWorld_def skipEnv_def pure_defs)
  note k = capture_skipped[OF h(1,3,4,5,6,2), of 0]
  have f: "fst (triggerDidUpdate (Suc 0) 0 skippedWorld) = Inr ()"
    using k unfolding skippedWorld_def
    by (simp add: triggerDidUpdate.simps(2) triggerDidUpdateStep_component fst_sq whenM_def ret_def
        compDidUpdate_def exec)
  have k': "v_isVirtualComponent (velOf skippedWorld 0)" "v_comp (velOf skippedWorld 0) = Some 0"
    using k unfolding skippedWorld_def by simp_all
  have c3: "fst (capture skipEnv (Suc 0) 0 NoMode mountedWorld) = Inr ()
     \<and> sis skippedWorld SKIPPED (OVel 0) \<and> sis skippedWorld UPDATED (OVel 0)
     \<and> next_ctx (hp skippedWorld) = next_ctx (hp mountedWorld)
     \<and> emitted (capture skipEnv (Suc 0) 0 NoMode) mountedWorld = [WillReceiveProps 0 (JNum 3)]
     \<and> emitted (triggerDidUpdate (Suc 0) 0) skippedWorld = [DidUpdate 0 (JNum 1) (JNum 2)]"
    using h
      update_notice_order[where w=mountedWorld and v=0 and c=0 and el=0 and E=skipEnv and n=0
        and m=0 and e="DidUpdate 0 (JNum 1) (JNum 2)"]
    unfolding skippedWorld_def by simp
  have c2: "emitted (triggerDidUpdate (Suc 0) 0) skippedWorld
       = emitted (forEach (triggerDidUpdate 0)
           (if sis skippedWorld SKIPPED (OVel 0) then [] else v_children (velOf skippedWorld 0)))
           skippedWorld
         @ [DidUpdate 0 (sget skippedWorld OLDPROPS (OVel 0)) (sget skippedWorld OLDSTATE (OVel 0))]"
    using k' c3 f
      update_notice_order[where w=skippedWorld and v=0 and c=0 and el=0 and E=skipEnv and n=0
        and m=0 and e="DidUpdate 0 (JNum 1) (JNum 2)"]
    by blast
  have m: "DidUpdate 0 (JNum 1) (JNum 2) \<in> set (emitted (triggerDidUpdate (Suc 0) 0) skippedWorld)"
    using c3 by simp
  have c1: "updateNotice skippedWorld (DidUpdate 0 (JNum 1) (JNum 2))"
    using m
      update_notice_order[where w=skippedWorld and v=0 and c=0 and el=0 and E=skipEnv and n="Suc 0"
        and m=0 and e="DidUpdate 0 (JNum 1) (JNum 2)"]
    by blast
  show ?thesis using h(1-6) c3 m c1 k' f c2 by blast
qed

text \<open>
  A mounted component that declines to render again: its render routine is not called (it
  is tagged skipped and no rendering context is created), and it receives the update
  notification.
\<close>

theorem update_notice_counterexample:
  "c_mounted (compOf mountedWorld 0)
   \<and> sis skippedWorld SKIPPED (OVel 0)
   \<and> next_ctx (hp skippedWorld) = next_ctx (hp mountedWorld)
   \<and> emitted (capture skipEnv (Suc 0) 0 NoMode) mountedWorld = [WillReceiveProps 0 (JNum 3)]
   \<and> emitted (triggerDidUpdate (Suc 0) 0) skippedWorld = [DidUpdate 0 (JNum 1) (JNum 2)]"
proof -
  have h: "\<not> sis mountedWorld CAPTURED (OVel 0)" "\<not> sis mountedWorld NEW (OVel 0)"
    "v_isVirtualComponent (velOf mountedWorld 0)" "v_comp (velOf mountedWorld 0) = Some 0"
    "c_el (compOf mountedWorld 0) = Some 0"
    "\<not> e_shouldRerender skipEnv 0 (v_props (velOf mountedWorld 0))
         (c_state (compOf mountedWorld 0)) (hp mountedWorld)"
    "v_props (velOf mountedWorld 0) = JNum 3" "c_props (compOf mountedWorld 0) = JNum 1"
    "c_state (compOf mountedWorld 0) = JNum 2" "c_mounted (compOf mountedWorld 0)"
    by (simp_all add: mountedWorld_def skipEnv_def pure_defs)
  note k = capture_skipped[OF h(1,3,4,5,6,2), of 0]
  note o = capture_skipped_old[OF h(1,3,4,5,6,2), of 0]
  have "emitted (triggerDidUpdate (Suc 0) 0) skippedWorld
      = [DidUpdate 0 (sget skippedWorld OLDPROPS (OVel 0)) (sget skippedWorld OLDSTATE (OVel 0))]"
    unfolding skippedWorld_def by (rule triggerDidUpdate_skipped[OF k(6) k(3) k(2) k(7)])
  then show ?thesis using h k o unfolding skippedWorld_def by simp
qed

section \<open>A second pass over an unchanged tree\<close>














section \<open>Forwarding chains\<close>

lemma chain_first_pass:
  "\<exists>W. render chainEnv 6 0 Undefined Undefined False chainWorld = (Inr (), W)
     \<and> c_el (compOf W 0) = Some 1 \<and> c_el (compOf W 1) = Some 1 \<and> c_el (compOf W 2) = Some 1
     \<and> c_parent (compOf W 1) = Some 0 \<and> c_parent (compOf W 2) = Some 1
     \<and> c_constructor (compOf W 1) = clsB \<and> c_constructor (compOf W 2) = clsC"
  by (simp add: chainWorld_def chainEnv_def renderChain_def clsA_def clsB_def clsC_def clsD_def
      allocV_def fuel_run run_defs pure_defs Let_def cong: ev_cong)

lemma chain_second_pass:
  "\<exists>W. render chainEnv 6 1 Undefined Undefined False chainMounted = (Inr (), W)
     \<and> c_el (compOf W 0) = Some 1 \<and> c_el (compOf W 1) = Some 2 \<and> c_el (compOf W 3) = Some 2
     \<and> c_parent (compOf W 3) = Some 1 \<and> c_constructor (compOf W 3) = clsD
     \<and> n_parentNode (nodeOf W 1) = None \<and> n_parentNode (nodeOf W 2) = Some 0
     \<and> n_childNodes (nodeOf W 0) = [2]"
  by (simp add: chainMounted_def chainRendered_def chainWorld_def chainEnv_def renderChain_def
      clsA_def clsB_def clsC_def clsD_def
      allocV_def fuel_run run_defs pure_defs Let_def cong: ev_cong)


text \<open>
  Claim C7 on a chain of two forwarding components. \<open>A\<close> renders \<open>B\<close>, \<open>B\<close>
  renders \<open>C\<close>, \<open>C\<close> renders a \<open>div\<close>. After the first pass the three
  components share the node of \<open>C\<close>. The node is then attached to the document, the
  state of \<open>B\<close> changes, and \<open>B\<close> is rendered again: it now renders \<open>D\<close>.
  \<open>_update\<close> gives \<open>B\<close> the node of \<open>D\<close> and puts it into the document in
  place of the old one, but \<open>A\<close>, which forwards to \<open>B\<close>, keeps the old node, which
  is no longer in the document.
\<close>

theorem forwarding_chain_stale_node:
  "fst (render chainEnv 6 0 Undefined Undefined False chainWorld) = Inr ()
   \<and> c_constructor (compOf chainRendered 1) = clsB \<and> c_parent (compOf chainRendered 1) = Some 0
   \<and> c_constructor (compOf chainRendered 2) = clsC \<and> c_parent (compOf chainRendered 2) = Some 1
   \<and> c_el (compOf chainRendered 0) = Some 1 \<and> c_el (compOf chainRendered 1) = Some 1
   \<and> c_el (compOf chainRendered 2) = Some 1
   \<and> fst (render chainEnv 6 1 Undefined Undefined False chainMounted) = Inr ()
   \<and> c_constructor (compOf chainUpdated 3) = clsD \<and> c_parent (compOf chainUpdated 3) = Some 1
   \<and> c_el (compOf chainUpdated 3) = Some 2 \<and> c_el (compOf chainUpdated 1) = Some 2
   \<and> c_el (compOf chainUpdated 0) = Some 1
   \<and> c_el (compOf chainUpdated 0) \<noteq> c_el (compOf chainUpdated 1)
   \<and> n_parentNode (nodeOf chainUpdated 1) = None
   \<and> n_parentNode (nodeOf chainUpdated 2) = Some 0
   \<and> n_childNodes (nodeOf chainUpdated 0) = [2]"
proof -
  from chain_first_pass obtain W1 where
    a: "render chainEnv 6 0 Undefined Undefined False chainWorld = (Inr (), W1)"
    "c_el (compOf W1 0) = Some 1" "c_el (compOf W1 1) = Some 1" "c_el (compOf W1 2) = Some 1"
    "c_parent (compOf W1 1) = Some 0" "c_parent (compOf W1 2) = Some 1"
    "c_constructor (compOf W1 1) = clsB" "c_constructor (compOf W1 2) = clsC"
    by blast
  from chain_second_pass obtain W2 where
    b: "render chainEnv 6 1 Undefined Undefined False chainMounted = (Inr (), W2)"
    "c_el (compOf W2 0) = Some 1" "c_el (compOf W2 1) = Some 2" "c_el (compOf W2 3) = Some 2"
    "c_parent (compOf W2 3) = Some 1" "c_constructor (compOf W2 3) = clsD"
    "n_parentNode (nodeOf W2 1) = None" "n_parentNode (nodeOf W2 2) = Some 0"
    "n_childNodes (nodeOf W2 0) = [2]"
    by blast
  have r: "chainRendered = W1" "chainUpdated = W2"
    using a(1) b(1) by (simp_all add: chainRendered_def chainUpdated_def)
  show ?thesis unfolding r using a b by simp
qed

end
